(* ===== verification/Tunna_Prelude.thy ===== *)
theory Tunna_Prelude
  imports Main "HOL-Library.Word" "HOL-Library.AList" "HOL-Library.Sublist"
    "HOL-Library.Char_ord" "HOL-Library.List_Lexorder" "HOL-Library.Product_Lexorder" "HOL-Library.Multiset"
begin

text \<open>
  Shared vocabulary of the development.  A Go string is a sequence of bytes and is
  modelled by \<open>string\<close> (a list of 8-bit characters); a \<open>[]byte\<close> is a list of 8-bit words; a
  Go map is an association list with distinct keys (its order stands for the arbitrary
  iteration order of the map).  The theory holds the functions of Go's \<open>strings\<close> package the
  program uses and the lemmas about them the components share.
\<close>

unbundle bit_operations_syntax

named_theorems go_defs \<open>definitions of the Go library functions the program uses\<close>

section \<open>Types\<close>

type_synonym byte = "8 word"
type_synonym gostring = string
type_synonym ('k, 'v) gomap = "('k \<times> 'v) list"

abbreviation code_of :: "char \<Rightarrow> nat" where
  "code_of c \<equiv> of_char c"

definition bytes_of :: "gostring \<Rightarrow> byte list" where
  "bytes_of s = map (\<lambda>c. word_of_nat (code_of c)) s"

definition string_of_bytes :: "byte list \<Rightarrow> gostring" where
  "string_of_bytes bs = map (\<lambda>b. char_of (unat b)) bs"

lemma code_of_less: "code_of c < 256"
  using of_char_mod_256 [of c, where ?'a = nat] by (metis mod_less_divisor zero_less_numeral)

lemma string_of_bytes_of [simp]: "string_of_bytes (bytes_of s) = s"
proof -
  have "char_of (unat (word_of_nat (code_of c) :: byte)) = c" for c
    using code_of_less [of c] by (simp add: unat_of_nat take_bit_nat_eq_self)
  then show ?thesis by (simp add: string_of_bytes_def bytes_of_def comp_def)
qed

lemma bytes_of_string_of [simp]: "bytes_of (string_of_bytes bs) = bs"
proof -
  have "(word_of_nat (code_of (char_of (unat b))) :: byte) = b" for b :: byte
    using unsigned_less [of b, where ?'a = nat] by (simp add: unat_of_nat)
  then show ?thesis by (simp add: string_of_bytes_def bytes_of_def comp_def)
qed

lemma length_bytes_of [simp]: "length (bytes_of s) = length s"
  by (simp add: bytes_of_def)

lemma length_string_of_bytes [simp]: "length (string_of_bytes bs) = length bs"
  by (simp add: string_of_bytes_def)

section \<open>Go's strings package\<close>

definition HasPrefix :: "gostring \<Rightarrow> gostring \<Rightarrow> bool" where
  [go_defs]: "HasPrefix s p = prefix p s"

definition CutPrefix :: "gostring \<Rightarrow> gostring \<Rightarrow> gostring \<times> bool" where
  [go_defs]: "CutPrefix s p = (if prefix p s then (drop (length p) s, True) else (s, False))"

definition TrimPrefix :: "gostring \<Rightarrow> gostring \<Rightarrow> gostring" where
  [go_defs]: "TrimPrefix s p = fst (CutPrefix s p)"

definition CutSuffix :: "gostring \<Rightarrow> gostring \<Rightarrow> gostring \<times> bool" where
  [go_defs]: "CutSuffix s p =
     (if suffix p s then (take (length s - length p) s, True) else (s, False))"

text \<open>\<open>strings.Cut\<close> with a one-byte separator.\<close>

fun Cut :: "gostring \<Rightarrow> char \<Rightarrow> gostring \<times> gostring \<times> bool" where
  "Cut [] sep = ([], [], False)"
| "Cut (c # s) sep =
     (if c = sep then ([], s, True)
      else (case Cut s sep of (a, b, ok) \<Rightarrow> (c # a, b, ok)))"

text \<open>\<open>strings.Split\<close> and \<open>strings.SplitSeq\<close> with a one-byte separator.\<close>

fun split_on :: "char \<Rightarrow> gostring \<Rightarrow> gostring list" where
  "split_on sep [] = [[]]"
| "split_on sep (c # s) =
     (if c = sep then [] # split_on sep s
      else (case split_on sep s of [] \<Rightarrow> [[c]] | w # ws \<Rightarrow> (c # w) # ws))"

text \<open>\<open>strings.Split\<close> with a longer separator.\<close>

function split_str :: "gostring \<Rightarrow> gostring \<Rightarrow> gostring list" where
  "split_str sep [] = [[]]"
| "split_str sep (c # s) =
     (if prefix sep (c # s) \<and> sep \<noteq> [] then [] # split_str sep (drop (length sep) (c # s))
      else (case split_str sep s of [] \<Rightarrow> [[c]] | w # ws \<Rightarrow> (c # w) # ws))"
  by pat_completeness auto
termination
  by (relation "measure (\<lambda>(sep, s). length s)") (auto simp: neq_Nil_conv)

fun join_with :: "gostring \<Rightarrow> gostring list \<Rightarrow> gostring" where
  "join_with sep [] = []"
| "join_with sep [s] = s"
| "join_with sep (s # t # ss) = s @ sep @ join_with sep (t # ss)"

definition contains_char :: "gostring \<Rightarrow> char \<Rightarrow> bool" where
  [go_defs]: "contains_char s c = (c \<in> set s)"

text \<open>\<open>strings.ToLower\<close> on ASCII text; bytes from 128 on are left as they are.\<close>

definition lower_char :: "char \<Rightarrow> char" where
  "lower_char c = (if 65 \<le> code_of c \<and> code_of c \<le> 90 then char_of (code_of c + 32) else c)"

definition ToLower :: "gostring \<Rightarrow> gostring" where
  "ToLower s = map lower_char s"

definition EqualFold :: "gostring \<Rightarrow> gostring \<Rightarrow> bool" where
  "EqualFold s t = (ToLower s = ToLower t)"

lemma lower_char_idem [simp]: "lower_char (lower_char c) = lower_char c"
  by (simp add: lower_char_def)

lemma ToLower_idem [simp]: "ToLower (ToLower s) = ToLower s"
  by (simp add: ToLower_def)

lemma lower_char_eq_small: "code_of d < 65 \<Longrightarrow> lower_char c = d \<longleftrightarrow> c = d"
  by (auto simp: lower_char_def)

lemma ToLower_notin: "code_of d < 65 \<Longrightarrow> d \<in> set (ToLower s) \<longleftrightarrow> d \<in> set s"
  by (induction s) (auto simp: ToLower_def lower_char_eq_small eq_commute [of d])

lemma ToLower_Nil [simp]: "ToLower [] = []" "ToLower s = [] \<longleftrightarrow> s = []"
  by (simp_all add: ToLower_def)

section \<open>Lemmas on cutting, splitting and joining\<close>

lemma Cut_append: "sep \<notin> set a \<Longrightarrow> Cut (a @ sep # b) sep = (a, b, True)"
  by (induction a) auto

lemma Cut_notin: "sep \<notin> set s \<Longrightarrow> Cut s sep = (s, [], False)"
  by (induction s) auto

lemma Cut_found: "Cut s sep = (a, b, True) \<Longrightarrow> s = a @ sep # b \<and> sep \<notin> set a"
  by (induction s arbitrary: a) (auto split: if_splits prod.splits)

lemma Cut_not_found: "Cut s sep = (a, b, False) \<Longrightarrow> a = s \<and> b = [] \<and> sep \<notin> set s"
  by (induction s arbitrary: a) (auto split: if_splits prod.splits)

lemma CutPrefix_append [simp]: "CutPrefix (p @ s) p = (s, True)"
  by (simp add: CutPrefix_def)

lemma CutPrefix_True: "CutPrefix s p = (r, True) \<longleftrightarrow> s = p @ r"
  by (auto simp: CutPrefix_def prefix_def)

lemma split_on_nonempty [simp]: "split_on sep s \<noteq> []"
  by (induction s) (auto split: list.splits)

lemma split_on_notin: "sep \<notin> set s \<Longrightarrow> split_on sep s = [s]"
  by (induction s) auto

lemma split_on_append:
  "sep \<notin> set a \<Longrightarrow> split_on sep (a @ sep # s) = a # split_on sep s"
  by (induction a) auto

lemma split_on_join:
  assumes "ws \<noteq> []" "\<And>w. w \<in> set ws \<Longrightarrow> sep \<notin> set w"
  shows "split_on sep (join_with [sep] ws) = ws"
  using assms
proof (induction "[sep]" ws rule: join_with.induct)
  case (2 s)
  then show ?case by (simp add: split_on_notin)
next
  case (3 s t ss)
  then show ?case by (simp add: split_on_append)
qed simp

lemma join_split_on [simp]: "join_with [sep] (split_on sep s) = s"
proof (induction s)
  case (Cons c s)
  then show ?case
    by (cases "split_on sep s" rule: list.exhaust; cases "tl (split_on sep s)")
      (auto simp: neq_Nil_conv)
qed simp

lemma split_on_mem: "w \<in> set (split_on sep s) \<Longrightarrow> sep \<notin> set w"
  by (induction s arbitrary: w) (auto split: if_splits list.splits)

lemma split_on_subset: "w \<in> set (split_on sep s) \<Longrightarrow> set w \<subseteq> set s"
  by (induction s arbitrary: w) (auto split: if_splits list.splits, fastforce+)

lemma join_with_inj:
  assumes "join_with [sep] xs = join_with [sep] ys"
    and "xs \<noteq> []" "ys \<noteq> []"
    and "\<And>w. w \<in> set xs \<Longrightarrow> sep \<notin> set w" "\<And>w. w \<in> set ys \<Longrightarrow> sep \<notin> set w"
  shows "xs = ys"
  using assms split_on_join by metis

lemma set_join_with: "set (join_with sep ss) \<subseteq> set sep \<union> \<Union> (set ` set ss)"
  by (induction sep ss rule: join_with.induct) auto

lemma join_with_eq_Nil: "join_with [sep] ss = [] \<longleftrightarrow> ss = [] \<or> ss = [[]]"
  by (cases ss rule: remdups_adj.cases) auto

lemma split_str_append:
  "sep \<noteq> [] \<Longrightarrow> hd sep \<notin> set a \<Longrightarrow> split_str sep (a @ sep @ s) = a # split_str sep s"
proof (induction a)
  case Nil
  then show ?case by (cases sep) auto
next
  case (Cons c a)
  then show ?case by (cases sep) auto
qed

lemma split_str_notin: "sep \<noteq> [] \<Longrightarrow> hd sep \<notin> set s \<Longrightarrow> split_str sep s = [s]"
proof (induction s)
  case (Cons c s)
  then show ?case by (cases sep) auto
qed simp

section \<open>Association lists as Go maps\<close>

definition map_keys :: "('k, 'v) gomap \<Rightarrow> 'k list" where
  "map_keys m = map fst m"

definition map_put :: "('k, 'v) gomap \<Rightarrow> 'k \<Rightarrow> 'v \<Rightarrow> ('k, 'v) gomap" where
  "map_put m k v = AList.update k v m"

definition map_del :: "('k, 'v) gomap \<Rightarrow> 'k \<Rightarrow> ('k, 'v) gomap" where
  "map_del m k = AList.delete k m"

abbreviation is_map :: "('k, 'v) gomap \<Rightarrow> bool" where
  "is_map m \<equiv> distinct (map fst m)"

lemma map_of_put [simp]: "map_of (map_put m k v) = (map_of m)(k \<mapsto> v)"
  by (simp add: map_put_def update_conv')

lemma map_of_del [simp]: "map_of (map_del m k) = (map_of m)(k := None)"
  by (simp add: map_del_def delete_conv')

lemma is_map_put [simp]: "is_map m \<Longrightarrow> is_map (map_put m k v)"
  by (simp add: map_put_def distinct_update)

lemma is_map_del [simp]: "is_map m \<Longrightarrow> is_map (map_del m k)"
  by (simp add: map_del_def distinct_delete)

text \<open>The values of a Go map, in iteration order, and sorted by a key that identifies them.\<close>

definition map_values :: "('k, 'v) gomap \<Rightarrow> 'v list" where
  "map_values m = map snd m"

lemma map_sort_key_distinct:
  fixes f :: "'a \<Rightarrow> 'k :: linorder"
  assumes "distinct (map f xs)"
  shows "map f (sort_key f xs) = sorted_list_of_set (f ` set xs)"
proof -
  have "mset (map f (sort_key f xs)) = mset (map f xs)"
    by simp
  then have "distinct (map f (sort_key f xs))"
    using assms mset_eq_imp_distinct_iff by blast
  then show ?thesis
    by (intro sorted_distinct_set_unique) simp_all
qed

lemma map_of_in_values: "map_of m k = Some v \<Longrightarrow> v \<in> set (map_values m)"
  by (force simp: map_values_def dest: map_of_SomeD)

text \<open>A map whose values carry their own key.\<close>

definition keyed_by :: "('v \<Rightarrow> 'k) \<Rightarrow> ('k, 'v) gomap \<Rightarrow> bool" where
  "keyed_by f m \<longleftrightarrow> is_map m \<and> (\<forall>(k, v) \<in> set m. f v = k)"

lemma keyed_by_Nil [simp]: "keyed_by f []"
  by (simp add: keyed_by_def)

lemma keyed_by_is_map: "keyed_by f m \<Longrightarrow> is_map m"
  by (simp add: keyed_by_def)

lemma keyed_by_map_of: "keyed_by f m \<Longrightarrow> map_of m k = Some v \<Longrightarrow> f v = k"
  by (auto simp: keyed_by_def dest: map_of_SomeD)

lemma keyed_by_map_fst: "keyed_by f m \<Longrightarrow> map f (map_values m) = map fst m"
  by (auto simp: keyed_by_def map_values_def)

lemma keyed_by_values: "keyed_by f m \<Longrightarrow> v \<in> set (map_values m) \<longleftrightarrow> map_of m (f v) = Some v"
  by (force simp: keyed_by_def map_values_def)

lemma keyed_by_put: "keyed_by f m \<Longrightarrow> f v = k \<Longrightarrow> keyed_by f (map_put m k v)"
proof -
  assume k: "keyed_by f m" "f v = k"
  have "f v' = k'" if "(k', v') \<in> set (map_put m k v)" for k' v'
  proof -
    have "map_of (map_put m k v) k' = Some v'"
      using that k(1) by (intro map_of_is_SomeI) (simp_all add: keyed_by_def)
    then show ?thesis
      using k keyed_by_map_of [OF k(1)] by (auto split: if_splits)
  qed
  with k show ?thesis by (auto simp: keyed_by_def)
qed

lemma keyed_by_del: "keyed_by f m \<Longrightarrow> keyed_by f (map_del m k)"
proof -
  assume k: "keyed_by f m"
  have "set (map_del m k) \<subseteq> set m"
    by (auto simp: map_del_def AList.delete_eq)
  moreover have "is_map (map_del m k)"
    using k by (simp add: keyed_by_def is_map_del)
  ultimately show ?thesis
    using k by (auto simp: keyed_by_def)
qed

lemma keyed_by_filter: "keyed_by f m \<Longrightarrow> keyed_by f (filter P m)"
  by (auto simp: keyed_by_def distinct_map intro: inj_on_subset)

lemma keyed_by_distinct: "keyed_by f m \<Longrightarrow> distinct (map f (map_values m))"
  by (metis keyed_by_def keyed_by_map_fst)

lemma keyed_by_sorted_values:
  fixes f :: "'v \<Rightarrow> 'k :: linorder"
  shows "keyed_by f m \<Longrightarrow> distinct (map f (sort_key f (map_values m)))"
  by (simp only: map_sort_key_distinct [OF keyed_by_distinct] distinct_sorted_list_of_set)

section \<open>Machine integers\<close>

text \<open>An \<open>int64\<close> result: the integer wrapped to 64 bits, two's complement.\<close>

definition int64 :: "int \<Rightarrow> int" where
  "int64 i = sint (word_of_int i :: 64 word)"

lemma int64_range: "- (2 ^ 63) \<le> int64 i \<and> int64 i < 2 ^ 63"
  using sint_range_size [of "word_of_int i :: 64 word"] by (simp add: int64_def word_size)

lemma int64_small: "- (2 ^ 63) \<le> i \<Longrightarrow> i < 2 ^ 63 \<Longrightarrow> int64 i = i"
  unfolding int64_def by (subst signed_of_int) (simp add: signed_take_bit_int_eq_self)

section \<open>Sums as results\<close>

definition is_ok :: "'e + 'a \<Rightarrow> bool" where
  "is_ok r = (case r of Inl _ \<Rightarrow> False | Inr _ \<Rightarrow> True)"

lemma is_ok_simps [simp]: "is_ok (Inr x)" "\<not> is_ok (Inl e)"
  by (simp_all add: is_ok_def)

end
