(* ===== verification/Go_Encoding.thy ===== *)
theory Go_Encoding
  imports Tunna_Prelude
begin

text \<open>
  The encodings of Go's standard library the program relies on: \<open>strconv\<close> integers,
  \<open>encoding/hex\<close>, \<open>encoding/base64\<close>, \<open>net/url\<close> percent-decoding and \<open>unicode/utf8\<close>.
  Each decoder returns an option, \<open>None\<close> where the Go function returns an error.
\<close>

section \<open>strconv\<close>

definition is_digit :: "char \<Rightarrow> bool" where
  "is_digit c = (48 \<le> code_of c \<and> code_of c \<le> 57)"

fun digits_val :: "nat \<Rightarrow> gostring \<Rightarrow> nat option" where
  "digits_val acc [] = Some acc"
| "digits_val acc (c # s) =
     (if is_digit c then digits_val (10 * acc + (code_of c - 48)) s else None)"

text \<open>\<open>strconv.ParseInt(s, 10, 64)\<close>; \<open>strconv.Atoi\<close> is the same on a 64-bit platform.\<close>

definition ParseInt :: "gostring \<Rightarrow> int option" where
  "ParseInt s =
     (case s of [] \<Rightarrow> None
      | c # t \<Rightarrow>
          let neg = (c = CHR ''-'');
              u = (if c = CHR ''+'' \<or> c = CHR ''-'' then t else s)
          in if u = [] then None
             else (case digits_val 0 u of None \<Rightarrow> None
                   | Some n \<Rightarrow>
                       if \<not> neg \<and> n \<ge> 2 ^ 63 then None
                       else if neg \<and> n > 2 ^ 63 then None
                       else Some (if neg then - int n else int n)))"

fun format_nat :: "nat \<Rightarrow> gostring" where
  "format_nat n =
     (if n < 10 then [char_of (48 + n)] else format_nat (n div 10) @ [char_of (48 + n mod 10)])"

declare format_nat.simps [simp del]

definition FormatInt :: "int \<Rightarrow> gostring" where
  "FormatInt i = (if i < 0 then CHR ''-'' # format_nat (nat (- i)) else format_nat (nat i))"

definition int64_range :: "int \<Rightarrow> bool" where
  "int64_range i \<longleftrightarrow> - (2 ^ 63) \<le> i \<and> i < 2 ^ 63"

lemma digits_val_append:
  "digits_val acc (s @ t) = Option.bind (digits_val acc s) (\<lambda>a. digits_val a t)"
  by (induction s arbitrary: acc) auto

lemma is_digit_digit: "(n :: nat) < 10 \<Longrightarrow> is_digit (char_of (48 + n))"
  by (simp add: is_digit_def)

lemma format_nat_nonempty [simp]: "format_nat n \<noteq> []"
  by (subst format_nat.simps) simp

lemma digits_val_format_nat: "digits_val 0 (format_nat n) = Some n"
proof (induction n rule: format_nat.induct)
  case (1 n)
  then show ?case
    by (cases "n < 10")
      (simp_all add: format_nat.simps [of n] digits_val_append is_digit_digit)
qed

lemma format_nat_digits: "\<forall>c \<in> set (format_nat n). is_digit c"
proof (induction n rule: format_nat.induct)
  case (1 n)
  then show ?case
    by (cases "n < 10") (auto simp: format_nat.simps [of n] is_digit_digit)
qed

lemma is_digit_not_sign: "is_digit c \<Longrightarrow> c \<noteq> CHR ''-'' \<and> c \<noteq> CHR ''+''"
  by (auto simp: is_digit_def)

lemma ParseInt_FormatInt:
  assumes "int64_range i"
  shows "ParseInt (FormatInt i) = Some i"
proof (cases "i < 0")
  case True
  then show ?thesis
    using assms by (simp add: FormatInt_def ParseInt_def int64_range_def digits_val_format_nat)
next
  case False
  obtain c t where ct: "format_nat (nat i) = c # t"
    by (cases "format_nat (nat i)") auto
  then have "is_digit c"
    using format_nat_digits [of "nat i"] by auto
  then show ?thesis
    using False assms ct digits_val_format_nat [of "nat i"] is_digit_not_sign [of c]
    by (simp add: FormatInt_def ParseInt_def int64_range_def nat_less_iff)
qed

lemma format_nat_inj: "format_nat m = format_nat n \<Longrightarrow> m = n"
  using digits_val_format_nat by (metis option.inject)

lemma format_nat_not_minus: "format_nat n \<noteq> CHR ''-'' # t"
  using format_nat_digits [of n] is_digit_not_sign [of "CHR ''-''"] by auto

lemma FormatInt_inj:
  assumes "FormatInt i = FormatInt j"
  shows "i = j"
proof (cases "i < 0"; cases "j < 0")
  assume "i < 0" "j < 0"
  with assms have "nat (- i) = nat (- j)" by (simp add: FormatInt_def format_nat_inj)
  with \<open>i < 0\<close> \<open>j < 0\<close> show ?thesis by linarith
next
  assume "\<not> i < 0" "\<not> j < 0"
  with assms have "nat i = nat j" by (simp add: FormatInt_def format_nat_inj)
  with \<open>\<not> i < 0\<close> \<open>\<not> j < 0\<close> show ?thesis by linarith
qed (use assms format_nat_not_minus format_nat_not_minus [symmetric] in \<open>simp_all add: FormatInt_def\<close>)

lemma FormatInt_chars: "c \<in> set (FormatInt i) \<Longrightarrow> is_digit c \<or> c = CHR ''-''"
  using format_nat_digits by (auto simp: FormatInt_def split: if_splits)

section \<open>encoding/hex\<close>

definition hex_char :: "nat \<Rightarrow> char" where
  "hex_char n = (if n < 10 then char_of (48 + n) else char_of (87 + n))"

definition hex_encode :: "byte list \<Rightarrow> gostring" where
  "hex_encode bs = concat (map (\<lambda>b. [hex_char (unat b div 16), hex_char (unat b mod 16)]) bs)"

definition is_lower_hex :: "char \<Rightarrow> bool" where
  "is_lower_hex c = ((97 \<le> code_of c \<and> code_of c \<le> 102) \<or> is_digit c)"

lemma hex_char_lower: "n < 16 \<Longrightarrow> is_lower_hex (hex_char n)"
  by (auto simp: hex_char_def is_lower_hex_def is_digit_def)

lemma unat_byte_less [simp]: "unat (b :: byte) < 256"
  using unsigned_less [of b, where ?'a = nat] by simp

lemma length_hex_encode [simp]: "length (hex_encode bs) = 2 * length bs"
  by (induction bs) (auto simp: hex_encode_def)

lemma hex_encode_chars: "c \<in> set (hex_encode bs) \<Longrightarrow> is_lower_hex c"
proof -
  have "unat b div 16 < 16" for b :: byte
    using unat_byte_less [of b] by linarith
  then show "c \<in> set (hex_encode bs) \<Longrightarrow> is_lower_hex c"
    by (auto simp: hex_encode_def hex_char_lower)
qed

section \<open>encoding/base64\<close>

text \<open>
  The alphabet of \<open>StdEncoding\<close> (\<open>url = False\<close>) and of \<open>URLEncoding\<close>; the decoder is the
  non-strict one of the library: line breaks are skipped wherever they stand and the unused
  low bits of the last sextet are not checked.
\<close>

definition b64_char :: "bool \<Rightarrow> nat \<Rightarrow> char" where
  "b64_char url n =
     (if n < 26 then char_of (65 + n)
      else if n < 52 then char_of (71 + n)
      else if n < 62 then char_of (n - 4)
      else if n = 62 then (if url then CHR ''-'' else CHR ''+'')
      else (if url then CHR ''_'' else CHR ''/''))"

definition b64_val :: "char \<Rightarrow> nat option" where
  "b64_val c =
     (let n = code_of c in
      if 65 \<le> n \<and> n \<le> 90 then Some (n - 65)
      else if 97 \<le> n \<and> n \<le> 122 then Some (n - 71)
      else if 48 \<le> n \<and> n \<le> 57 then Some (n + 4)
      else if c = CHR ''+'' then Some 62
      else if c = CHR ''/'' then Some 63
      else None)"

fun b64_encode :: "bool \<Rightarrow> bool \<Rightarrow> nat list \<Rightarrow> gostring" where
  "b64_encode url pad [] = []"
| "b64_encode url pad [a] =
     [b64_char url (a div 4), b64_char url ((a mod 4) * 16)]
     @ (if pad then ''=='' else [])"
| "b64_encode url pad [a, b] =
     [b64_char url (a div 4), b64_char url ((a mod 4) * 16 + b div 16),
      b64_char url ((b mod 16) * 4)]
     @ (if pad then ''='' else [])"
| "b64_encode url pad (a # b # c # r) =
     [b64_char url (a div 4), b64_char url ((a mod 4) * 16 + b div 16),
      b64_char url ((b mod 16) * 4 + c div 64), b64_char url (c mod 64)]
     @ b64_encode url pad r"

definition StdEncodeToString :: "byte list \<Rightarrow> gostring" where
  "StdEncodeToString bs = b64_encode False True (map unat bs)"

definition RawURLEncodeToString :: "byte list \<Rightarrow> gostring" where
  "RawURLEncodeToString bs = b64_encode True False (map unat bs)"

fun b64_groups :: "gostring \<Rightarrow> nat list option" where
  "b64_groups [] = Some []"
| "b64_groups (p # q # r # s # t) =
     (case (b64_val p, b64_val q) of
        (Some x, Some y) \<Rightarrow>
          (case b64_val r of
             Some z \<Rightarrow>
               (case b64_val s of
                  Some w \<Rightarrow>
                    map_option (\<lambda>l. (x * 4 + y div 16) # ((y mod 16) * 16 + z div 4)
                                      # ((z mod 4) * 64 + w) # l) (b64_groups t)
                | None \<Rightarrow>
                    if s = CHR ''='' \<and> t = [] then
                      Some [x * 4 + y div 16, (y mod 16) * 16 + z div 4]
                    else None)
           | None \<Rightarrow>
               if r = CHR ''='' \<and> s = CHR ''='' \<and> t = [] then Some [x * 4 + y div 16] else None)
      | _ \<Rightarrow> None)"
| "b64_groups _ = None"

definition is_newline :: "char \<Rightarrow> bool" where
  "is_newline c = (c = CHR 0x0A \<or> c = CHR 0x0D)"

definition StdDecodeString :: "gostring \<Rightarrow> byte list option" where
  "StdDecodeString s =
     map_option (map word_of_nat) (b64_groups (filter (\<lambda>c. \<not> is_newline c) s))"

lemma b64_val_char: "n < 64 \<Longrightarrow> b64_val (b64_char False n) = Some n"
  by (auto simp: b64_val_def b64_char_def Let_def split: if_splits)

lemma b64_val_pad [simp]: "b64_val CHR ''='' = None"
  by (simp add: b64_val_def)

lemma b64_char_not_newline [simp]: "n < 64 \<Longrightarrow> \<not> is_newline (b64_char url n)"
proof -
  assume "n < 64"
  then have "code_of (b64_char url n) > 13"
    by (auto simp: b64_char_def)
  then show ?thesis by (auto simp: is_newline_def)
qed

lemma b64_encode_no_newline:
  "\<forall>b \<in> set bs. b < 256 \<Longrightarrow> filter (\<lambda>c. \<not> is_newline c) (b64_encode url pad bs) = b64_encode url pad bs"
proof (induction url pad bs rule: b64_encode.induct)
  case (4 url pad a b c r)
  then have "(a mod 4) * 16 + b div 16 < 64" "(b mod 16) * 4 + c div 64 < 64" "a div 4 < 64"
    by auto
  with 4 show ?case by simp
next
  case (3 url pad a b)
  then have "(a mod 4) * 16 + b div 16 < 64" "(b mod 16) * 4 < 64" "a div 4 < 64"
    by auto
  then show ?case by (simp add: is_newline_def [of "CHR ''=''"])
next
  case (2 url pad a)
  then have "(a mod 4) * 16 < 64" "a div 4 < 64"
    by auto
  then show ?case by (simp add: is_newline_def [of "CHR ''=''"])
qed simp

lemma b64_groups_encode:
  "\<forall>b \<in> set bs. b < 256 \<Longrightarrow> b64_groups (b64_encode False True bs) = Some bs"
proof (induction False True bs rule: b64_encode.induct)
  case (4 a b c r)
  then have lt: "a < 256" "b < 256" "c < 256" and IH: "b64_groups (b64_encode False True r) = Some r"
    by auto
  then have vals: "b64_val (b64_char False (a div 4)) = Some (a div 4)"
    "b64_val (b64_char False ((a mod 4) * 16 + b div 16)) = Some ((a mod 4) * 16 + b div 16)"
    "b64_val (b64_char False ((b mod 16) * 4 + c div 64)) = Some ((b mod 16) * 4 + c div 64)"
    "b64_val (b64_char False (c mod 64)) = Some (c mod 64)"
    by (auto intro!: b64_val_char)
  have "(a div 4) * 4 + ((a mod 4) * 16 + b div 16) div 16 = a"
    "(((a mod 4) * 16 + b div 16) mod 16) * 16 + ((b mod 16) * 4 + c div 64) div 4 = b"
    "(((b mod 16) * 4 + c div 64) mod 4) * 64 + c mod 64 = c"
    using lt by auto
  then show ?case by (simp add: vals IH del: mod_mult_self1 mod_mult_self2 div_mult_self1)
next
  case (3 a b)
  then have lt: "a < 256" "b < 256" by auto
  then have vals: "b64_val (b64_char False (a div 4)) = Some (a div 4)"
    "b64_val (b64_char False ((a mod 4) * 16 + b div 16)) = Some ((a mod 4) * 16 + b div 16)"
    "b64_val (b64_char False ((b mod 16) * 4)) = Some ((b mod 16) * 4)"
    by (auto intro!: b64_val_char)
  have "(a div 4) * 4 + ((a mod 4) * 16 + b div 16) div 16 = a"
    "(((a mod 4) * 16 + b div 16) mod 16) * 16 + ((b mod 16) * 4) div 4 = b"
    using lt by auto
  then show ?case by (simp add: vals)
next
  case (2 a)
  then have lt: "a < 256" by auto
  then have vals: "b64_val (b64_char False (a div 4)) = Some (a div 4)"
    "b64_val (b64_char False ((a mod 4) * 16)) = Some ((a mod 4) * 16)"
    by (auto intro!: b64_val_char)
  then show ?case by simp
qed simp

lemma map_unat_bytes [simp]: "\<forall>n \<in> set (map unat (bs :: byte list)). n < 256"
  by auto

lemma StdDecode_Encode: "StdDecodeString (StdEncodeToString bs) = Some bs"
  by (simp add: StdDecodeString_def StdEncodeToString_def b64_encode_no_newline
      b64_groups_encode comp_def)

end
