(* ===== verification/Go_Text.thy ===== *)
theory Go_Text
  imports Go_Encoding
begin

text \<open>
  \<open>unicode/utf8\<close> and the functions of \<open>strings\<close> that work on runes: a string is cut into
  the chunks of bytes a \<open>for range\<close> loop visits, an invalid byte being a chunk of its own.
  \<open>ValidString\<close>, \<open>Fields\<close> and \<open>TrimSpace\<close> are defined on these chunks.
\<close>

section \<open>unicode/utf8\<close>

definition cont_byte :: "char \<Rightarrow> bool" where
  "cont_byte c = (128 \<le> code_of c \<and> code_of c \<le> 191)"

definition in_range :: "nat \<Rightarrow> nat \<Rightarrow> char \<Rightarrow> bool" where
  "in_range lo hi c = (lo \<le> code_of c \<and> code_of c \<le> hi)"

text \<open>Width of the well-formed rune at the head of a string, if there is one.\<close>

definition rune_width :: "gostring \<Rightarrow> nat option" where
  "rune_width s =
     (case s of
        [] \<Rightarrow> None
      | a # s1 \<Rightarrow>
          if code_of a < 128 then Some 1
          else (case s1 of
            [] \<Rightarrow> None
          | b # s2 \<Rightarrow>
              if in_range 194 223 a then (if cont_byte b then Some 2 else None)
              else (case s2 of
                [] \<Rightarrow> None
              | c # s3 \<Rightarrow>
                  if in_range 224 239 a then
                    (if cont_byte c \<and>
                        (if code_of a = 224 then in_range 160 191 b
                         else if code_of a = 237 then in_range 128 159 b
                         else cont_byte b)
                     then Some 3 else None)
                  else (case s3 of
                    [] \<Rightarrow> None
                  | d # _ \<Rightarrow>
                      if in_range 240 244 a \<and> cont_byte c \<and> cont_byte d \<and>
                         (if code_of a = 240 then in_range 144 191 b
                          else if code_of a = 244 then in_range 128 143 b
                          else cont_byte b)
                      then Some 4 else None))))"

lemma rune_width_bounds: "rune_width s = Some w \<Longrightarrow> 0 < w \<and> w \<le> length s"
  by (auto simp: rune_width_def split: list.splits if_splits)

function runes :: "gostring \<Rightarrow> gostring list" where
  "runes [] = []"
| "runes (c # s) =
     (case rune_width (c # s) of
        Some w \<Rightarrow> take w (c # s) # runes (drop w (c # s))
      | None \<Rightarrow> [c] # runes s)"
  by pat_completeness auto
termination
  by (relation "measure length") (auto dest: rune_width_bounds)

function ValidString :: "gostring \<Rightarrow> bool" where
  "ValidString [] = True"
| "ValidString (c # s) =
     (case rune_width (c # s) of
        Some w \<Rightarrow> ValidString (drop w (c # s))
      | None \<Rightarrow> False)"
  by pat_completeness auto
termination
  by (relation "measure length") (auto dest: rune_width_bounds)

lemma concat_runes: "concat (runes s) = s"
  by (induction s rule: runes.induct) (auto split: option.splits)

definition is_ascii :: "gostring \<Rightarrow> bool" where
  "is_ascii s = (\<forall>c \<in> set s. code_of c < 128)"

lemma is_ascii_simps [simp]:
  "is_ascii []" "is_ascii (c # s) \<longleftrightarrow> code_of c < 128 \<and> is_ascii s"
  "is_ascii (s @ t) \<longleftrightarrow> is_ascii s \<and> is_ascii t"
  by (auto simp: is_ascii_def)

lemma rune_width_ascii: "code_of c < 128 \<Longrightarrow> rune_width (c # s) = Some 1"
  by (simp add: rune_width_def)

lemma runes_ascii: "is_ascii s \<Longrightarrow> runes s = map (\<lambda>c. [c]) s"
  by (induction s) (auto simp: rune_width_ascii)

lemma ValidString_ascii: "is_ascii s \<Longrightarrow> ValidString s"
  by (induction s) (auto simp: rune_width_ascii)

text \<open>An ASCII byte is never part of a longer rune.\<close>

lemma rune_take_high:
  assumes "rune_width s = Some w" "w \<noteq> 1" "c \<in> set (take w s)"
  shows "128 \<le> code_of c"
  using assms
  by (auto simp: rune_width_def in_range_def cont_byte_def
      split: list.splits if_splits)

lemma runes_ascii_chunk:
  "r \<in> set (runes s) \<Longrightarrow> c \<in> set r \<Longrightarrow> code_of c < 128 \<Longrightarrow> r = [c]"
proof (induction s rule: runes.induct)
  case (2 d s)
  show ?case
  proof (cases "rune_width (d # s)")
    case None
    with 2 show ?thesis by auto
  next
    case (Some w)
    show ?thesis
    proof (cases "r = take w (d # s)")
      case True
      with Some 2 rune_take_high [OF Some, of c] have "w = 1" by fastforce
      with True 2 show ?thesis by simp
    next
      case False
      with Some 2 show ?thesis by auto
    qed
  qed
qed simp

section \<open>strings.Fields and strings.TrimSpace\<close>

text \<open>The encodings of the runes with the Unicode property \<open>White_Space\<close>.\<close>

definition bytes3 :: "nat \<Rightarrow> nat \<Rightarrow> nat \<Rightarrow> gostring" where
  "bytes3 a b c = [char_of a, char_of b, char_of c]"

definition space_rune :: "gostring \<Rightarrow> bool" where
  "space_rune r =
     (r \<in> {[CHR 0x09], [CHR 0x0A], [CHR 0x0B], [CHR 0x0C], [CHR 0x0D], [CHR 0x20],
            [CHR 0xC2, CHR 0x85], [CHR 0xC2, CHR 0xA0], bytes3 225 154 128,
            bytes3 226 128 168, bytes3 226 128 169, bytes3 226 128 175,
            bytes3 226 129 159, bytes3 227 128 128} \<or>
      (\<exists>n \<in> set [128..<139]. r = bytes3 226 128 n))"

fun group_fields :: "gostring list \<Rightarrow> gostring \<Rightarrow> gostring list" where
  "group_fields [] cur = (if cur = [] then [] else [cur])"
| "group_fields (r # rs) cur =
     (if space_rune r then (if cur = [] then [] else [cur]) @ group_fields rs []
      else group_fields rs (cur @ r))"

definition Fields :: "gostring \<Rightarrow> gostring list" where
  "Fields s = group_fields (runes s) []"

definition TrimSpace :: "gostring \<Rightarrow> gostring" where
  "TrimSpace s =
     concat (rev (dropWhile space_rune (rev (dropWhile space_rune (runes s)))))"

definition ascii_space :: "char \<Rightarrow> bool" where
  "ascii_space c = (code_of c \<in> {9, 10, 11, 12, 13, 32})"

lemma space_rune_ascii: "ascii_space c \<longleftrightarrow> code_of c < 128 \<and> space_rune [c]"
proof -
  have "space_rune [c] \<longleftrightarrow>
      c \<in> {CHR 0x09, CHR 0x0A, CHR 0x0B, CHR 0x0C, CHR 0x0D, CHR 0x20}"
    by (auto simp: space_rune_def bytes3_def)
  also have "\<dots> \<longleftrightarrow> code_of c \<in> {code_of CHR 0x09, code_of CHR 0x0A, code_of CHR 0x0B,
      code_of CHR 0x0C, code_of CHR 0x0D, code_of CHR 0x20}"
    unfolding insert_iff of_char_eq_iff by simp
  also have "\<dots> \<longleftrightarrow> ascii_space c"
    by (simp add: ascii_space_def)
  finally show ?thesis by (auto simp: ascii_space_def)
qed

lemma group_fields_mem:
  assumes "f \<in> set (group_fields rs cur)" "x \<in> set f"
  shows "x \<in> set cur \<or> (\<exists>r \<in> set rs. \<not> space_rune r \<and> x \<in> set r)"
  using assms
proof (induction rs arbitrary: cur)
  case (Cons r rs)
  then show ?case by (fastforce split: if_splits)
qed (auto split: if_splits)

lemma Fields_no_space: "f \<in> set (Fields s) \<Longrightarrow> x \<in> set f \<Longrightarrow> \<not> ascii_space x"
  using group_fields_mem [of f "runes s" "[]" x] runes_ascii_chunk [of _ s x]
  by (auto simp: Fields_def space_rune_ascii)

lemma group_fields_nonempty: "f \<in> set (group_fields rs cur) \<Longrightarrow> \<forall>r \<in> set rs. r \<noteq> [] \<Longrightarrow> f \<noteq> []"
  by (induction rs arbitrary: cur) (auto split: if_splits)

lemma group_fields_plain:
  "\<forall>r \<in> set rs. \<not> space_rune r \<Longrightarrow>
   group_fields rs cur = (if cur @ concat rs = [] then [] else [cur @ concat rs])"
  by (induction rs arbitrary: cur) auto

text \<open>A value without white space is one field.\<close>

lemma Fields_plain:
  assumes "is_ascii s" "\<And>c. c \<in> set s \<Longrightarrow> \<not> ascii_space c" "s \<noteq> []"
  shows "Fields s = [s]"
proof -
  have "\<forall>r \<in> set (runes s). \<not> space_rune r"
    using assms by (auto simp: runes_ascii space_rune_ascii is_ascii_def)
  then show ?thesis
    using assms(3) by (simp add: Fields_def group_fields_plain concat_runes)
qed

text \<open>Evaluation takes the short way on texts of visible ASCII characters.\<close>

definition visible :: "gostring \<Rightarrow> bool" where
  "visible s = list_all (\<lambda>c. 32 < code_of c \<and> code_of c < 128) s"

lemma visible_space: "visible s \<Longrightarrow> is_ascii s \<and> (\<forall>c \<in> set s. \<not> ascii_space c)"
  by (auto simp: visible_def list_all_iff is_ascii_def ascii_space_def)

lemma visible_runes: "visible s \<Longrightarrow> r \<in> set (runes s) \<Longrightarrow> \<not> space_rune r"
  using visible_space [of s] by (auto simp: runes_ascii space_rune_ascii is_ascii_def)

lemma Fields_code [code]:
  "Fields s = (if s \<noteq> [] \<and> visible s then [s] else group_fields (runes s) [])"
  using Fields_plain [of s] visible_space [of s] by (auto simp: Fields_def)

lemma TrimSpace_visible: "visible s \<Longrightarrow> TrimSpace s = s"
proof -
  assume v: "visible s"
  have keep: "dropWhile space_rune rs = rs" if "set rs \<subseteq> set (runes s)" for rs
    using that visible_runes [OF v] by (cases rs) auto
  have "dropWhile space_rune (runes s) = runes s"
    "dropWhile space_rune (rev (runes s)) = rev (runes s)"
    by (simp_all add: keep)
  then show ?thesis
    by (simp add: TrimSpace_def concat_runes)
qed

lemma TrimSpace_code [code]:
  "TrimSpace s =
     (if visible s then s
      else concat (rev (dropWhile space_rune (rev (dropWhile space_rune (runes s))))))"
  using TrimSpace_visible [of s] by (simp add: TrimSpace_def)

end
