(* ===== verification/Http_Json.thy ===== *)
theory Http_Json
  imports Go_Text Go_Encoding
begin

text \<open>
  JSON as the handlers see it.  A request body is what the decoder makes of it: nothing
  (\<open>io.EOF\<close>), something that is not JSON or is over the size bound of \<open>MaxBytesReader\<close>, or one
  value.  Decoding a value into a struct follows \<open>encoding/json\<close>: a member sets the field of
  that name, or else one whose name matches ignoring case; unknown members are skipped; a null
  leaves scalars alone and clears pointers, maps and slices; a member of the wrong type is
  remembered by the name of the first such field, and decoding goes on.
\<close>

datatype json =
    JNull | JBool bool | JNum gostring | JStr gostring
  | JArr "json list" | JObj "(gostring \<times> json) list"

datatype json_body = JsonEOF | JsonBad | JsonValue json

definition jint :: "int \<Rightarrow> json" where
  "jint i = JNum (FormatInt i)"

text \<open>A string map encodes with its keys sorted.\<close>

definition jmap :: "(gostring, gostring) gomap \<Rightarrow> json" where
  "jmap m = JObj (map (\<lambda>(k, v). (k, JStr v)) (sort_key fst m))"

section \<open>Field names\<close>

text \<open>Two runes outside ASCII fold to letters: the long s and the Kelvin sign.\<close>

definition fold_rune :: "gostring \<Rightarrow> gostring" where
  "fold_rune r =
     (if r = [CHR 0xC5, CHR 0xBF] then ''s''
      else if r = bytes3 226 132 170 then ''k'' else ToLower r)"

definition foldName :: "gostring \<Rightarrow> gostring" where
  "foldName s = concat (map fold_rune (runes s))"

section \<open>Decoding into fields\<close>

text \<open>A decoder takes what the field holds and answers what it holds then and whether the type fits.\<close>

fun dec_bool :: "json \<Rightarrow> bool \<Rightarrow> bool \<times> bool" where
  "dec_bool (JBool b) old = (b, True)"
| "dec_bool JNull old = (old, True)"
| "dec_bool _ old = (old, False)"

fun dec_string :: "json \<Rightarrow> gostring \<Rightarrow> gostring \<times> bool" where
  "dec_string (JStr s) old = (s, True)"
| "dec_string JNull old = (old, True)"
| "dec_string _ old = (old, False)"

fun dec_int :: "json \<Rightarrow> int \<Rightarrow> int \<times> bool" where
  "dec_int (JNum n) old = (case ParseInt n of Some i \<Rightarrow> (i, True) | None \<Rightarrow> (old, False))"
| "dec_int JNull old = (old, True)"
| "dec_int _ old = (old, False)"

text \<open>A pointer field: null clears it, anything else goes to the value it points to or to a new one.\<close>

definition dec_ptr :: "'a \<Rightarrow> (json \<Rightarrow> 'a \<Rightarrow> 'a \<times> bool) \<Rightarrow> json \<Rightarrow> 'a option \<Rightarrow> 'a option \<times> bool" where
  "dec_ptr zero dec j old =
     (if j = JNull then (None, True)
      else case dec j (case old of None \<Rightarrow> zero | Some x \<Rightarrow> x) of (x, ok) \<Rightarrow> (Some x, ok))"

fun dec_entries :: "(gostring \<times> json) list \<Rightarrow> (gostring, gostring) gomap \<Rightarrow> (gostring, gostring) gomap \<times> bool" where
  "dec_entries [] m = (m, True)"
| "dec_entries ((k, v) # es) m =
     (case dec_string v [] of (s, ok) \<Rightarrow>
        (case dec_entries es (if ok then map_put m k s else m) of (m', ok') \<Rightarrow> (m', ok \<and> ok')))"

text \<open>The empty list stands for the nil map: no handler tells them apart.\<close>

fun dec_map :: "json \<Rightarrow> (gostring, gostring) gomap \<Rightarrow> (gostring, gostring) gomap \<times> bool" where
  "dec_map (JObj es) old = dec_entries es old"
| "dec_map JNull old = ([], True)"
| "dec_map _ old = (old, False)"

fun dec_elems :: "json list \<Rightarrow> gostring list \<Rightarrow> gostring list \<times> bool" where
  "dec_elems [] old = ([], True)"
| "dec_elems (j # js) old =
     (case dec_string j (case old of [] \<Rightarrow> [] | x # _ \<Rightarrow> x) of (s, ok) \<Rightarrow>
        (case dec_elems js (drop 1 old) of (ss, ok') \<Rightarrow> (s # ss, ok \<and> ok')))"

text \<open>A slice of strings; \<open>None\<close> is nil.\<close>

fun dec_slice :: "json \<Rightarrow> gostring list option \<Rightarrow> gostring list option \<times> bool" where
  "dec_slice (JArr js) old =
     (case dec_elems js (case old of None \<Rightarrow> [] | Some l \<Rightarrow> l) of (ss, ok) \<Rightarrow> (Some ss, ok))"
| "dec_slice JNull old = (None, True)"
| "dec_slice _ old = (old, False)"

section \<open>Decoding into structs\<close>

type_synonym 'r fields = "(gostring \<times> (json \<Rightarrow> 'r \<Rightarrow> 'r \<times> bool)) list"

definition find_field :: "'r fields \<Rightarrow> gostring \<Rightarrow> (gostring \<times> (json \<Rightarrow> 'r \<Rightarrow> 'r \<times> bool)) option" where
  "find_field fs name =
     (case filter (\<lambda>(n, d). n = name) fs of
        f # _ \<Rightarrow> Some f
      | [] \<Rightarrow> (case filter (\<lambda>(n, d). foldName n = foldName name) fs of f # _ \<Rightarrow> Some f | [] \<Rightarrow> None))"

text \<open>The struct decoded so far and the field of the first type error.\<close>

fun dec_members :: "'r fields \<Rightarrow> (gostring \<times> json) list \<Rightarrow> 'r \<Rightarrow> gostring option \<Rightarrow> 'r \<times> gostring option" where
  "dec_members fs [] r bad = (r, bad)"
| "dec_members fs ((k, v) # es) r bad =
     (case find_field fs k of
        None \<Rightarrow> dec_members fs es r bad
      | Some (n, d) \<Rightarrow>
          (case d v r of (r', ok) \<Rightarrow>
             dec_members fs es r' (if bad = None \<and> \<not> ok then Some n else bad)))"

text \<open>
  \<open>json.NewDecoder(...).Decode(&body)\<close> with the handlers' treatment of its error: an empty body
  counts as the zero struct; a syntax error carries no field name, a type error its field's.
\<close>

datatype 'r decoded = Decoded 'r | DecodeSyntax | DecodeType gostring

definition decode_body :: "'r fields \<Rightarrow> 'r \<Rightarrow> json_body \<Rightarrow> 'r decoded" where
  "decode_body fs zero b =
     (case b of
        JsonEOF \<Rightarrow> Decoded zero
      | JsonBad \<Rightarrow> DecodeSyntax
      | JsonValue (JObj es) \<Rightarrow>
          (case dec_members fs es zero None of
             (r, None) \<Rightarrow> Decoded r | (r, Some n) \<Rightarrow> DecodeType n)
      | JsonValue JNull \<Rightarrow> Decoded zero
      | JsonValue _ \<Rightarrow> DecodeType [])"

text \<open>Sets one field of the struct through its decoder.\<close>

definition field :: "(json \<Rightarrow> 'a \<Rightarrow> 'a \<times> bool) \<Rightarrow> ('r \<Rightarrow> 'a) \<Rightarrow> (('a \<Rightarrow> 'a) \<Rightarrow> 'r \<Rightarrow> 'r) \<Rightarrow> json \<Rightarrow> 'r \<Rightarrow> 'r \<times> bool" where
  "field dec get upd j r = (case dec j (get r) of (x, ok) \<Rightarrow> (upd (\<lambda>_. x) r, ok))"


end
