(* ===== verification/Go_Url.thy ===== *)
theory Go_Url
  imports Go_Encoding
begin

text \<open>
  The part of \<open>net/url\<close> the program uses on paths and queries: \<open>url.Values\<close> as a Go map
  from names to value lists, \<open>PathUnescape\<close>, \<open>QueryUnescape\<close> and \<open>URL.Query\<close>.
\<close>

section \<open>url.Values\<close>

type_synonym url_values = "(gostring, gostring list) gomap"

definition Values_Get :: "url_values \<Rightarrow> gostring \<Rightarrow> gostring" where
  "Values_Get q name =
     (case map_of q name of Some (v # _) \<Rightarrow> v | _ \<Rightarrow> [])"

definition Values_Has :: "url_values \<Rightarrow> gostring \<Rightarrow> bool" where
  "Values_Has q name = (map_of q name \<noteq> None)"

definition Values_Set :: "url_values \<Rightarrow> gostring \<Rightarrow> gostring \<Rightarrow> url_values" where
  "Values_Set q name v = map_put q name [v]"

definition Values_Add :: "url_values \<Rightarrow> gostring \<Rightarrow> gostring \<Rightarrow> url_values" where
  "Values_Add q name v =
     map_put q name ((case map_of q name of None \<Rightarrow> [] | Some vs \<Rightarrow> vs) @ [v])"

definition Values_Del :: "url_values \<Rightarrow> gostring \<Rightarrow> url_values" where
  "Values_Del q name = map_del q name"

lemma is_map_Values [simp]:
  "is_map q \<Longrightarrow> is_map (Values_Set q n v)"
  "is_map q \<Longrightarrow> is_map (Values_Add q n v)"
  "is_map q \<Longrightarrow> is_map (Values_Del q n)"
  by (simp_all add: Values_Set_def Values_Add_def Values_Del_def)

section \<open>Percent-decoding\<close>

definition unhex :: "char \<Rightarrow> nat option" where
  "unhex c =
     (let n = code_of c in
      if 48 \<le> n \<and> n \<le> 57 then Some (n - 48)
      else if 97 \<le> n \<and> n \<le> 102 then Some (n - 87)
      else if 65 \<le> n \<and> n \<le> 70 then Some (n - 55)
      else None)"

fun unescape :: "bool \<Rightarrow> gostring \<Rightarrow> gostring option" where
  "unescape pl [] = Some []"
| "unescape pl (c # s) =
     (if c = CHR ''%'' then
        (case s of
           a # b # t \<Rightarrow>
             (case (unhex a, unhex b) of
                (Some x, Some y) \<Rightarrow> map_option (\<lambda>u. char_of (16 * x + y) # u) (unescape pl t)
              | _ \<Rightarrow> None)
         | _ \<Rightarrow> None)
      else if pl \<and> c = CHR ''+'' then map_option (\<lambda>u. CHR '' '' # u) (unescape pl s)
      else map_option (\<lambda>u. c # u) (unescape pl s))"

definition PathUnescape :: "gostring \<Rightarrow> gostring option" where
  "PathUnescape s = unescape False s"

definition QueryUnescape :: "gostring \<Rightarrow> gostring option" where
  "QueryUnescape s = unescape True s"

text \<open>
  \<open>URL.Query\<close>: pairs that hold a semicolon or that fail to decode are dropped, the others
  are added in order.
\<close>

fun query_pairs :: "gostring list \<Rightarrow> url_values \<Rightarrow> url_values" where
  "query_pairs [] q = q"
| "query_pairs (p # ps) q =
     (if CHR '';'' \<in> set p \<or> p = [] then query_pairs ps q
      else (case Cut p CHR ''='' of (n, v, _) \<Rightarrow>
        (case (QueryUnescape n, QueryUnescape v) of
           (Some n', Some v') \<Rightarrow> query_pairs ps (Values_Add q n' v')
         | _ \<Rightarrow> query_pairs ps q)))"

definition URL_Query :: "gostring \<Rightarrow> url_values" where
  "URL_Query raw = query_pairs (split_on CHR ''&'' raw) []"

lemma is_map_query_pairs: "is_map q \<Longrightarrow> is_map (query_pairs ps q)"
  by (induction ps q rule: query_pairs.induct) (auto split: prod.splits option.splits)

lemma unescape_plain:
  "CHR ''%'' \<notin> set s \<Longrightarrow> CHR ''+'' \<notin> set s \<Longrightarrow> unescape pl s = Some s"
  by (induction s) auto

end
