(* ===== verification/Sig_Checksum.thy ===== *)
theory Sig_Checksum
  imports Go_Encoding
begin

text \<open>
  CRC32C: the register and table of \<open>hash/crc32\<close> with the Castagnoli polynomial, the wire form
  of \<open>sig/checksum.go\<close> and the GF(2) combination of \<open>sig/combine.go\<close>, which the upload handler
  uses to fold part checksums into the checksum of the whole object.
\<close>

section \<open>hash/crc32\<close>

definition crc32cPoly :: "32 word" where
  "crc32cPoly = 0x82f63b78"

text \<open>One zero bit shifted through the reflected register.\<close>

definition crc_bit :: "32 word \<Rightarrow> 32 word" where
  "crc_bit v = (if bit v 0 then drop_bit 1 v XOR crc32cPoly else drop_bit 1 v)"

text \<open>\<open>crc32.MakeTable(crc32.Castagnoli)\<close>: entry \<open>i\<close> is \<open>i\<close> shifted by eight bits.\<close>

definition crc32Table :: "32 word list" where
  "crc32Table = map (\<lambda>i. (crc_bit ^^ 8) (word_of_nat i)) [0..<256]"

text \<open>\<open>crc32.simpleUpdate\<close>, the loop over the bytes; \<open>Sum32\<close> of a hasher after the writes.\<close>

fun table_update :: "32 word \<Rightarrow> byte list \<Rightarrow> 32 word" where
  "table_update r [] = r"
| "table_update r (b # bs) =
     table_update (crc32Table ! unat (ucast r XOR b) XOR drop_bit 8 r) bs"

definition crc32c :: "byte list \<Rightarrow> 32 word" where
  "crc32c bs = NOT (table_update (NOT 0) bs)"

section \<open>Linear maps on the register\<close>

definition linear32 :: "(32 word \<Rightarrow> 32 word) \<Rightarrow> bool" where
  "linear32 f \<longleftrightarrow> (\<forall>a b. f (a XOR b) = f a XOR f b)"

lemma linear32_xor: "linear32 f \<Longrightarrow> f (a XOR b) = f a XOR f b"
  by (simp add: linear32_def)

lemma linear32_0 [simp]: "linear32 f \<Longrightarrow> f 0 = 0"
  using linear32_xor [of f 0 0] by simp

lemma drop_bit_word_xor: "drop_bit n (a XOR b) = drop_bit n a XOR drop_bit n (b :: 32 word)"
  by (rule drop_bit_xor)

lemma linear32_crc_bit: "linear32 crc_bit"
  unfolding linear32_def crc_bit_def
  by (auto simp: drop_bit_word_xor bit_xor_iff ac_simps)

lemma linear32_comp: "linear32 f \<Longrightarrow> linear32 g \<Longrightarrow> linear32 (f \<circ> g)"
  by (simp add: linear32_def)

lemma linear32_funpow: "linear32 f \<Longrightarrow> linear32 (f ^^ n)"
  by (induction n) (simp_all add: linear32_def)

lemma crc_bit_shift:
  fixes v :: "32 word"
  assumes "take_bit n v = 0"
  shows "(crc_bit ^^ n) v = drop_bit n v"
  using assms
proof (induction n arbitrary: v)
  case (Suc n)
  have clear: "\<not> bit v 0"
    using Suc.prems bit_take_bit_iff [of "Suc n" v 0] by simp
  have "take_bit n (drop_bit 1 v) = drop_bit 1 (take_bit (Suc n) v)"
    by (simp add: take_bit_drop_bit)
  then have "(crc_bit ^^ n) (drop_bit 1 v) = drop_bit n (drop_bit 1 v)"
    using Suc by simp
  moreover have "crc_bit v = drop_bit 1 v"
    using clear by (simp add: crc_bit_def)
  ultimately show ?case
    by (simp only: funpow_Suc_right comp_apply) simp
qed simp

text \<open>The table step is eight single-bit steps on the register with the byte mixed in.\<close>

lemma table_step:
  "crc32Table ! unat (ucast r XOR b) XOR drop_bit 8 r = (crc_bit ^^ 8) (r XOR ucast b)"
  for r :: "32 word" and b :: byte
proof -
  let ?lo = "take_bit 8 r XOR ucast b" and ?hi = "push_bit 8 (drop_bit 8 r)"
  have split: "r XOR ucast b = ?lo XOR ?hi"
    by (rule bit_word_eqI) (auto simp: bit_xor_iff bit_take_bit_iff bit_push_bit_iff bit_drop_bit_eq
        bit_ucast_iff)
  have lo: "ucast (ucast r XOR b) = ?lo"
    by (rule bit_word_eqI) (auto simp: bit_xor_iff bit_take_bit_iff bit_ucast_iff)
  have "take_bit 8 ?hi = 0"
    by (rule bit_word_eqI) (auto simp: bit_take_bit_iff bit_push_bit_iff)
  then have hi: "(crc_bit ^^ 8) ?hi = drop_bit 8 r"
    by (simp add: crc_bit_shift)
      (rule bit_word_eqI, use bit_imp_le_length [of r] in \<open>fastforce simp: bit_push_bit_iff bit_drop_bit_eq\<close>)
  have "(crc_bit ^^ 8) (r XOR ucast b) = (crc_bit ^^ 8) ?lo XOR (crc_bit ^^ 8) ?hi"
    unfolding split by (rule linear32_xor [OF linear32_funpow [OF linear32_crc_bit]])
  then show ?thesis
    using hi by (simp add: crc32Table_def lo)
qed

text \<open>The register run bit by bit.\<close>

fun crc_run :: "32 word \<Rightarrow> byte list \<Rightarrow> 32 word" where
  "crc_run r [] = r"
| "crc_run r (b # bs) = crc_run ((crc_bit ^^ 8) (r XOR ucast b)) bs"

lemma table_update_run: "table_update r bs = crc_run r bs"
  by (induction bs arbitrary: r) (simp_all add: table_step)

lemma crc_run_append: "crc_run r (xs @ ys) = crc_run (crc_run r xs) ys"
  by (induction xs arbitrary: r) simp_all

lemma crc_run_xor: "crc_run (r XOR s) bs = (crc_bit ^^ (8 * length bs)) r XOR crc_run s bs"
proof (induction bs arbitrary: r s)
  case (Cons b bs)
  have "(crc_bit ^^ 8) ((r XOR s) XOR ucast b) = (crc_bit ^^ 8) r XOR (crc_bit ^^ 8) (s XOR ucast b)"
    by (simp only: xor.assoc linear32_xor [OF linear32_funpow [OF linear32_crc_bit]])
  moreover have "(crc_bit ^^ (8 * length bs)) ((crc_bit ^^ 8) r) = (crc_bit ^^ (8 * length (b # bs))) r"
    by (simp add: add.commute [of 8] funpow_add)
  ultimately show ?case
    by (simp only: crc_run.simps Cons.IH)
qed simp

lemma crc32c_append:
  "crc32c (xs @ ys) = (crc_bit ^^ (8 * length ys)) (crc32c xs) XOR crc32c ys"
proof -
  have "crc_run (crc_run (NOT 0) xs) ys = crc_run (crc32c xs XOR NOT 0) ys"
    by (simp add: crc32c_def table_update_run)
  also have "\<dots> = (crc_bit ^^ (8 * length ys)) (crc32c xs) XOR crc_run (NOT 0) ys"
    by (rule crc_run_xor)
  finally show ?thesis
    unfolding crc32c_def [of "xs @ ys"] crc32c_def [of ys] table_update_run crc_run_append
    by (simp only: bit.xor_compl_right)
qed

section \<open>sig/combine.go\<close>

lemma unat_drop_bit_one: "unat (drop_bit 1 v) = unat v div 2" for v :: "32 word"
  unfolding unat_drop_bit_eq by (simp add: drop_bit_eq_div)

text \<open>
  \<open>gf2Times\<close>: the loop walks the bits of \<open>v\<close> and adds the selected columns.  A matrix is the
  list of its 32 columns.
\<close>

function gf2_loop :: "32 word list \<Rightarrow> nat \<Rightarrow> 32 word \<Rightarrow> 32 word \<Rightarrow> 32 word" where
  "gf2_loop m i v acc =
     (if v = 0 then acc
      else gf2_loop m (i + 1) (drop_bit 1 v) (if v AND 1 \<noteq> 0 then acc XOR m ! i else acc))"
  by pat_completeness auto
termination
proof (relation "measure (\<lambda>(m, i, v, acc). unat v)")
  fix v :: "32 word"
  assume "v \<noteq> 0"
  then have "unat v \<noteq> 0" by (simp add: unat_eq_0)
  then have "unat (drop_bit 1 v) < unat v" by (subst unat_drop_bit_one) simp
  then show "((m, i + 1, drop_bit 1 v, if v AND 1 \<noteq> 0 then acc XOR m ! i else acc), m, i, v, acc)
      \<in> measure (\<lambda>(m, i, v, acc). unat v)" for m i acc
    by simp
qed simp

declare gf2_loop.simps [simp del]

definition gf2Times :: "32 word list \<Rightarrow> 32 word \<Rightarrow> 32 word" where
  "gf2Times m v = gf2_loop m 0 v 0"

definition gf2Square :: "32 word list \<Rightarrow> 32 word list" where
  "gf2Square m = map (\<lambda>n. gf2Times m (m ! n)) [0..<32]"

text \<open>The operator for one zero bit: the polynomial, then a shifted identity.\<close>

fun odd_rows :: "nat \<Rightarrow> 32 word \<Rightarrow> 32 word list" where
  "odd_rows 0 row = []"
| "odd_rows (Suc n) row = row # odd_rows n (push_bit 1 row)"

definition one_bit_operator :: "32 word list" where
  "one_bit_operator = crc32cPoly # odd_rows 31 1"

text \<open>
  The loop of \<open>CombineCRC32C\<close>: each round consumes two bits of the length and squares twice,
  between the two buffers.
\<close>

fun combine_loop :: "32 word list \<Rightarrow> 32 word \<Rightarrow> nat \<Rightarrow> 32 word" where
  "combine_loop odd1 a lenB =
     (let evn = gf2Square odd1;
          a1 = (if lenB mod 2 \<noteq> 0 then gf2Times evn a else a);
          len1 = lenB div 2
      in if len1 = 0 then a1
         else let odd2 = gf2Square evn;
                  a2 = (if len1 mod 2 \<noteq> 0 then gf2Times odd2 a1 else a1);
                  len2 = len1 div 2
              in if len2 = 0 then a2 else combine_loop odd2 a2 len2)"

declare combine_loop.simps [simp del]

definition CombineCRC32C :: "32 word \<Rightarrow> 32 word \<Rightarrow> int \<Rightarrow> 32 word" where
  "CombineCRC32C a b lenB =
     (if lenB \<le> 0 then a
      else combine_loop (gf2Square (gf2Square one_bit_operator)) a (nat lenB) XOR b)"

section \<open>The matrices represent powers of the one-bit shift\<close>

definition represents :: "32 word list \<Rightarrow> (32 word \<Rightarrow> 32 word) \<Rightarrow> bool" where
  "represents m f \<longleftrightarrow> linear32 f \<and> length m = 32 \<and> (\<forall>n < 32. m ! n = f (push_bit n 1))"

lemma low_bits_split: "v = take_bit n v XOR push_bit n (drop_bit n v)" for v :: "32 word"
  by (rule bit_word_eqI) (auto simp: bit_xor_iff bit_take_bit_iff bit_push_bit_iff bit_drop_bit_eq)

lemma low_bit_split: "v = (v AND 1) XOR push_bit 1 (drop_bit 1 v)" for v :: "32 word"
  using low_bits_split [of v 1] by (simp only: take_bit_eq_mask mask_1)

lemma gf2_loop_linear:
  assumes "represents m f" "unat v < 2 ^ (32 - i)" "i \<le> 32"
  shows "gf2_loop m i v acc = acc XOR f (push_bit i v)"
  using assms
proof (induction m i v acc rule: gf2_loop.induct)
  case (1 m i v acc)
  have lin: "linear32 f" using 1(2) by (simp add: represents_def)
  show ?case
  proof (cases "v = 0")
    case True
    with lin show ?thesis by (subst gf2_loop.simps) simp
  next
    case False
    then have "unat v \<noteq> 0" by (simp add: unat_eq_0)
    with 1(3,4) have i: "i < 32"
      by (cases "i = 32") auto
    have half: "unat (drop_bit 1 v) < 2 ^ (32 - (i + 1))"
    proof -
      have "(2 :: nat) ^ (32 - i) = 2 * 2 ^ (32 - (i + 1))"
        using i by (simp flip: power_Suc add: Suc_diff_Suc Suc_diff_le)
      with 1(3) show ?thesis by (simp only: unat_drop_bit_one)
    qed
    let ?acc = "if v AND 1 \<noteq> 0 then acc XOR m ! i else acc"
    have step: "gf2_loop m (i + 1) (drop_bit 1 v) ?acc = ?acc XOR f (push_bit (i + 1) (drop_bit 1 v))"
      using 1(1) [OF False 1(2) half] i by simp
    have low: "?acc = acc XOR f (push_bit i (v AND 1))"
      using 1(2) i lin by (auto simp: represents_def and_one_eq mod_2_eq_odd)
    have "f (push_bit i v) = f (push_bit i (v AND 1) XOR push_bit (i + 1) (drop_bit 1 v))"
      by (subst low_bit_split) (simp add: push_bit_xor del: push_bit_and)
    also have "\<dots> = f (push_bit i (v AND 1)) XOR f (push_bit (i + 1) (drop_bit 1 v))"
      by (rule linear32_xor [OF lin])
    finally show ?thesis
      using step False by (simp only: gf2_loop.simps [of m i v acc] if_False low xor.assoc)
  qed
qed

lemma gf2Times_represents: "represents m f \<Longrightarrow> gf2Times m v = f v"
  using gf2_loop_linear [of m f v 0 0] unsigned_less [of v, where ?'a = nat]
  by (simp add: gf2Times_def)

lemma gf2Square_represents: "represents m f \<Longrightarrow> represents (gf2Square m) (f ^^ 2)"
  by (auto simp: represents_def [of "gf2Square m"] gf2Square_def gf2Times_represents
      linear32_funpow numeral_2_eq_2)
    (auto simp: represents_def linear32_def)

lemma nth_odd_rows: "i < n \<Longrightarrow> odd_rows n row ! i = push_bit i row"
  by (induction n row arbitrary: i rule: odd_rows.induct) (auto simp: nth_Cons split: nat.splits)

lemma length_odd_rows [simp]: "length (odd_rows n row) = n"
  by (induction n row rule: odd_rows.induct) simp_all

lemma one_bit_represents: "represents one_bit_operator crc_bit"
proof -
  have "one_bit_operator ! n = crc_bit (push_bit n 1)" if "n < 32" for n
  proof (cases n)
    case 0
    then show ?thesis by (simp add: one_bit_operator_def crc_bit_def)
  next
    case (Suc k)
    have "\<not> bit (push_bit (Suc k) (1 :: 32 word)) 0"
      by (simp add: bit_push_bit_iff del: push_bit_of_1)
    moreover have "drop_bit 1 (push_bit (Suc k) (1 :: 32 word)) = push_bit k 1"
      using that Suc by (intro bit_word_eqI)
        (auto simp: bit_push_bit_iff bit_drop_bit_eq bit_1_iff simp del: push_bit_of_1 push_bit_Suc)
    ultimately show ?thesis
      using that Suc by (simp add: one_bit_operator_def crc_bit_def nth_odd_rows del: push_bit_of_1)
  qed
  then show ?thesis
    by (simp add: represents_def linear32_crc_bit one_bit_operator_def)
qed

lemma combine_loop_represents:
  "represents m f \<Longrightarrow> 0 < n \<Longrightarrow> combine_loop m a n = (f ^^ (2 * n)) a"
proof (induction m a n arbitrary: f rule: combine_loop.induct)
  case (1 m a n)
  define e o2 where "e = gf2Square m" and "o2 = gf2Square e"
  have e: "represents e (f ^^ 2)" and o2: "represents o2 ((f ^^ 2) ^^ 2)"
    using 1 gf2Square_represents by (auto simp: e_def o2_def)
  define a1 where "a1 = (if n mod 2 \<noteq> 0 then gf2Times e a else a)"
  define a2 where "a2 = (if n div 2 mod 2 \<noteq> 0 then gf2Times o2 a1 else a1)"
  have a1: "a1 = (f ^^ (2 * (n mod 2))) a"
    by (cases "even n") (simp_all add: a1_def gf2Times_represents [OF e] mod_2_eq_odd)
  have four: "(f ^^ 2) ^^ 2 = f ^^ 4" by (simp add: funpow_mult)
  have a2: "a2 = (f ^^ (4 * (n div 2 mod 2))) a1"
    by (cases "even (n div 2)")
      (simp_all add: a2_def gf2Times_represents [OF o2, unfolded four] mod_2_eq_odd)
  have unfold: "combine_loop m a n =
      (if n div 2 = 0 then a1 else if n div 2 div 2 = 0 then a2 else combine_loop o2 a2 (n div 2 div 2))"
    by (subst combine_loop.simps) (simp only: Let_def e_def o2_def a1_def a2_def)
  consider "n div 2 = 0" | "n div 2 \<noteq> 0" "n div 2 div 2 = 0" | "n div 2 \<noteq> 0" "n div 2 div 2 \<noteq> 0"
    by blast
  then show ?case
  proof cases
    case 1
    then have "n mod 2 = n" by auto
    with 1 show ?thesis by (simp add: unfold a1)
  next
    case 2
    then have "2 * n = 4 * (n div 2 mod 2) + 2 * (n mod 2)" by presburger
    then have "(f ^^ (2 * n)) a = a2"
      by (simp only: a1 a2 funpow_add comp_apply)
    with 2 show ?thesis by (simp add: unfold)
  next
    case 3
    have "combine_loop o2 a2 (n div 2 div 2) = (((f ^^ 2) ^^ 2) ^^ (2 * (n div 2 div 2))) a2"
      using "1.IH" [OF refl refl refl _ refl refl refl _ ] 3 o2
      unfolding e_def o2_def a1_def a2_def by simp
    also have "\<dots> = (f ^^ (8 * (n div 2 div 2))) a2"
      by (simp add: funpow_mult)
    finally have "combine_loop m a n =
        (f ^^ (8 * (n div 2 div 2) + (4 * (n div 2 mod 2) + 2 * (n mod 2)))) a"
      using 3 by (simp only: unfold a1 a2 if_False funpow_add comp_apply)
    moreover have "8 * (n div 2 div 2) + (4 * (n div 2 mod 2) + 2 * (n mod 2)) = 2 * n"
      by presburger
    ultimately show ?thesis by simp
  qed
qed

lemma CombineCRC32C_append:
  "CombineCRC32C (crc32c xs) (crc32c ys) (int (length ys)) = crc32c (xs @ ys)"
proof (cases ys)
  case Nil
  then show ?thesis by (simp add: CombineCRC32C_def)
next
  case (Cons y zs)
  have "represents (gf2Square (gf2Square one_bit_operator)) ((crc_bit ^^ 2) ^^ 2)"
    by (intro gf2Square_represents one_bit_represents)
  then have "combine_loop (gf2Square (gf2Square one_bit_operator)) a (length ys)
      = (crc_bit ^^ (8 * length ys)) a" for a
    using Cons by (simp add: combine_loop_represents funpow_mult)
  moreover have "0 < length ys" using Cons by simp
  ultimately show ?thesis
    by (simp only: CombineCRC32C_def crc32c_append nat_int) simp
qed

section \<open>sig/checksum.go: the wire form\<close>

definition checksumPrefix :: gostring where
  "checksumPrefix = ''crc32c=''"

definition PutUint32 :: "32 word \<Rightarrow> byte list" where
  "PutUint32 v = [ucast (drop_bit 24 v), ucast (drop_bit 16 v), ucast (drop_bit 8 v), ucast v]"

definition Uint32 :: "byte list \<Rightarrow> 32 word" where
  "Uint32 b = ucast (b ! 3) OR push_bit 8 (ucast (b ! 2)) OR push_bit 16 (ucast (b ! 1))
     OR push_bit 24 (ucast (b ! 0))"

definition EncodeCRC32C :: "32 word \<Rightarrow> gostring" where
  "EncodeCRC32C crc = checksumPrefix @ StdEncodeToString (PutUint32 crc)"

text \<open>\<open>ParseChecksum\<close>: \<open>None\<close> is \<open>ErrMalformedChecksum\<close>.\<close>

definition ParseChecksum :: "gostring \<Rightarrow> 32 word option" where
  "ParseChecksum s =
     (case CutPrefix s checksumPrefix of
        (rest, ok) \<Rightarrow>
          if \<not> ok then None
          else (case StdDecodeString rest of
                  None \<Rightarrow> None
                | Some b \<Rightarrow> if length b \<noteq> 4 then None else Some (Uint32 b)))"

lemma Uint32_PutUint32: "Uint32 (PutUint32 v) = v"
proof (rule bit_word_eqI)
  fix n
  assume n: "n < LENGTH(32)"
  consider "n < 8" | "8 \<le> n" "n < 16" | "16 \<le> n" "n < 24" | "24 \<le> n" "n < 32"
    using n by fastforce
  then show "bit (Uint32 (PutUint32 v)) n = bit v n"
    by cases (auto simp: Uint32_def PutUint32_def bit_or_iff bit_push_bit_iff bit_ucast_iff
        bit_drop_bit_eq)
qed

lemma length_PutUint32 [simp]: "length (PutUint32 v) = 4"
  by (simp add: PutUint32_def)

lemma ParseChecksum_EncodeCRC32C [simp]: "ParseChecksum (EncodeCRC32C crc) = Some crc"
  by (simp add: ParseChecksum_def EncodeCRC32C_def StdDecode_Encode Uint32_PutUint32)

lemma EncodeCRC32C_inj: "EncodeCRC32C a = EncodeCRC32C b \<longleftrightarrow> a = b"
  by (metis ParseChecksum_EncodeCRC32C option.inject)

section \<open>Folding the parts of an upload\<close>

text \<open>The fold \<open>completeUpload\<close> runs over the checksums of the parts, in part order.\<close>

fun fold_crcs :: "32 word \<Rightarrow> (32 word \<times> int) list \<Rightarrow> 32 word" where
  "fold_crcs acc [] = acc"
| "fold_crcs acc ((crc, len) # ps) = fold_crcs (CombineCRC32C acc crc len) ps"

lemma fold_crcs_concat:
  "fold_crcs (crc32c xs) (map (\<lambda>p. (crc32c p, int (length p))) ps) = crc32c (xs @ concat ps)"
  by (induction ps arbitrary: xs) (simp_all add: CombineCRC32C_append)

section \<open>Properties\<close>

text \<open>
  C26. \<open>CombineCRC32C\<close>, the GF(2) matrix routine, computes from the checksums of two byte
  ranges and the length of the second the checksum of their concatenation, for byte ranges of
  any contents and length.
\<close>

theorem combine_is_crc_of_concatenation:
  "CombineCRC32C (crc32c xs) (crc32c ys) (int (length ys)) = crc32c (xs @ ys)"
  by (rule CombineCRC32C_append)

lemma ParseChecksum_examples:
  "ParseChecksum ''crc32c=AAAAAB=='' = Some 0"
  "ParseChecksum (''crc32c=AAAA'' @ [CHR 0x0A] @ ''AA=='') = Some 0"
  "ParseChecksum ''crc32c=AAAAAA=='' = Some 0"
  by code_simp+

lemma EncodeCRC32C_0: "EncodeCRC32C 0 = ''crc32c=AAAAAA==''"
  by code_simp

lemma parse_checksum_not_exact:
  "ParseChecksum ''crc32c=AAAAAB=='' = ParseChecksum ''crc32c=AAAAAA==''
   \<and> ParseChecksum (''crc32c=AAAA'' @ [CHR 0x0A] @ ''AA=='') = ParseChecksum ''crc32c=AAAAAA==''
   \<and> ParseChecksum ''crc32c=AAAAAA=='' = Some 0
   \<and> (\<forall>crc. EncodeCRC32C crc \<noteq> ''crc32c=AAAAAB=='')"
proof -
  have "EncodeCRC32C crc \<noteq> ''crc32c=AAAAAB==''" for crc
  proof
    assume eq: "EncodeCRC32C crc = ''crc32c=AAAAAB==''"
    then have "ParseChecksum ''crc32c=AAAAAB=='' = Some crc"
      using ParseChecksum_EncodeCRC32C [of crc] by simp
    then have "crc = 0" by (simp only: ParseChecksum_examples option.inject)
    with eq show False by (simp only: EncodeCRC32C_0) simp
  qed
  then show ?thesis
    by (simp only: ParseChecksum_examples) simp
qed

text \<open>
  C36. The wire form of a checksum: \<open>ParseChecksum\<close> reads back what \<open>EncodeCRC32C\<close> wrote for every
  32-bit value, and the wire form is the prefix and exactly eight characters, the last two of which
  are padding.  \<open>ParseChecksum\<close> is more liberal than its comment and the contract say: the same
  value is read from a string with a line break inside it, and from one whose last sextet carries
  stray low bits, which \<open>EncodeCRC32C\<close> writes for no value.
\<close>

theorem wire_checksum_roundtrip:
  "(ParseChecksum (EncodeCRC32C crc) = Some crc \<and>
    (\<exists>body. EncodeCRC32C crc = ''crc32c='' @ body @ ''=='' \<and> length body = 6)) \<and>
   ParseChecksum ''crc32c=AAAAAB=='' = ParseChecksum ''crc32c=AAAAAA==''
   \<and> ParseChecksum (''crc32c=AAAA'' @ [CHR 0x0A] @ ''AA=='') = ParseChecksum ''crc32c=AAAAAA==''
   \<and> ParseChecksum ''crc32c=AAAAAA=='' = Some 0
   \<and> (\<forall>crc. EncodeCRC32C crc \<noteq> ''crc32c=AAAAAB=='')"
proof (rule conjI [OF conjI parse_checksum_not_exact])
  show "ParseChecksum (EncodeCRC32C crc) = Some crc" by simp
  show "\<exists>body. EncodeCRC32C crc = ''crc32c='' @ body @ ''=='' \<and> length body = 6"
    by (simp add: EncodeCRC32C_def StdEncodeToString_def PutUint32_def checksumPrefix_def)
qed

end
