(* ===== verification/Tunna_Core.thy ===== *)
theory Tunna_Core
  imports Go_Text
begin

text \<open>
  The root package: domain types, error kinds, naming rules and the authorization rule
  (\<open>errors.go\<close>, \<open>bucket.go\<close>, \<open>object.go\<close>, \<open>upload.go\<close>, \<open>apikey.go\<close>, \<open>version.go\<close>).
  A \<open>time.Time\<close> is an integer count of nanoseconds since the Unix epoch; \<open>Unix\<close> floors it to
  seconds, as Go does.
\<close>

section \<open>Errors and time\<close>

datatype store_err = ErrNotFound | ErrInvalid | ErrConflict | ErrUnexpectedEOF | ErrOther | ErrPanic

type_synonym time = int

definition Second :: int where "Second = 1000000000"

definition Unix :: "time \<Rightarrow> int" where "Unix t = t div Second"

definition time_Unix :: "int \<Rightarrow> time" where "time_Unix sec = sec * Second"

lemma Unix_time_Unix [simp]: "Unix (time_Unix n) = n"
  by (simp add: Unix_def time_Unix_def Second_def)

definition SpecVersion :: gostring where "SpecVersion = ''0.1.0-draft''"

section \<open>Domain types\<close>

record bucket =
  b_Name :: gostring
  b_Public :: bool
  b_CreatedAt :: time

record object =
  o_Bucket :: gostring
  o_Key :: gostring
  o_BlobID :: gostring
  o_Size :: int
  o_ContentType :: gostring
  o_Checksum :: gostring
  o_Metadata :: "(gostring, gostring) gomap"
  o_CreatedAt :: time

record part =
  p_Size :: int
  p_Checksum :: gostring

record upload_session =
  u_ID :: gostring
  u_Bucket :: gostring
  u_Key :: gostring
  u_BlobID :: gostring
  u_PartSize :: int
  u_ContentType :: gostring
  u_Metadata :: "(gostring, gostring) gomap"
  u_Parts :: "(int, part) gomap"
  u_CreatedAt :: time
  u_ExpiresAt :: time

type_synonym access = gostring

definition Read :: access where "Read = ''read''"
definition Write :: access where "Write = ''write''"

record apikey =
  k_ID :: gostring
  k_Secret :: gostring
  k_Name :: gostring
  k_Admin :: bool
  k_Scopes :: "(gostring, access) gomap"
  k_Disabled :: bool
  k_CreatedAt :: time

section \<open>Bucket names\<close>

datatype name_err = BadLength nat | BadEdge | BadByte char nat

text \<open>One pass over the bytes; \<open>n\<close> is the length of the name and \<open>i\<close> the current index.\<close>

fun check_name_bytes :: "nat \<Rightarrow> nat \<Rightarrow> gostring \<Rightarrow> name_err option" where
  "check_name_bytes n i [] = None"
| "check_name_bytes n i (c # s) =
     (if (97 \<le> code_of c \<and> code_of c \<le> 122) \<or> (48 \<le> code_of c \<and> code_of c \<le> 57)
      then check_name_bytes n (i + 1) s
      else if c = CHR ''-'' then
        (if i = 0 \<or> i + 1 = n then Some BadEdge else check_name_bytes n (i + 1) s)
      else Some (BadByte c i))"

definition ValidateBucketName :: "gostring \<Rightarrow> name_err option" where
  "ValidateBucketName name =
     (if length name < 3 \<or> length name > 63 then Some (BadLength (length name))
      else check_name_bytes (length name) 0 name)"

text \<open>The text of the error, with \<open>%q\<close> of a byte as \<open>strconv.QuoteRune\<close> renders it.\<close>

definition hex_digit :: "nat \<Rightarrow> char" where "hex_digit = hex_char"

definition quote_byte :: "char \<Rightarrow> gostring" where
  "quote_byte c =
     (let n = code_of c in
      CHR 0x27 #
       (if n = 7 then [CHR 0x5C, CHR ''a''] else if n = 8 then [CHR 0x5C, CHR ''b'']
        else if n = 9 then [CHR 0x5C, CHR ''t''] else if n = 10 then [CHR 0x5C, CHR ''n'']
        else if n = 11 then [CHR 0x5C, CHR ''v''] else if n = 12 then [CHR 0x5C, CHR ''f'']
        else if n = 13 then [CHR 0x5C, CHR ''r'']
        else if n = 0x27 \<or> n = 0x5C then [CHR 0x5C, c]
        else if n < 32 \<or> n = 127 then [CHR 0x5C, CHR ''x'', hex_digit (n div 16), hex_digit (n mod 16)]
        else if n < 127 then [c]
        else if n < 161 \<or> n = 173 then
          CHR 0x5C # ''u00'' @ [hex_digit (n div 16), hex_digit (n mod 16)]
        else [char_of (192 + n div 64), char_of (128 + n mod 64)])
      @ [CHR 0x27])"

fun name_err_text :: "name_err \<Rightarrow> gostring" where
  "name_err_text (BadLength n) = ''invalid: bucket name must be 3 to 63 bytes, got '' @ format_nat n"
| "name_err_text BadEdge = ''invalid: bucket name must begin and end with a letter or digit''"
| "name_err_text (BadByte c i) =
     ''invalid: bucket name may contain only a-z, 0-9 and '' @ [CHR 0x27] @ ''-'' @ [CHR 0x27]
     @ '', found '' @ quote_byte c @ '' at byte '' @ format_nat i"

section \<open>Object keys\<close>

datatype key_err = KeyLength nat | KeyNotUTF8 | KeyNUL

definition MaxKeyLength :: nat where "MaxKeyLength = 1024"

definition ValidateObjectKey :: "gostring \<Rightarrow> key_err option" where
  "ValidateObjectKey key =
     (if length key < 1 \<or> length key > MaxKeyLength then Some (KeyLength (length key))
      else if \<not> ValidString key then Some KeyNotUTF8
      else if CHR 0x00 \<in> set key then Some KeyNUL
      else None)"

fun key_err_text :: "key_err \<Rightarrow> gostring" where
  "key_err_text (KeyLength n) =
     ''invalid: object key must be 1 to '' @ format_nat MaxKeyLength @ '' bytes, got '' @ format_nat n"
| "key_err_text KeyNotUTF8 = ''invalid: object key must be valid UTF-8''"
| "key_err_text KeyNUL = ''invalid: object key must not contain NUL (U+0000)''"

section \<open>Access levels\<close>

definition Access_Valid :: "access \<Rightarrow> bool" where
  "Access_Valid a = (a = Read \<or> a = Write)"

definition covers :: "access \<Rightarrow> access \<Rightarrow> bool" where
  "covers a want = (if a = want then True else a = Write \<and> want = Read)"

text \<open>Reading a missing entry of a Go map gives the zero value, the empty string.\<close>

definition scope_of :: "(gostring, access) gomap \<Rightarrow> gostring \<Rightarrow> access" where
  "scope_of scopes b = (case map_of scopes b of None \<Rightarrow> [] | Some a \<Rightarrow> a)"

definition Allows :: "apikey \<Rightarrow> access \<Rightarrow> gostring \<Rightarrow> bool" where
  "Allows k level b =
     (if k_Admin k then True
      else covers (scope_of (k_Scopes k) b) level \<or> covers (scope_of (k_Scopes k) ''*'') level)"

section \<open>Lemmas\<close>

definition name_char :: "char \<Rightarrow> bool" where
  "name_char c = ((97 \<le> code_of c \<and> code_of c \<le> 122) \<or> (48 \<le> code_of c \<and> code_of c \<le> 57))"

lemma check_name_bytes_None:
  "n = i + length s \<Longrightarrow> check_name_bytes n i s = None \<longleftrightarrow>
     (\<forall>c \<in> set s. name_char c \<or> c = CHR ''-'') \<and> (i = 0 \<longrightarrow> s \<noteq> [] \<longrightarrow> hd s \<noteq> CHR ''-'') \<and>
     (s \<noteq> [] \<longrightarrow> last s \<noteq> CHR ''-'')"
proof (induction n i s rule: check_name_bytes.induct)
  case (2 n i c s)
  have "name_char c \<Longrightarrow> c \<noteq> CHR ''-''" by (auto simp: name_char_def)
  moreover have "i + 1 = n \<longleftrightarrow> s = []" using 2(3) by auto
  ultimately show ?case
    using 2 by (cases "name_char c") (auto simp: name_char_def)
qed simp

lemma ValidateBucketName_None:
  "ValidateBucketName name = None \<longleftrightarrow>
     3 \<le> length name \<and> length name \<le> 63 \<and> (\<forall>c \<in> set name. name_char c \<or> c = CHR ''-'') \<and>
     hd name \<noteq> CHR ''-'' \<and> last name \<noteq> CHR ''-''"
  using check_name_bytes_None [of "length name" 0 name]
  by (auto simp: ValidateBucketName_def)

lemma valid_bucket_not_reserved:
  "ValidateBucketName b = None \<Longrightarrow> b \<noteq> ''*'' \<and> b \<noteq> ''-'' \<and> CHR ''/'' \<notin> set b"
  by (auto simp: ValidateBucketName_None name_char_def)

lemma covers_simps [simp]:
  "covers a Read \<longleftrightarrow> a = Read \<or> a = Write" "covers a Write \<longleftrightarrow> a = Write"
  by (auto simp: covers_def Read_def Write_def)

lemma Allows_write_read: "Allows k Write b \<Longrightarrow> Allows k Read b"
  by (auto simp: Allows_def split: if_splits)

section \<open>Properties\<close>

text \<open>
  \<open>ValidateBucketName\<close> accepts exactly the names of the contract: 3 to 63 bytes of
  lowercase letters, digits and hyphens that neither begin nor end with a hyphen; so no accepted
  name is the wildcard scope, the reserved control-plane segment, or holds a slash.
\<close>

lemma bucket_name_rule:
  "(ValidateBucketName name = None \<longleftrightarrow>
     3 \<le> length name \<and> length name \<le> 63 \<and>
     list_all (\<lambda>c. (97 \<le> code_of c \<and> code_of c \<le> 122) \<or> (48 \<le> code_of c \<and> code_of c \<le> 57)
       \<or> c = CHR ''-'') name \<and>
     hd name \<noteq> CHR ''-'' \<and> last name \<noteq> CHR ''-'') \<and>
   ValidateBucketName ''*'' \<noteq> None \<and> ValidateBucketName ''-'' \<noteq> None"
  by (simp add: ValidateBucketName_None list_all_iff name_char_def disj_assoc)

text \<open>
  The authorization rule: a key may write a bucket exactly when it is an admin key or the
  bucket's own scope entry or the wildcard entry is \<open>write\<close>; it may read it exactly when it may
  write it or one of the two entries is \<open>read\<close>.  A scope entry with any other text grants
  nothing.
\<close>

lemma allows_rule:
  "(Allows k Write b \<longleftrightarrow>
      k_Admin k \<or> map_of (k_Scopes k) b = Some ''write'' \<or> map_of (k_Scopes k) ''*'' = Some ''write'') \<and>
   (Allows k Read b \<longleftrightarrow>
      Allows k Write b \<or> map_of (k_Scopes k) b = Some ''read'' \<or> map_of (k_Scopes k) ''*'' = Some ''read'')"
  by (auto simp: Allows_def scope_of_def Read_def Write_def covers_def split: option.splits)

end
