(* ===== verification/Store_Spec.thy ===== *)
theory Store_Spec
  imports Tunna_Core
begin

text \<open>
  The store interfaces of the root package (\<open>KeyStore\<close>, \<open>BucketStore\<close>, \<open>ObjectStore\<close>,
  \<open>UploadStore\<close>, \<open>BlobStore\<close>) as records of operations over one state, and their contracts
  as locales over an abstract view of that state: five finite maps.  Each contract says for
  every operation what the view is before and after, on success and on every error; a failed
  operation leaves the view as it was.  \<open>cell\<close> is what a store keeps of a value it is given
  (the identity in memory; the SQLite adapter keeps whole seconds of times).
\<close>

section \<open>Interfaces\<close>

datatype body_end = BodyEOF | BodyUnexpectedEOF | BodyErr

text \<open>A request body as a reader delivers it: the bytes that arrive and how the stream ends.\<close>

record reader =
  rd_bytes :: "byte list"
  rd_end :: body_end

record 's key_store =
  ks_GetKey :: "gostring \<Rightarrow> 's \<Rightarrow> (store_err + apikey) \<times> 's"
  ks_CreateKey :: "apikey \<Rightarrow> 's \<Rightarrow> (store_err + unit) \<times> 's"
  ks_UpdateKey :: "apikey \<Rightarrow> 's \<Rightarrow> (store_err + unit) \<times> 's"
  ks_DeleteKey :: "gostring \<Rightarrow> 's \<Rightarrow> (store_err + unit) \<times> 's"
  ks_ListKeys :: "'s \<Rightarrow> (store_err + apikey list) \<times> 's"

record 's bucket_store =
  bs_CreateBucket :: "bucket \<Rightarrow> 's \<Rightarrow> (store_err + unit) \<times> 's"
  bs_GetBucket :: "gostring \<Rightarrow> 's \<Rightarrow> (store_err + bucket) \<times> 's"
  bs_ListBuckets :: "'s \<Rightarrow> (store_err + bucket list) \<times> 's"
  bs_DeleteBucket :: "gostring \<Rightarrow> 's \<Rightarrow> (store_err + unit) \<times> 's"
  bs_UpdateBucket :: "bucket \<Rightarrow> 's \<Rightarrow> (store_err + unit) \<times> 's"

record 's object_store =
  os_PutObject :: "object \<Rightarrow> 's \<Rightarrow> (store_err + gostring) \<times> 's"
  os_GetObject :: "gostring \<Rightarrow> gostring \<Rightarrow> 's \<Rightarrow> (store_err + object) \<times> 's"
  os_DeleteObject :: "gostring \<Rightarrow> gostring \<Rightarrow> 's \<Rightarrow> (store_err + gostring) \<times> 's"
  os_ListObjects :: "gostring \<Rightarrow> gostring \<Rightarrow> gostring \<Rightarrow> int \<Rightarrow> 's \<Rightarrow> (store_err + object list) \<times> 's"

record 's upload_store =
  us_CreateUpload :: "upload_session \<Rightarrow> 's \<Rightarrow> (store_err + unit) \<times> 's"
  us_GetUpload :: "gostring \<Rightarrow> 's \<Rightarrow> (store_err + upload_session) \<times> 's"
  us_PutPart :: "gostring \<Rightarrow> int \<Rightarrow> part \<Rightarrow> 's \<Rightarrow> (store_err + unit) \<times> 's"
  us_CompleteUpload :: "gostring \<Rightarrow> object \<Rightarrow> 's \<Rightarrow> (store_err + gostring) \<times> 's"
  us_DeleteUpload :: "gostring \<Rightarrow> 's \<Rightarrow> (store_err + upload_session) \<times> 's"
  us_CountUploads :: "gostring \<Rightarrow> 's \<Rightarrow> (store_err + nat) \<times> 's"

text \<open>
  \<open>Create\<close> takes the random bytes it draws; \<open>Write\<close> returns the count and the error together,
  as \<open>io.Copy\<close> does; \<open>Open\<close> returns the bytes a reader of the blob sees.
\<close>

record 's blob_store =
  bl_Create :: "byte list \<Rightarrow> 's \<Rightarrow> (store_err + gostring) \<times> 's"
  bl_Write :: "gostring \<Rightarrow> int \<Rightarrow> reader \<Rightarrow> 's \<Rightarrow> (int \<times> store_err option) \<times> 's"
  bl_Sync :: "gostring \<Rightarrow> 's \<Rightarrow> (store_err + unit) \<times> 's"
  bl_Open :: "gostring \<Rightarrow> 's \<Rightarrow> (store_err + byte list) \<times> 's"
  bl_Remove :: "gostring \<Rightarrow> 's \<Rightarrow> (store_err + unit) \<times> 's"

section \<open>The abstract view\<close>

record view =
  v_keys :: "gostring \<Rightarrow> apikey option"
  v_buckets :: "gostring \<Rightarrow> bucket option"
  v_objects :: "gostring \<times> gostring \<Rightarrow> object option"
  v_uploads :: "gostring \<Rightarrow> upload_session option"
  v_blobs :: "gostring \<Rightarrow> byte list option"

text \<open>Bytes written at an offset; a gap before the offset reads as zeros.\<close>

definition write_at :: "byte list \<Rightarrow> nat \<Rightarrow> byte list \<Rightarrow> byte list" where
  "write_at old off new =
     (if new = [] then old
      else take off (old @ replicate (off - length old) 0) @ new @ drop (off + length new) old)"

lemma length_write_at:
  "length (write_at old off new) = (if new = [] then length old else max (length old) (off + length new))"
  by (auto simp: write_at_def)

lemma write_at_end [simp]: "write_at old (length old) new = old @ new"
  by (simp add: write_at_def)

lemma write_at_empty [simp]: "write_at [] 0 new = new"
  by (simp add: write_at_def)

text \<open>The page a listing promises: the first \<open>limit\<close> keys after the cursor, in key order.\<close>

definition listing_keys :: "view \<Rightarrow> gostring \<Rightarrow> gostring \<Rightarrow> gostring \<Rightarrow> gostring set" where
  "listing_keys v b pre aft = {k. v_objects v (b, k) \<noteq> None \<and> prefix pre k \<and> aft < k}"

definition is_listing :: "view \<Rightarrow> gostring \<Rightarrow> gostring \<Rightarrow> gostring \<Rightarrow> nat \<Rightarrow> object list \<Rightarrow> bool" where
  "is_listing v b pre aft limit list \<longleftrightarrow>
     finite (listing_keys v b pre aft) \<and>
     map o_Key list = take limit (sorted_list_of_set (listing_keys v b pre aft)) \<and>
     (\<forall>ob \<in> set list. v_objects v (b, o_Key ob) = Some ob)"

definition blob_previous :: "view \<Rightarrow> object \<Rightarrow> gostring" where
  "blob_previous v ob =
     (case v_objects v (o_Bucket ob, o_Key ob) of None \<Rightarrow> [] | Some p \<Rightarrow> o_BlobID p)"

section \<open>Contracts\<close>

locale key_store_laws =
  fixes ks :: "'s key_store" and view :: "'s \<Rightarrow> view" and inv :: "'s \<Rightarrow> bool"
    and cell :: "apikey \<Rightarrow> apikey"
  assumes get_key: "\<And>r. inv s \<Longrightarrow> ks_GetKey ks ident s = (r, s') \<Longrightarrow> inv s' \<and> view s' = view s \<and>
      (case r of Inr k \<Rightarrow> v_keys (view s) ident = Some k
       | Inl e \<Rightarrow> e = ErrNotFound \<longrightarrow> v_keys (view s) ident = None)"
    and create_key: "\<And>r. inv s \<Longrightarrow> ks_CreateKey ks k s = (r, s') \<Longrightarrow> inv s' \<and>
      (case r of Inr _ \<Rightarrow> v_keys (view s) (k_ID k) = None \<and>
           view s' = (view s)\<lparr>v_keys := (v_keys (view s))(k_ID k \<mapsto> cell k)\<rparr>
       | Inl e \<Rightarrow> view s' = view s \<and> (e = ErrConflict \<longrightarrow> v_keys (view s) (k_ID k) \<noteq> None))"
    and update_key: "\<And>r. inv s \<Longrightarrow> ks_UpdateKey ks k s = (r, s') \<Longrightarrow> inv s' \<and>
      (case r of Inr _ \<Rightarrow> (\<exists>old. v_keys (view s) (k_ID k) = Some old \<and>
           view s' = (view s)\<lparr>v_keys := (v_keys (view s))(k_ID k \<mapsto>
             cell (k\<lparr>k_CreatedAt := k_CreatedAt old\<rparr>))\<rparr>)
       | Inl e \<Rightarrow> view s' = view s \<and> (e = ErrNotFound \<longrightarrow> v_keys (view s) (k_ID k) = None))"
    and delete_key: "\<And>r. inv s \<Longrightarrow> ks_DeleteKey ks ident s = (r, s') \<Longrightarrow> inv s' \<and>
      (case r of Inr _ \<Rightarrow> v_keys (view s) ident \<noteq> None \<and>
           view s' = (view s)\<lparr>v_keys := (v_keys (view s))(ident := None)\<rparr>
       | Inl e \<Rightarrow> view s' = view s \<and> (e = ErrNotFound \<longrightarrow> v_keys (view s) ident = None))"
    and list_keys: "\<And>r. inv s \<Longrightarrow> ks_ListKeys ks s = (r, s') \<Longrightarrow> inv s' \<and> view s' = view s \<and>
      (case r of Inr l \<Rightarrow> sorted (map k_ID l) \<and> distinct (map k_ID l) \<and>
           (\<forall>k. k \<in> set l \<longleftrightarrow> v_keys (view s) (k_ID k) = Some k)
       | Inl e \<Rightarrow> True)"

locale bucket_store_laws =
  fixes bs :: "'s bucket_store" and view :: "'s \<Rightarrow> view" and inv :: "'s \<Rightarrow> bool"
    and cell :: "bucket \<Rightarrow> bucket"
  assumes create_bucket: "\<And>r. inv s \<Longrightarrow> bs_CreateBucket bs b s = (r, s') \<Longrightarrow> inv s' \<and>
      (case r of Inr _ \<Rightarrow> v_buckets (view s) (b_Name b) = None \<and>
           view s' = (view s)\<lparr>v_buckets := (v_buckets (view s))(b_Name b \<mapsto> cell b)\<rparr>
       | Inl e \<Rightarrow> view s' = view s \<and> (e = ErrConflict \<longrightarrow> v_buckets (view s) (b_Name b) \<noteq> None))"
    and get_bucket: "\<And>r. inv s \<Longrightarrow> bs_GetBucket bs name s = (r, s') \<Longrightarrow> inv s' \<and> view s' = view s \<and>
      (case r of Inr b \<Rightarrow> v_buckets (view s) name = Some b
       | Inl e \<Rightarrow> e = ErrNotFound \<longrightarrow> v_buckets (view s) name = None)"
    and list_buckets: "\<And>r. inv s \<Longrightarrow> bs_ListBuckets bs s = (r, s') \<Longrightarrow> inv s' \<and> view s' = view s \<and>
      (case r of Inr l \<Rightarrow> sorted (map b_Name l) \<and> distinct (map b_Name l) \<and>
           (\<forall>b. b \<in> set l \<longleftrightarrow> v_buckets (view s) (b_Name b) = Some b)
       | Inl e \<Rightarrow> True)"
    and delete_bucket: "\<And>r. inv s \<Longrightarrow> bs_DeleteBucket bs name s = (r, s') \<Longrightarrow> inv s' \<and>
      (case r of Inr _ \<Rightarrow> v_buckets (view s) name \<noteq> None \<and>
           view s' = (view s)\<lparr>v_buckets := (v_buckets (view s))(name := None)\<rparr>
       | Inl e \<Rightarrow> view s' = view s \<and> (e = ErrNotFound \<longrightarrow> v_buckets (view s) name = None))"
    and update_bucket: "\<And>r. inv s \<Longrightarrow> bs_UpdateBucket bs b s = (r, s') \<Longrightarrow> inv s' \<and>
      (case r of Inr _ \<Rightarrow> (\<exists>old. v_buckets (view s) (b_Name b) = Some old \<and>
           view s' = (view s)\<lparr>v_buckets := (v_buckets (view s))(b_Name b \<mapsto>
             old\<lparr>b_Public := b_Public b\<rparr>)\<rparr>)
       | Inl e \<Rightarrow> view s' = view s \<and> (e = ErrNotFound \<longrightarrow> v_buckets (view s) (b_Name b) = None))"

locale object_store_laws =
  fixes os :: "'s object_store" and view :: "'s \<Rightarrow> view" and inv :: "'s \<Rightarrow> bool"
    and cell :: "object \<Rightarrow> object"
    and listable :: "gostring \<Rightarrow> bool"
  assumes put_object: "\<And>r. inv s \<Longrightarrow> os_PutObject os ob s = (r, s') \<Longrightarrow> inv s' \<and>
      (case r of Inr prev \<Rightarrow> prev = blob_previous (view s) ob \<and>
           view s' = (view s)\<lparr>v_objects := (v_objects (view s))((o_Bucket ob, o_Key ob) \<mapsto> cell ob)\<rparr>
       | Inl e \<Rightarrow> view s' = view s)"
    and get_object: "\<And>r. inv s \<Longrightarrow> os_GetObject os b k s = (r, s') \<Longrightarrow> inv s' \<and> view s' = view s \<and>
      (case r of Inr ob \<Rightarrow> v_objects (view s) (b, k) = Some ob
       | Inl e \<Rightarrow> e = ErrNotFound \<longrightarrow> v_objects (view s) (b, k) = None)"
    and delete_object: "\<And>r. inv s \<Longrightarrow> os_DeleteObject os b k s = (r, s') \<Longrightarrow> inv s' \<and>
      (case r of Inr blob \<Rightarrow> (\<exists>ob. v_objects (view s) (b, k) = Some ob \<and> blob = o_BlobID ob) \<and>
           view s' = (view s)\<lparr>v_objects := (v_objects (view s))((b, k) := None)\<rparr>
       | Inl e \<Rightarrow> view s' = view s \<and> (e = ErrNotFound \<longrightarrow> v_objects (view s) (b, k) = None))"
    and list_objects: "\<And>r. inv s \<Longrightarrow> os_ListObjects os b pre aft limit s = (r, s') \<Longrightarrow>
      inv s' \<and> view s' = view s \<and>
      (case r of Inr l \<Rightarrow> listable pre \<longrightarrow> 0 < limit \<longrightarrow> is_listing (view s) b pre aft (nat limit) l
       | Inl e \<Rightarrow> True)"
    and cell_keys: "o_Bucket (cell ob) = o_Bucket ob \<and> o_Key (cell ob) = o_Key ob \<and>
      o_BlobID (cell ob) = o_BlobID ob \<and> o_Size (cell ob) = o_Size ob \<and>
      o_Checksum (cell ob) = o_Checksum ob \<and> o_ContentType (cell ob) = o_ContentType ob"

locale upload_store_laws =
  fixes us :: "'s upload_store" and view :: "'s \<Rightarrow> view" and inv :: "'s \<Rightarrow> bool"
    and cell :: "upload_session \<Rightarrow> upload_session" and ocell :: "object \<Rightarrow> object"
  assumes create_upload: "\<And>r. inv s \<Longrightarrow> us_CreateUpload us se s = (r, s') \<Longrightarrow> inv s' \<and>
      (case r of Inr _ \<Rightarrow> v_uploads (view s) (u_ID se) = None \<and>
           view s' = (view s)\<lparr>v_uploads := (v_uploads (view s))(u_ID se \<mapsto> cell se)\<rparr>
       | Inl e \<Rightarrow> view s' = view s \<and> (e = ErrConflict \<longrightarrow> v_uploads (view s) (u_ID se) \<noteq> None))"
    and get_upload: "\<And>r. inv s \<Longrightarrow> us_GetUpload us ident s = (r, s') \<Longrightarrow> inv s' \<and> view s' = view s \<and>
      (case r of Inr se \<Rightarrow> v_uploads (view s) ident = Some se \<and> u_ID se = ident
       | Inl e \<Rightarrow> e = ErrNotFound \<longrightarrow> v_uploads (view s) ident = None)"
    and put_part: "\<And>r. inv s \<Longrightarrow> us_PutPart us ident n p s = (r, s') \<Longrightarrow> inv s' \<and>
      (case r of Inr _ \<Rightarrow> (\<exists>se. v_uploads (view s) ident = Some se \<and>
           view s' = (view s)\<lparr>v_uploads := (v_uploads (view s))(ident \<mapsto>
             se\<lparr>u_Parts := map_put (u_Parts se) n p\<rparr>)\<rparr>)
       | Inl e \<Rightarrow> view s' = view s \<and> (e = ErrNotFound \<longrightarrow> v_uploads (view s) ident = None))"
    and complete_upload: "\<And>r. inv s \<Longrightarrow> us_CompleteUpload us ident ob s = (r, s') \<Longrightarrow> inv s' \<and>
      (case r of Inr prev \<Rightarrow> v_uploads (view s) ident \<noteq> None \<and> prev = blob_previous (view s) ob \<and>
           view s' = (view s)\<lparr>v_objects := (v_objects (view s))((o_Bucket ob, o_Key ob) \<mapsto> ocell ob),
             v_uploads := (v_uploads (view s))(ident := None)\<rparr>
       | Inl e \<Rightarrow> view s' = view s \<and> (e = ErrNotFound \<longrightarrow> v_uploads (view s) ident = None))"
    and delete_upload: "\<And>r. inv s \<Longrightarrow> us_DeleteUpload us ident s = (r, s') \<Longrightarrow> inv s' \<and>
      (case r of Inr se \<Rightarrow> v_uploads (view s) ident = Some se \<and>
           view s' = (view s)\<lparr>v_uploads := (v_uploads (view s))(ident := None)\<rparr>
       | Inl e \<Rightarrow> view s' = view s \<and> (e = ErrNotFound \<longrightarrow> v_uploads (view s) ident = None))"
    and count_uploads: "\<And>r. inv s \<Longrightarrow> us_CountUploads us b s = (r, s') \<Longrightarrow> inv s' \<and> view s' = view s \<and>
      (case r of Inr n \<Rightarrow> n = 0 \<longleftrightarrow> (\<forall>ident se. v_uploads (view s) ident = Some se \<longrightarrow> u_Bucket se \<noteq> b)
       | Inl e \<Rightarrow> True)"

locale blob_store_laws =
  fixes bl :: "'s blob_store" and view :: "'s \<Rightarrow> view" and inv :: "'s \<Rightarrow> bool"
    and blob_id :: "gostring \<Rightarrow> bool"
  assumes create_blob: "\<And>r. inv s \<Longrightarrow> bl_Create bl raw s = (r, s') \<Longrightarrow> inv s' \<and>
      (case r of Inr ident \<Rightarrow> v_blobs (view s) ident = None \<and> (length raw = 16 \<longrightarrow> blob_id ident) \<and>
           view s' = (view s)\<lparr>v_blobs := (v_blobs (view s))(ident \<mapsto> [])\<rparr>
       | Inl e \<Rightarrow> view s' = view s \<or> (\<exists>i. v_blobs (view s) i = None \<and>
           view s' = (view s)\<lparr>v_blobs := (v_blobs (view s))(i \<mapsto> [])\<rparr>))"
    and write_blob: "inv s \<Longrightarrow> bl_Write bl ident off rd s = ((n, e), s') \<Longrightarrow> inv s' \<and>
      (case v_blobs (view s) ident of
         None \<Rightarrow> view s' = view s \<and> n = 0 \<and> (blob_id ident \<longrightarrow> e \<noteq> None)
       | Some old \<Rightarrow>
         (\<exists>x. view s' = (view s)\<lparr>v_blobs := (v_blobs (view s))(ident \<mapsto> x)\<rparr>) \<and>
         (0 \<le> off \<longrightarrow> (\<exists>k \<le> length (rd_bytes rd). n = int k \<and>
           view s' = (view s)\<lparr>v_blobs := (v_blobs (view s))(ident \<mapsto>
             write_at old (nat off) (take k (rd_bytes rd)))\<rparr> \<and>
           (e = None \<longrightarrow> k = length (rd_bytes rd) \<and> rd_end rd = BodyEOF))) \<and>
         (off < 0 \<longrightarrow> view s' = view s \<and> (e = None \<longrightarrow> rd_bytes rd = [] \<and> rd_end rd = BodyEOF)))"
    and sync_blob: "\<And>r. inv s \<Longrightarrow> bl_Sync bl ident s = (r, s') \<Longrightarrow> inv s' \<and> view s' = view s \<and>
      (case r of Inr _ \<Rightarrow> v_blobs (view s) ident \<noteq> None | Inl e \<Rightarrow> True)"
    and open_blob: "\<And>r. inv s \<Longrightarrow> bl_Open bl ident s = (r, s') \<Longrightarrow> inv s' \<and> view s' = view s \<and>
      (case r of Inr bytes \<Rightarrow> v_blobs (view s) ident = Some bytes
       | Inl e \<Rightarrow> e = ErrNotFound \<longrightarrow> v_blobs (view s) ident = None)"
    and remove_blob: "\<And>r. inv s \<Longrightarrow> bl_Remove bl ident s = (r, s') \<Longrightarrow> inv s' \<and>
      (case r of Inr _ \<Rightarrow> view s' = (view s)\<lparr>v_blobs := (v_blobs (view s))(ident := None)\<rparr>
       | Inl e \<Rightarrow> view s' = view s)"

end
