(* ===== verification/Http_Base.thy ===== *)
theory Http_Base
  imports Http_Json Go_Url Sig_Checksum Store_Spec
begin

text \<open>
  What the handlers of \<open>internal/httpapi\<close> share: the request and the response, the table of wire
  error codes, \<open>writeJSON\<close> and \<open>writeError\<close>, and the readers of the query.  Header maps are Go's:
  canonical names to lists of values.  A response records the headers set before the first byte
  of the body, its status and its body.
\<close>

section \<open>Headers\<close>

type_synonym header = "(gostring, gostring list) gomap"

definition token_char :: "char \<Rightarrow> bool" where
  "token_char c \<longleftrightarrow>
     is_digit c \<or> (65 \<le> code_of c \<and> code_of c \<le> 90) \<or> (97 \<le> code_of c \<and> code_of c \<le> 122) \<or>
     c \<in> set ''!#$%&'' \<or> code_of c = 39 \<or> c \<in> set ''*+-.^_`|~''"

definition upper_char :: "char \<Rightarrow> char" where
  "upper_char c = (if 97 \<le> code_of c \<and> code_of c \<le> 122 then char_of (code_of c - 32) else c)"

fun canonical_chars :: "bool \<Rightarrow> gostring \<Rightarrow> gostring" where
  "canonical_chars up [] = []"
| "canonical_chars up (c # s) =
     (if up then upper_char c else lower_char c) # canonical_chars (c = CHR ''-'') s"

text \<open>\<open>http.CanonicalHeaderKey\<close>: a name with a byte that is no token stays as it is.\<close>

definition CanonicalHeaderKey :: "gostring \<Rightarrow> gostring" where
  "CanonicalHeaderKey name = (if list_all token_char name then canonical_chars True name else name)"

definition Header_Get :: "header \<Rightarrow> gostring \<Rightarrow> gostring" where
  "Header_Get h name = Values_Get h (CanonicalHeaderKey name)"

definition Header_Set :: "header \<Rightarrow> gostring \<Rightarrow> gostring \<Rightarrow> header" where
  "Header_Set h name v = Values_Set h (CanonicalHeaderKey name) v"

definition Header_Add :: "header \<Rightarrow> gostring \<Rightarrow> gostring \<Rightarrow> header" where
  "Header_Add h name v = Values_Add h (CanonicalHeaderKey name) v"

section \<open>Requests and responses\<close>

text \<open>
  \<open>rq_Path\<close> is the decoded path (\<open>URL.Path\<close>), \<open>rq_EscapedPath\<close> the raw one; \<open>rq_PathValues\<close> what
  the mux bound; \<open>rq_caller\<close> the key that \<open>authenticate\<close> put in the context; \<open>rq_json\<close> the body as
  the JSON routes read it, \<open>rq_Body\<close> as the streaming routes do.
\<close>

record request =
  rq_Method :: gostring
  rq_Path :: gostring
  rq_EscapedPath :: gostring
  rq_RawQuery :: gostring
  rq_Header :: header
  rq_ContentLength :: int
  rq_Body :: reader
  rq_json :: json_body
  rq_PathValues :: "(gostring, gostring) gomap"
  rq_caller :: "apikey option"

text \<open>\<open>Aborted\<close>: the handler panicked, so net/http closes the connection without an answer.\<close>

datatype resp_body = NoBody | JsonBody json | TextBody gostring | BlobBody "byte list" | Aborted

record response =
  rs_status :: int
  rs_headers :: header
  rs_body :: resp_body

definition PathValue :: "request \<Rightarrow> gostring \<Rightarrow> gostring" where
  "PathValue r name = (case map_of (rq_PathValues r) name of None \<Rightarrow> [] | Some v \<Rightarrow> v)"

text \<open>
  The body as \<open>net/http\<close> delivers it: without a Content-Length (\<open>-1\<close>) whatever arrives; with one,
  never more bytes than it announces, and a clean end only after exactly that many.
\<close>

definition framed :: "request \<Rightarrow> bool" where
  "framed r \<longleftrightarrow> rq_ContentLength r = -1 \<or>
     (int (length (rd_bytes (rq_Body r))) \<le> rq_ContentLength r \<and>
      (rd_end (rq_Body r) = BodyEOF \<longrightarrow> int (length (rd_bytes (rq_Body r))) = rq_ContentLength r))"

text \<open>
  How it becomes so: the reader of the body ends after Content-Length bytes, and a connection that
  ends before them is an unexpected end.
\<close>

definition delivered :: "request \<Rightarrow> request" where
  "delivered r =
     (let n = rq_ContentLength r; bs = rd_bytes (rq_Body r) in
      if n < 0 then r\<lparr>rq_ContentLength := -1\<rparr>
      else if n \<le> int (length bs) then r\<lparr>rq_Body := \<lparr>rd_bytes = take (nat n) bs, rd_end = BodyEOF\<rparr>\<rparr>
      else if rd_end (rq_Body r) = BodyEOF then r\<lparr>rq_Body := \<lparr>rd_bytes = bs, rd_end = BodyUnexpectedEOF\<rparr>\<rparr>
      else r)"

lemma framed_delivered [simp]: "framed (delivered r)"
  by (auto simp: framed_def delivered_def Let_def)

lemma framed_caller [simp]:
  "framed (r\<lparr>rq_caller := c\<rparr>) = framed r" "framed (r\<lparr>rq_PathValues := vs\<rparr>) = framed r"
  by (simp_all add: framed_def)

lemma delivered_whole:
  "rq_ContentLength r = int (length (rd_bytes (rq_Body r))) \<Longrightarrow> rd_end (rq_Body r) = BodyEOF \<Longrightarrow> delivered r = r"
  by (simp add: delivered_def)

lemma delivered_caller [simp]: "rq_caller (delivered r) = rq_caller r"
  by (simp add: delivered_def Let_def)

definition url_query :: "request \<Rightarrow> url_values" where
  "url_query r = URL_Query (rq_RawQuery r)"

section \<open>Error codes\<close>

datatype code =
    codeMalformedRequest | codeUnknownRoute | codeMethodNotAllowed
  | codeUnauthenticated | codeUnknownKey | codeBadSignature | codeMissingSignedHeader
  | codeClockSkew | codePresignExpired | codePresignTooLong | codePresignNotAllowed
  | codeForbidden
  | codeInvalidBucketName | codeInvalidKey | codeInvalidParameter | codeInvalidPartSize
  | codeInvalidPartNumber | codeSessionNotActive
  | codeBodyTooLarge | codeBodyLengthMismatch | codeChecksumMismatch
  | codeBucketNotFound | codeObjectNotFound | codeUploadNotFound | codeKeyNotFound
  | codeBucketExists | codeBucketNotEmpty | codeUploadIncomplete | codePartSizeMismatch
  | codeInternal | codeUnavailable

fun code_text :: "code \<Rightarrow> gostring" where
  "code_text codeMalformedRequest = ''malformed_request''"
| "code_text codeUnknownRoute = ''unknown_route''"
| "code_text codeMethodNotAllowed = ''method_not_allowed''"
| "code_text codeUnauthenticated = ''unauthenticated''"
| "code_text codeUnknownKey = ''unknown_key''"
| "code_text codeBadSignature = ''bad_signature''"
| "code_text codeMissingSignedHeader = ''missing_signed_header''"
| "code_text codeClockSkew = ''clock_skew''"
| "code_text codePresignExpired = ''presign_expired''"
| "code_text codePresignTooLong = ''presign_too_long''"
| "code_text codePresignNotAllowed = ''presign_not_allowed''"
| "code_text codeForbidden = ''forbidden''"
| "code_text codeInvalidBucketName = ''invalid_bucket_name''"
| "code_text codeInvalidKey = ''invalid_key''"
| "code_text codeInvalidParameter = ''invalid_parameter''"
| "code_text codeInvalidPartSize = ''invalid_part_size''"
| "code_text codeInvalidPartNumber = ''invalid_part_number''"
| "code_text codeSessionNotActive = ''session_not_active''"
| "code_text codeBodyTooLarge = ''body_too_large''"
| "code_text codeBodyLengthMismatch = ''body_length_mismatch''"
| "code_text codeChecksumMismatch = ''checksum_mismatch''"
| "code_text codeBucketNotFound = ''bucket_not_found''"
| "code_text codeObjectNotFound = ''object_not_found''"
| "code_text codeUploadNotFound = ''upload_not_found''"
| "code_text codeKeyNotFound = ''key_not_found''"
| "code_text codeBucketExists = ''bucket_exists''"
| "code_text codeBucketNotEmpty = ''bucket_not_empty''"
| "code_text codeUploadIncomplete = ''upload_incomplete''"
| "code_text codePartSizeMismatch = ''part_size_mismatch''"
| "code_text codeInternal = ''internal''"
| "code_text codeUnavailable = ''unavailable''"

definition statusOf :: "(code, int) gomap" where
  "statusOf =
    [(codeMalformedRequest, 400), (codeUnknownRoute, 404), (codeMethodNotAllowed, 405),
     (codeUnauthenticated, 401), (codeUnknownKey, 401), (codeBadSignature, 401),
     (codeMissingSignedHeader, 401), (codeClockSkew, 401), (codePresignExpired, 401),
     (codePresignTooLong, 401), (codePresignNotAllowed, 401),
     (codeForbidden, 403),
     (codeInvalidBucketName, 422), (codeInvalidKey, 422), (codeInvalidParameter, 422),
     (codeInvalidPartSize, 422), (codeInvalidPartNumber, 422), (codeSessionNotActive, 422),
     (codeBodyTooLarge, 413), (codeBodyLengthMismatch, 422), (codeChecksumMismatch, 422),
     (codeBucketNotFound, 404), (codeObjectNotFound, 404), (codeUploadNotFound, 404),
     (codeKeyNotFound, 404), (codeBucketExists, 409), (codeBucketNotEmpty, 409),
     (codeUploadIncomplete, 409), (codePartSizeMismatch, 409),
     (codeInternal, 500), (codeUnavailable, 503)]"

section \<open>Writing responses\<close>

definition writeJSON :: "header \<Rightarrow> int \<Rightarrow> json \<Rightarrow> response" where
  "writeJSON w status v =
     \<lparr>rs_status = status, rs_headers = Header_Set w ''Content-Type'' ''application/json'',
      rs_body = JsonBody v\<rparr>"

definition writeHeader :: "header \<Rightarrow> int \<Rightarrow> response" where
  "writeHeader w status = \<lparr>rs_status = status, rs_headers = w, rs_body = NoBody\<rparr>"

definition aborted :: response where
  "aborted = \<lparr>rs_status = 0, rs_headers = [], rs_body = Aborted\<rparr>"

text \<open>The details are a Go map, encoded with sorted keys and left out when empty.\<close>

definition errorBody :: "code \<Rightarrow> gostring \<Rightarrow> (gostring, json) gomap \<Rightarrow> json" where
  "errorBody c message details =
     JObj [(''error'', JObj ([(''code'', JStr (code_text c)), (''message'', JStr message)] @
       (if details = [] then [] else [(''details'', JObj (sort_key fst details))])))]"

definition writeError :: "header \<Rightarrow> code \<Rightarrow> gostring \<Rightarrow> (gostring, json) gomap \<Rightarrow> response" where
  "writeError w c message details =
     (case map_of statusOf c of
        None \<Rightarrow> aborted
      | Some status \<Rightarrow>
          writeJSON (Header_Set w ''X-Tunna-Error'' (code_text c)) status (errorBody c message details))"

section \<open>Query readers\<close>

text \<open>\<open>rawQuery\<close>: the pairs of the raw query with \<open>PathUnescape\<close>, so a plus stays a plus.\<close>

fun raw_pairs :: "gostring list \<Rightarrow> url_values \<Rightarrow> url_values option" where
  "raw_pairs [] q = Some q"
| "raw_pairs (pair # ps) q =
     (if pair = [] then raw_pairs ps q
      else case Cut pair (CHR ''='') of (name, val, _) \<Rightarrow>
        (case (PathUnescape name, PathUnescape val) of
           (Some n, Some v) \<Rightarrow> raw_pairs ps (Values_Add q n v)
         | _ \<Rightarrow> None))"

definition rawQuery :: "request \<Rightarrow> url_values option" where
  "rawQuery r = raw_pairs (split_on CHR ''&'' (rq_RawQuery r)) []"

datatype checksum_decl = DeclErr | DeclBoth | Declared gostring gostring

definition bodyChecksum :: "request \<Rightarrow> checksum_decl" where
  "bodyChecksum r =
     (case rawQuery r of
        None \<Rightarrow> DeclErr
      | Some query \<Rightarrow>
          let hdr = Header_Get (rq_Header r) ''X-Tunna-Checksum''; param = Values_Get query ''checksum'' in
          if hdr \<noteq> [] \<and> param \<noteq> [] then DeclBoth
          else if hdr \<noteq> [] then Declared hdr ''X-Tunna-Checksum''
          else if param \<noteq> [] then Declared param ''checksum''
          else Declared [] [])"

section \<open>Lemmas\<close>

lemma statusOf_total: "\<exists>st. map_of statusOf c = Some st"
  by (cases c) (simp_all add: statusOf_def)

lemma writeError_status: "rs_status (writeError w c m d) = the (map_of statusOf c)"
  using statusOf_total [of c] by (auto simp: writeError_def writeJSON_def)

lemma writeError_headers:
  "rs_headers (writeError w c m d) =
     Header_Set (Header_Set w ''X-Tunna-Error'' (code_text c)) ''Content-Type'' ''application/json''"
  using statusOf_total [of c] by (auto simp: writeError_def writeJSON_def)

lemma writeError_body: "rs_body (writeError w c m d) = JsonBody (errorBody c m d)"
  using statusOf_total [of c] by (auto simp: writeError_def writeJSON_def)

lemma code_text_inj: "code_text c = code_text c' \<longleftrightarrow> c = c'"
  by (cases c; cases c') simp_all

text \<open>The error a response reports, read from its body.\<close>

fun json_get :: "gostring \<Rightarrow> json \<Rightarrow> json option" where
  "json_get n (JObj es) = map_of es n"
| "json_get n _ = None"

definition error_code :: "response \<Rightarrow> gostring option" where
  "error_code rs =
     (case rs_body rs of
        JsonBody j \<Rightarrow>
          (case json_get ''error'' j of
             None \<Rightarrow> None
           | Some e \<Rightarrow> (case json_get ''code'' e of Some (JStr c) \<Rightarrow> Some c | _ \<Rightarrow> None))
      | _ \<Rightarrow> None)"

lemma error_code_writeError [simp]: "error_code (writeError w c m d) = Some (code_text c)"
  by (simp add: error_code_def writeError_body errorBody_def)

lemma error_code_writeHeader [simp]: "error_code (writeHeader w st) = None"
  by (simp add: error_code_def writeHeader_def)

end
