(* ===== verification/Upload_Parts.thy ===== *)
theory Upload_Parts
  imports Store_Spec Sig_Checksum
begin

text \<open>
  The parts of an upload session in its blob: where a part lies, what it means that the session
  records its parts truly, that a part written at its place disturbs no other, and that the parts
  in order are the bytes up to the end of the last.
\<close>

section \<open>Parts and their places\<close>

text \<open>The bytes of a blob that a part of the given length occupies.\<close>

definition part_slice :: "upload_session \<Rightarrow> byte list \<Rightarrow> int \<Rightarrow> int \<Rightarrow> byte list" where
  "part_slice se blob n len = take (nat len) (drop (nat ((n - 1) * u_PartSize se)) blob)"

text \<open>What the session records of its parts is true of the blob.\<close>

definition recorded :: "upload_session \<Rightarrow> byte list \<Rightarrow> bool" where
  "recorded se blob \<longleftrightarrow>
     (\<forall>n p. map_of (u_Parts se) n = Some p \<longrightarrow>
        1 \<le> n \<and> 1 \<le> p_Size p \<and> p_Size p \<le> u_PartSize se \<and>
        (n - 1) * u_PartSize se + p_Size p \<le> int (length blob) \<and>
        p_Checksum p = EncodeCRC32C (crc32c (part_slice se blob n (p_Size p))))"

text \<open>The blob ends where a recorded part ends.\<close>

definition trimmed :: "upload_session \<Rightarrow> byte list \<Rightarrow> bool" where
  "trimmed se blob \<longleftrightarrow> blob = [] \<or>
     (\<exists>n p. map_of (u_Parts se) n = Some p \<and> int (length blob) = (n - 1) * u_PartSize se + p_Size p)"

lemma nth_write_at:
  assumes "new \<noteq> []" "i < length (write_at old off new)"
  shows "write_at old off new ! i =
    (if off \<le> i \<and> i < off + length new then new ! (i - off) else if i < length old then old ! i else 0)"
  using assms by (auto simp: write_at_def nth_append min_def)

lemma slice_written: "new \<noteq> [] \<Longrightarrow> take (length new) (drop off (write_at old off new)) = new"
  by (rule nth_equalityI) (auto simp: length_write_at nth_write_at)

lemma slice_kept:
  assumes "a + l \<le> length old" "a + l \<le> off \<or> off + length new \<le> a"
  shows "take l (drop a (write_at old off new)) = take l (drop a old)"
proof (cases "new = []")
  case True
  then show ?thesis by (simp add: write_at_def)
next
  case False
  with assms show ?thesis
    by (intro nth_equalityI) (auto simp: length_write_at nth_write_at)
qed

text \<open>Parts of the same session do not overlap.\<close>

lemma parts_apart:
  assumes "m < n" "1 \<le> m" "p \<le> ps" "0 \<le> (ps :: int)"
  shows "(m - 1) * ps + p \<le> (n - 1) * ps"
proof -
  have "(m - 1) * ps + p \<le> m * ps" using assms(3) by (simp add: algebra_simps)
  also have "\<dots> \<le> (n - 1) * ps" using assms(1,4) by (intro mult_right_mono) auto
  finally show ?thesis .
qed

text \<open>Writing part \<open>n\<close> leaves the bytes of every other recorded part alone.\<close>

lemma other_part_kept:
  assumes "recorded se old" "1 \<le> n" "int (length bytes) \<le> u_PartSize se" "0 < u_PartSize se"
    and "m \<noteq> n" "map_of (u_Parts se) m = Some p"
  shows "part_slice se (write_at old (nat ((n - 1) * u_PartSize se)) bytes) m (p_Size p) =
    part_slice se old m (p_Size p)"
  unfolding part_slice_def
proof (rule slice_kept)
  let ?ps = "u_PartSize se"
  have off: "0 \<le> (n - 1) * ?ps" using assms(2,4) by simp
  from assms(1,6) have p: "1 \<le> m" "1 \<le> p_Size p" "p_Size p \<le> ?ps"
    "(m - 1) * ?ps + p_Size p \<le> int (length old)" by (auto simp: recorded_def)
  then have m: "0 \<le> (m - 1) * ?ps" using assms(4) by simp
  with p show "nat ((m - 1) * ?ps) + nat (p_Size p) \<le> length old" by linarith
  from assms(5) consider "m < n" | "n < m" by linarith
  then show "nat ((m - 1) * ?ps) + nat (p_Size p) \<le> nat ((n - 1) * ?ps) \<or>
      nat ((n - 1) * ?ps) + length bytes \<le> nat ((m - 1) * ?ps)"
  proof cases
    case 1
    with parts_apart [of m n "p_Size p" ?ps] p m off assms(4) show ?thesis by linarith
  next
    case 2
    with parts_apart [of n m "int (length bytes)" ?ps] assms(2-4) m off show ?thesis by linarith
  qed
qed

lemma part_written:
  assumes "bytes \<noteq> []"
  shows "part_slice se (write_at old (nat ((n - 1) * u_PartSize se)) bytes) n (int (length bytes)) = bytes"
  using slice_written [OF assms] by (simp add: part_slice_def)

lemma length_part_written:
  assumes "bytes \<noteq> []" "1 \<le> n" "0 \<le> u_PartSize se"
  shows "int (length (write_at old (nat ((n - 1) * u_PartSize se)) bytes)) =
    max (int (length old)) ((n - 1) * u_PartSize se + int (length bytes))"
proof -
  have "0 \<le> (n - 1) * u_PartSize se" using assms(2,3) by simp
  then show ?thesis using assms(1) by (simp add: length_write_at)
qed

text \<open>The session with part \<open>n\<close> recorded.\<close>

definition with_part :: "upload_session \<Rightarrow> int \<Rightarrow> byte list \<Rightarrow> upload_session" where
  "with_part se n bytes = se\<lparr>u_Parts := map_put (u_Parts se) n
     \<lparr>p_Size = int (length bytes), p_Checksum = EncodeCRC32C (crc32c bytes)\<rparr>\<rparr>"

lemma with_part_simps [simp]:
  "u_ID (with_part se n bytes) = u_ID se" "u_Bucket (with_part se n bytes) = u_Bucket se"
  "u_Key (with_part se n bytes) = u_Key se" "u_BlobID (with_part se n bytes) = u_BlobID se"
  "u_PartSize (with_part se n bytes) = u_PartSize se"
  "map_of (u_Parts (with_part se n bytes)) =
     (map_of (u_Parts se))(n \<mapsto> \<lparr>p_Size = int (length bytes), p_Checksum = EncodeCRC32C (crc32c bytes)\<rparr>)"
  "part_slice (with_part se n bytes) = part_slice se"
  by (auto simp: with_part_def part_slice_def fun_eq_iff)

lemma recorded_write:
  assumes "recorded se old" "1 \<le> n" "bytes \<noteq> []" "int (length bytes) \<le> u_PartSize se"
  shows "recorded (with_part se n bytes) (write_at old (nat ((n - 1) * u_PartSize se)) bytes)"
proof -
  have ps: "0 < u_PartSize se" using assms(3,4) by (cases bytes) auto
  show ?thesis
    unfolding recorded_def
  proof (intro allI impI, goal_cases)
    case (1 m p)
    show ?case
    proof (cases "m = n")
      case True
      with 1 assms ps show ?thesis
        by (auto simp: part_written length_part_written Suc_le_eq)
    next
      case False
      with 1 have p: "map_of (u_Parts se) m = Some p" by simp
      with assms(1) other_part_kept [OF assms(1,2,4) ps False p] show ?thesis
        using assms(2,3) ps by (auto simp: recorded_def length_part_written le_max_iff_disj)
    qed
  qed
qed

lemma trimmed_write:
  assumes "trimmed se old" "1 \<le> n" "bytes \<noteq> []" "0 \<le> u_PartSize se"
    and "\<And>p. map_of (u_Parts se) n = Some p \<Longrightarrow> p_Size p \<le> int (length bytes)"
  shows "trimmed (with_part se n bytes) (write_at old (nat ((n - 1) * u_PartSize se)) bytes)"
proof (cases "int (length old) \<le> (n - 1) * u_PartSize se + int (length bytes)")
  case True
  with assms(2-4) show ?thesis by (auto simp: trimmed_def length_part_written)
next
  case False
  moreover have "0 \<le> (n - 1) * u_PartSize se" using assms(2,4) by simp
  ultimately obtain m p where m: "map_of (u_Parts se) m = Some p"
    "int (length old) = (m - 1) * u_PartSize se + p_Size p"
    using assms(1) by (auto simp: trimmed_def)
  with False assms(5) have "m \<noteq> n" by force
  with m False assms(2-4) show ?thesis by (auto simp: trimmed_def length_part_written)
qed

text \<open>What has been sent so far, by part number, is what is recorded and what lies in the blob.\<close>

definition pieces :: "upload_session \<Rightarrow> byte list \<Rightarrow> (int \<Rightarrow> byte list option) \<Rightarrow> bool" where
  "pieces se blob c \<longleftrightarrow> recorded se blob \<and> trimmed se blob \<and>
     (\<forall>n. (map_of (u_Parts se) n = None) = (c n = None)) \<and>
     (\<forall>n p bytes. map_of (u_Parts se) n = Some p \<longrightarrow> c n = Some bytes \<longrightarrow>
        p_Size p = int (length bytes) \<and> part_slice se blob n (p_Size p) = bytes)"

lemma piecesD:
  assumes "pieces se blob c" "map_of (u_Parts se) n = Some p"
  shows "\<exists>b. c n = Some b \<and> p_Size p = int (length b) \<and> part_slice se blob n (p_Size p) = b"
proof -
  have "c n \<noteq> None" using assms unfolding pieces_def by (metis option.distinct(1))
  with assms show ?thesis unfolding pieces_def by blast
qed

lemma pieces_write:
  assumes "pieces se old c" "c n = None" "1 \<le> n" "bytes \<noteq> []" "int (length bytes) \<le> u_PartSize se"
  shows "pieces (with_part se n bytes) (write_at old (nat ((n - 1) * u_PartSize se)) bytes) (c(n \<mapsto> bytes))"
proof -
  have ps: "0 < u_PartSize se" using assms(4,5) by (cases bytes) auto
  from assms(1) have rec: "recorded se old" "trimmed se old" by (simp_all add: pieces_def)
  have "map_of (u_Parts se) n = None" using assms(1,2) by (simp add: pieces_def)
  with trimmed_write [OF rec(2) assms(3,4)] ps
  have "trimmed (with_part se n bytes) (write_at old (nat ((n - 1) * u_PartSize se)) bytes)" by simp
  moreover have "part_slice se (write_at old (nat ((n - 1) * u_PartSize se)) bytes) m (p_Size p) = b"
    "p_Size p = int (length b)"
    if "m \<noteq> n" "map_of (u_Parts se) m = Some p" "c m = Some b" for m p b
    using assms(1) that other_part_kept [OF rec(1) assms(3,5) ps that(1,2)] unfolding pieces_def by metis+
  ultimately show ?thesis
    using assms(1) recorded_write [OF rec(1) assms(3-5)]
    unfolding pieces_def by (simp add: part_written assms(4) del: One_nat_def)
qed

section \<open>The parts in order\<close>

text \<open>\<open>sess.Parts[i]\<close>: the zero part when the map has none.\<close>

definition part_at :: "upload_session \<Rightarrow> int \<Rightarrow> part" where
  "part_at sess i = (case map_of (u_Parts sess) i of None \<Rightarrow> \<lparr>p_Size = 0, p_Checksum = []\<rparr> | Some p \<Rightarrow> p)"

text \<open>Where part \<open>n\<close> ends.\<close>

definition part_end :: "upload_session \<Rightarrow> int \<Rightarrow> int" where
  "part_end se n = (n - 1) * u_PartSize se + p_Size (part_at se n)"

text \<open>The first \<open>n\<close> parts are there and all but the last have the session's part size.\<close>

definition whole :: "upload_session \<Rightarrow> int \<Rightarrow> bool" where
  "whole se n \<longleftrightarrow> (\<forall>i. 1 \<le> i \<longrightarrow> i \<le> n \<longrightarrow> map_of (u_Parts se) i \<noteq> None) \<and>
     (\<forall>i. 1 \<le> i \<longrightarrow> i < n \<longrightarrow> p_Size (part_at se i) = u_PartSize se)"

lemma recorded_at:
  assumes "recorded se blob" "map_of (u_Parts se) n \<noteq> None"
  shows "1 \<le> n" "1 \<le> p_Size (part_at se n)" "p_Size (part_at se n) \<le> u_PartSize se"
    "part_end se n \<le> int (length blob)"
    "ParseChecksum (p_Checksum (part_at se n)) = Some (crc32c (part_slice se blob n (p_Size (part_at se n))))"
  using assms by (auto simp: recorded_def part_at_def part_end_def)

lemma take_part:
  assumes "recorded se blob" "map_of (u_Parts se) n \<noteq> None"
  shows "take (nat (part_end se n)) blob =
      take (nat ((n - 1) * u_PartSize se)) blob @ part_slice se blob n (p_Size (part_at se n))"
    "int (length (part_slice se blob n (p_Size (part_at se n)))) = p_Size (part_at se n)"
proof -
  note p = recorded_at [OF assms]
  have "0 \<le> (n - 1) * u_PartSize se" using p(1-3) by simp
  then have e: "nat (part_end se n) = nat ((n - 1) * u_PartSize se) + nat (p_Size (part_at se n))"
    using p(2) by (simp add: part_end_def nat_add_distrib)
  then show "take (nat (part_end se n)) blob =
      take (nat ((n - 1) * u_PartSize se)) blob @ part_slice se blob n (p_Size (part_at se n))"
    by (simp add: part_slice_def take_add)
  have "nat (part_end se n) \<le> length blob" using p(4) by linarith
  with e p(2) show "int (length (part_slice se blob n (p_Size (part_at se n)))) = p_Size (part_at se n)"
    by (simp add: part_slice_def)
qed

text \<open>With every part received among the first \<open>n\<close> and no bytes past a part, they are the whole blob.\<close>

lemma trimmed_whole:
  assumes "recorded se blob" "whole se n" "trimmed se blob" "1 \<le> n"
    and "\<And>m. map_of (u_Parts se) m \<noteq> None \<Longrightarrow> m \<le> n"
  shows "int (length blob) = part_end se n"
proof -
  have n: "map_of (u_Parts se) n \<noteq> None" using assms(2,4) by (auto simp: whole_def)
  note at = recorded_at [OF assms(1) n]
  have "0 \<le> (n - 1) * u_PartSize se" using at(1-3) by simp
  with at(2,4) have "0 < int (length blob)" unfolding part_end_def by linarith
  then obtain m p where m: "map_of (u_Parts se) m = Some p"
    "int (length blob) = (m - 1) * u_PartSize se + p_Size p"
    using assms(3) by (auto simp: trimmed_def)
  then have "m \<le> n" "1 \<le> m" "p_Size p \<le> u_PartSize se"
    using assms(1,5) by (auto simp: recorded_def)
  show ?thesis
  proof (cases "m = n")
    case True
    with m show ?thesis by (simp add: part_end_def part_at_def)
  next
    case False
    with parts_apart [of m n "p_Size p" "u_PartSize se"] \<open>m \<le> n\<close> \<open>1 \<le> m\<close> \<open>p_Size p \<le> u_PartSize se\<close> m(2) at
    show ?thesis by (simp add: part_end_def)
  qed
qed

lemma part_end_before:
  "whole se n \<Longrightarrow> 1 \<le> k \<Longrightarrow> k < n \<Longrightarrow> part_end se k = k * u_PartSize se"
  by (auto simp: whole_def part_end_def algebra_simps)

text \<open>The pieces that were sent, in the order of their numbers, are the bytes up to the end of the last.\<close>

lemma concat_pieces:
  assumes "pieces se blob c" "whole se n" "1 \<le> k" "k \<le> n"
  shows "take (nat (part_end se k)) blob = concat (map (\<lambda>i. the (c i)) [1..k])"
proof -
  have rec: "recorded se blob" using assms(1) by (simp add: pieces_def)
  have slice: "map_of (u_Parts se) i \<noteq> None" "part_slice se blob i (p_Size (part_at se i)) = the (c i)"
    if "1 \<le> i" "i \<le> n" for i
  proof -
    show "map_of (u_Parts se) i \<noteq> None" using assms(2) that by (simp add: whole_def)
    then obtain p where p: "map_of (u_Parts se) i = Some p" by blast
    from piecesD [OF assms(1) p] obtain b where "c i = Some b" "part_slice se blob i (p_Size p) = b"
      by blast
    with p show "part_slice se blob i (p_Size (part_at se i)) = the (c i)" by (simp add: part_at_def)
  qed
  show ?thesis
    using assms(3,4)
  proof (induction "nat (k - 1)" arbitrary: k)
    case 0
    then have "k = 1" by simp
    with take_part(1) [OF rec slice(1), of 1] slice(2) [of 1] 0 show ?case by simp
  next
    case (Suc d)
    then have k: "1 \<le> k - 1" "k - 1 < n" by linarith+
    have "[1..k] = [1..k - 1] @ [k]" using k by (simp add: upto_rec2)
    with Suc.hyps(1) [of "k - 1"] Suc.hyps(2) Suc.prems k take_part(1) [OF rec slice(1), of k] slice(2) [of k]
      part_end_before [OF assms(2) k]
    show ?case by simp
  qed
qed

end
