(* ===== verification/Http_Spec.thy ===== *)
theory Http_Spec
  imports Http_Base Upload_Parts
begin

text \<open>
  What the server promises, without its code: the view of the stores, which blobs are owned, the
  consistency of a view, and the transitions a request may make of it, each with who may make it.
  The handlers are shown to make no other transition; what follows here from a transition
  therefore holds of every request.
\<close>

section \<open>Owners of blobs\<close>

datatype owner = ObjectAt gostring gostring | SessionOf gostring

fun blob_of :: "view \<Rightarrow> owner \<Rightarrow> gostring option" where
  "blob_of v (ObjectAt b k) = map_option o_BlobID (v_objects v (b, k))"
| "blob_of v (SessionOf i) = map_option u_BlobID (v_uploads v i)"

definition unowned :: "view \<Rightarrow> gostring \<Rightarrow> bool" where
  "unowned v i \<longleftrightarrow> (\<forall>x. blob_of v x \<noteq> Some i)"

text \<open>The blobs of every owner outside \<open>X\<close> are as they were.\<close>

definition keeps_blobs :: "view \<Rightarrow> (gostring \<Rightarrow> byte list option) \<Rightarrow> owner set \<Rightarrow> bool" where
  "keeps_blobs v B X \<longleftrightarrow> (\<forall>x i. x \<notin> X \<longrightarrow> blob_of v x = Some i \<longrightarrow> B i = v_blobs v i)"

section \<open>Consistency\<close>

text \<open>
  Rows carry their own names; names and keys are valid; objects and sessions lie in existing
  buckets; every row's blob exists, and no two rows share one.
\<close>

definition consistent :: "view \<Rightarrow> bool" where
  "consistent v \<longleftrightarrow>
     (\<forall>n b. v_buckets v n = Some b \<longrightarrow> b_Name b = n \<and> ValidateBucketName n = None) \<and>
     (\<forall>b k ob. v_objects v (b, k) = Some ob \<longrightarrow>
        o_Bucket ob = b \<and> o_Key ob = k \<and> v_buckets v b \<noteq> None \<and> ValidateObjectKey k = None) \<and>
     (\<forall>i se. v_uploads v i = Some se \<longrightarrow>
        u_ID se = i \<and> v_buckets v (u_Bucket se) \<noteq> None \<and> ValidateObjectKey (u_Key se) = None) \<and>
     (\<forall>x i. blob_of v x = Some i \<longrightarrow> v_blobs v i \<noteq> None) \<and>
     (\<forall>x y i. blob_of v x = Some i \<longrightarrow> blob_of v y = Some i \<longrightarrow> x = y)"

text \<open>An object whose blob holds as many bytes as its row says, with the checksum its row says.\<close>

definition intact :: "view \<Rightarrow> object \<Rightarrow> bool" where
  "intact v ob \<longleftrightarrow>
     (case v_blobs v (o_BlobID ob) of
        None \<Rightarrow> False
      | Some bytes \<Rightarrow> o_Size ob = int (length bytes) \<and> o_Checksum ob = EncodeCRC32C (crc32c bytes))"

section \<open>Transitions\<close>

text \<open>
  Part sizes and numbers that the specification covers, far above the limits of the server: within
  them no offset in a blob wraps.
\<close>

definition max_part_size :: int where "max_part_size = 2 ^ 40"
definition max_part_number :: int where "max_part_number = 2 ^ 20"

lemmas part_limit_defs = max_part_size_def max_part_number_def

definition part_offset :: "upload_session \<Rightarrow> int \<Rightarrow> int" where
  "part_offset se n = int64 (int64 (n - 1) * u_PartSize se)"

text \<open>
  \<open>places_part v B se n bytes\<close>: the blobs \<open>B\<close> are those of \<open>v\<close> with \<open>bytes\<close>, no more than a part holds,
  written over the place of part \<open>n\<close> of the session.
\<close>

definition places_part :: "view \<Rightarrow> (gostring \<Rightarrow> byte list option) \<Rightarrow> upload_session \<Rightarrow> int \<Rightarrow> byte list \<Rightarrow> bool" where
  "places_part v B se n bytes \<longleftrightarrow>
     1 \<le> n \<and> n \<le> max_part_number \<and> 0 \<le> part_offset se n \<and> int (length bytes) \<le> u_PartSize se \<and>
     (\<exists>old. v_blobs v (u_BlobID se) = Some old \<and>
        B (u_BlobID se) = Some (write_at old (nat (part_offset se n)) bytes))"

text \<open>
  The object is the first \<open>n\<close> parts: when what the session records of them is true of the blob, its
  size and its checksum are those of the parts' bytes in order.
\<close>

definition assembled :: "view \<Rightarrow> upload_session \<Rightarrow> int \<Rightarrow> object \<Rightarrow> bool" where
  "assembled v se n ob \<longleftrightarrow> 1 \<le> n \<and> whole se n \<and>
     (\<forall>bytes. v_blobs v (u_BlobID se) = Some bytes \<longrightarrow> recorded se bytes \<longrightarrow> int (length bytes) < 2 ^ 63 \<longrightarrow>
        o_Size ob = part_end se n \<and> o_Checksum ob = EncodeCRC32C (crc32c (take (nat (part_end se n)) bytes)))"

text \<open>\<open>transition c ok v v'\<close>: the caller \<open>c\<close> may take \<open>v\<close> to \<open>v'\<close> in a request answered with success (\<open>ok\<close>) or not.\<close>

inductive transition :: "apikey option \<Rightarrow> bool \<Rightarrow> view \<Rightarrow> view \<Rightarrow> bool" where
  Quiet: "keeps_blobs v B {} \<Longrightarrow> transition c ok v (v\<lparr>v_blobs := B\<rparr>)"
| NewKey: "k_Admin a \<Longrightarrow> v_keys v i = None \<Longrightarrow> transition (Some a) True v (v\<lparr>v_keys := (v_keys v)(i \<mapsto> k)\<rparr>)"
| SetKey: "k_Admin a \<Longrightarrow> v_keys v i = Some old \<Longrightarrow>
    transition (Some a) True v (v\<lparr>v_keys := (v_keys v)(i \<mapsto> k)\<rparr>)"
| DropKey: "k_Admin a \<Longrightarrow> v_keys v i = Some old \<Longrightarrow>
    transition (Some a) True v (v\<lparr>v_keys := (v_keys v)(i := None)\<rparr>)"
| NewBucket: "k_Admin a \<Longrightarrow> v_buckets v n = None \<Longrightarrow> ValidateBucketName n = None \<Longrightarrow> b_Name b = n \<Longrightarrow>
    transition (Some a) True v (v\<lparr>v_buckets := (v_buckets v)(n \<mapsto> b)\<rparr>)"
| SetBucket: "k_Admin a \<Longrightarrow> v_buckets v n = Some b \<Longrightarrow>
    transition (Some a) True v (v\<lparr>v_buckets := (v_buckets v)(n \<mapsto> b\<lparr>b_Public := p\<rparr>)\<rparr>)"
| DropBucket: "k_Admin a \<Longrightarrow> v_buckets v n = Some b \<Longrightarrow> (\<And>k. v_objects v (n, k) = None) \<Longrightarrow>
    (\<And>i se. v_uploads v i = Some se \<Longrightarrow> u_Bucket se \<noteq> n) \<Longrightarrow>
    transition (Some a) True v (v\<lparr>v_buckets := (v_buckets v)(n := None)\<rparr>)"
| StoreObject: "Allows a Write (o_Bucket ob) \<Longrightarrow> v_buckets v (o_Bucket ob) \<noteq> None \<Longrightarrow>
    ValidateObjectKey (o_Key ob) = None \<Longrightarrow> unowned v (o_BlobID ob) \<Longrightarrow>
    intact (v\<lparr>v_blobs := B\<rparr>) ob \<Longrightarrow> keeps_blobs v B {ObjectAt (o_Bucket ob) (o_Key ob)} \<Longrightarrow>
    transition (Some a) True v
      (v\<lparr>v_objects := (v_objects v)((o_Bucket ob, o_Key ob) \<mapsto> ob), v_blobs := B\<rparr>)"
| DropObject: "Allows a Write b \<Longrightarrow> v_objects v (b, k) = Some ob \<Longrightarrow> keeps_blobs v B {ObjectAt b k} \<Longrightarrow>
    transition (Some a) True v (v\<lparr>v_objects := (v_objects v)((b, k) := None), v_blobs := B\<rparr>)"
| NewSession: "Allows a Write (u_Bucket se) \<Longrightarrow> v_buckets v (u_Bucket se) \<noteq> None \<Longrightarrow>
    ValidateObjectKey (u_Key se) = None \<Longrightarrow> v_uploads v (u_ID se) = None \<Longrightarrow> unowned v (u_BlobID se) \<Longrightarrow>
    1 \<le> u_PartSize se \<Longrightarrow> u_PartSize se \<le> max_part_size \<Longrightarrow>
    u_Parts se = [] \<Longrightarrow> B (u_BlobID se) = Some [] \<Longrightarrow> keeps_blobs v B {} \<Longrightarrow>
    transition (Some a) True v (v\<lparr>v_uploads := (v_uploads v)(u_ID se \<mapsto> se), v_blobs := B\<rparr>)"
| WritePart: "Allows a Write (u_Bucket se) \<Longrightarrow> v_uploads v i = Some se \<Longrightarrow> places_part v B se n bytes \<Longrightarrow>
    keeps_blobs v B {SessionOf i} \<Longrightarrow> transition (Some a) False v (v\<lparr>v_blobs := B\<rparr>)"
| RecordPart: "Allows a Write (u_Bucket se) \<Longrightarrow> v_uploads v i = Some se \<Longrightarrow> places_part v B se n bytes \<Longrightarrow>
    bytes \<noteq> [] \<Longrightarrow> keeps_blobs v B {SessionOf i} \<Longrightarrow>
    transition (Some a) True v (v\<lparr>v_uploads := (v_uploads v)(i \<mapsto> with_part se n bytes), v_blobs := B\<rparr>)"
| FinishSession: "Allows a Write (u_Bucket se) \<Longrightarrow> v_uploads v i = Some se \<Longrightarrow> o_Bucket ob = u_Bucket se \<Longrightarrow>
    o_Key ob = u_Key se \<Longrightarrow> o_BlobID ob = u_BlobID se \<Longrightarrow> assembled v se n ob \<Longrightarrow>
    keeps_blobs v B {ObjectAt (u_Bucket se) (u_Key se)} \<Longrightarrow>
    transition (Some a) True v
      (v\<lparr>v_objects := (v_objects v)((u_Bucket se, u_Key se) \<mapsto> ob), v_uploads := (v_uploads v)(i := None),
         v_blobs := B\<rparr>)"
| DropSession: "Allows a Write (u_Bucket se) \<Longrightarrow> v_uploads v i = Some se \<Longrightarrow> keeps_blobs v B {SessionOf i} \<Longrightarrow>
    transition (Some a) True v (v\<lparr>v_uploads := (v_uploads v)(i := None), v_blobs := B\<rparr>)"

inductive_cases transition_anonymousE: "transition None ok v v'"
inductive_cases transition_refusedE: "transition c False v v'"

lemma keeps_same [simp]: "keeps_blobs v (v_blobs v) X"
  by (simp add: keeps_blobs_def)

lemma transition_same [simp]: "transition c ok v v"
  using Quiet [of v "v_blobs v" c ok] by simp

section \<open>What a transition preserves\<close>

lemma consistentD:
  assumes "consistent v"
  shows "v_buckets v n = Some b \<Longrightarrow> b_Name b = n \<and> ValidateBucketName n = None"
    "v_objects v (n, k) = Some ob \<Longrightarrow>
       o_Bucket ob = n \<and> o_Key ob = k \<and> v_buckets v n \<noteq> None \<and> ValidateObjectKey k = None"
    "v_uploads v i = Some se \<Longrightarrow>
       u_ID se = i \<and> v_buckets v (u_Bucket se) \<noteq> None \<and> ValidateObjectKey (u_Key se) = None"
    "blob_of v x = Some i \<Longrightarrow> v_blobs v i \<noteq> None"
    "blob_of v x = Some i \<Longrightarrow> blob_of v y = Some i \<Longrightarrow> x = y"
  using assms unfolding consistent_def by blast+

lemma blob_of_blobs [simp]: "blob_of (v\<lparr>v_blobs := B\<rparr>) x = blob_of v x"
  by (cases x) simp_all

lemma blob_of_keys [simp]: "blob_of (v\<lparr>v_keys := K\<rparr>) x = blob_of v x"
  "blob_of (v\<lparr>v_buckets := Bk\<rparr>) x = blob_of v x"
  by (cases x; simp)+

lemma consistent_keys [simp]: "consistent (v\<lparr>v_keys := K\<rparr>) = consistent v"
  by (simp add: consistent_def)

lemma consistent_empty:
  assumes "v_buckets v = Map.empty" "v_objects v = Map.empty" "v_uploads v = Map.empty"
  shows "consistent v"
proof -
  have "blob_of v x = None" for x using assms by (cases x) simp_all
  then show ?thesis using assms by (simp add: consistent_def)
qed

text \<open>New blobs, as long as every owner's still exists.\<close>

lemma consistent_blobs:
  assumes "consistent v" "\<And>x i. blob_of v x = Some i \<Longrightarrow> B i \<noteq> None"
  shows "consistent (v\<lparr>v_blobs := B\<rparr>)"
  using assms by (simp add: consistent_def)

lemma keeps_blobs_exist:
  assumes "consistent v" "keeps_blobs v B X" "blob_of v x = Some i" "x \<notin> X"
  shows "B i \<noteq> None"
  using assms consistentD(4) [OF assms(1,3)] by (simp add: keeps_blobs_def)

lemma keeps_object:
  "keeps_blobs v B X \<Longrightarrow> v_objects v (b, k) = Some ob \<Longrightarrow> ObjectAt b k \<notin> X \<Longrightarrow>
     B (o_BlobID ob) = v_blobs v (o_BlobID ob)"
  unfolding keeps_blobs_def by (metis blob_of.simps(1) option.simps(9))

lemma keeps_session:
  "keeps_blobs v B X \<Longrightarrow> v_uploads v i = Some se \<Longrightarrow> SessionOf i \<notin> X \<Longrightarrow>
     B (u_BlobID se) = v_blobs v (u_BlobID se)"
  unfolding keeps_blobs_def by (metis blob_of.simps(2) option.simps(9))

lemma consistent_quiet: "consistent v \<Longrightarrow> keeps_blobs v B {} \<Longrightarrow> consistent (v\<lparr>v_blobs := B\<rparr>)"
  by (rule consistent_blobs) (auto dest: keeps_blobs_exist)

text \<open>One object row set, one dropped, one session row set, one dropped: what becomes of the owners.\<close>

lemma blob_of_object_put:
  "blob_of (v\<lparr>v_objects := (v_objects v)((b, k) \<mapsto> ob)\<rparr>) x =
     (if x = ObjectAt b k then Some (o_BlobID ob) else blob_of v x)"
  by (cases x) auto

lemma blob_of_object_del:
  "blob_of (v\<lparr>v_objects := (v_objects v)((b, k) := None)\<rparr>) x =
     (if x = ObjectAt b k then None else blob_of v x)"
  by (cases x) auto

lemma blob_of_session_put:
  "blob_of (v\<lparr>v_uploads := (v_uploads v)(i \<mapsto> se)\<rparr>) x =
     (if x = SessionOf i then Some (u_BlobID se) else blob_of v x)"
  by (cases x) auto

lemma blob_of_session_del:
  "blob_of (v\<lparr>v_uploads := (v_uploads v)(i := None)\<rparr>) x =
     (if x = SessionOf i then None else blob_of v x)"
  by (cases x) auto

lemma consistent_object_put:
  assumes "consistent v" "v_buckets v (o_Bucket ob) \<noteq> None" "ValidateObjectKey (o_Key ob) = None"
    "v_blobs v (o_BlobID ob) \<noteq> None"
    "\<And>x. blob_of v x = Some (o_BlobID ob) \<Longrightarrow> x = ObjectAt (o_Bucket ob) (o_Key ob)"
  shows "consistent (v\<lparr>v_objects := (v_objects v)((o_Bucket ob, o_Key ob) \<mapsto> ob)\<rparr>)"
  using assms(2-5) consistentD [OF assms(1)]
  unfolding consistent_def blob_of_object_put by (auto split: if_splits)

lemma consistent_object_del:
  assumes "consistent v"
  shows "consistent (v\<lparr>v_objects := (v_objects v)((b, k) := None)\<rparr>)"
  using consistentD [OF assms]
  unfolding consistent_def blob_of_object_del by (auto split: if_splits)

lemma consistent_session_put:
  assumes "consistent v" "v_buckets v (u_Bucket se) \<noteq> None" "ValidateObjectKey (u_Key se) = None"
    "v_blobs v (u_BlobID se) \<noteq> None" "\<And>x. blob_of v x = Some (u_BlobID se) \<Longrightarrow> x = SessionOf (u_ID se)"
  shows "consistent (v\<lparr>v_uploads := (v_uploads v)(u_ID se \<mapsto> se)\<rparr>)"
  using assms(2-5) consistentD [OF assms(1)]
  unfolding consistent_def blob_of_session_put by (auto split: if_splits)

lemma consistent_session_del:
  assumes "consistent v"
  shows "consistent (v\<lparr>v_uploads := (v_uploads v)(i := None)\<rparr>)"
  using consistentD [OF assms]
  unfolding consistent_def blob_of_session_del by (auto split: if_splits)

lemma consistent_bucket_put:
  assumes "consistent v" "b_Name b = n" "ValidateBucketName n = None"
  shows "consistent (v\<lparr>v_buckets := (v_buckets v)(n \<mapsto> b)\<rparr>)"
  using assms(2,3) consistentD [OF assms(1)]
  unfolding consistent_def blob_of_keys by (auto split: if_splits)

lemma consistent_bucket_del:
  assumes "consistent v" "\<And>k. v_objects v (n, k) = None"
    "\<And>i se. v_uploads v i = Some se \<Longrightarrow> u_Bucket se \<noteq> n"
  shows "consistent (v\<lparr>v_buckets := (v_buckets v)(n := None)\<rparr>)"
  using assms(2,3) consistentD [OF assms(1)]
  unfolding consistent_def blob_of_keys by (auto split: if_splits)

text \<open>A row set to a blob that may be new, and the blobs of the others kept.\<close>

lemma consistent_object_store:
  assumes "consistent v" "v_buckets v (o_Bucket ob) \<noteq> None" "ValidateObjectKey (o_Key ob) = None"
    "\<And>x. blob_of v x = Some (o_BlobID ob) \<Longrightarrow> x = ObjectAt (o_Bucket ob) (o_Key ob)"
    "B (o_BlobID ob) \<noteq> None" "keeps_blobs v B {ObjectAt (o_Bucket ob) (o_Key ob)}"
  shows "consistent (v\<lparr>v_objects := (v_objects v)((o_Bucket ob, o_Key ob) \<mapsto> ob), v_blobs := B\<rparr>)"
proof -
  let ?B0 = "(v_blobs v)(o_BlobID ob \<mapsto> [])"
  let ?v1 = "v\<lparr>v_blobs := ?B0\<rparr>"
  have "consistent ?v1"
    using consistentD(4) [OF assms(1)] by (intro consistent_blobs [OF assms(1)]) auto
  then have "consistent (?v1\<lparr>v_objects := (v_objects ?v1)((o_Bucket ob, o_Key ob) \<mapsto> ob)\<rparr>)"
    by (rule consistent_object_put) (use assms(2-4) in simp_all)
  then have "consistent (?v1\<lparr>v_objects := (v_objects ?v1)((o_Bucket ob, o_Key ob) \<mapsto> ob)\<rparr>\<lparr>v_blobs := B\<rparr>)"
  proof (rule consistent_blobs)
    fix x i
    assume "blob_of (?v1\<lparr>v_objects := (v_objects ?v1)((o_Bucket ob, o_Key ob) \<mapsto> ob)\<rparr>) x = Some i"
    then show "B i \<noteq> None"
      using assms(5) keeps_blobs_exist [OF assms(1,6)]
      unfolding blob_of_object_put by (auto split: if_splits)
  qed
  then show ?thesis by simp
qed

lemma consistent_session_store:
  assumes "consistent v" "v_buckets v (u_Bucket se) \<noteq> None" "ValidateObjectKey (u_Key se) = None"
    "\<And>x. blob_of v x = Some (u_BlobID se) \<Longrightarrow> x = SessionOf (u_ID se)"
    "B (u_BlobID se) \<noteq> None" "keeps_blobs v B {SessionOf (u_ID se)}"
  shows "consistent (v\<lparr>v_uploads := (v_uploads v)(u_ID se \<mapsto> se), v_blobs := B\<rparr>)"
proof -
  let ?B0 = "(v_blobs v)(u_BlobID se \<mapsto> [])"
  let ?v1 = "v\<lparr>v_blobs := ?B0\<rparr>"
  have "consistent ?v1"
    using consistentD(4) [OF assms(1)] by (intro consistent_blobs [OF assms(1)]) auto
  then have "consistent (?v1\<lparr>v_uploads := (v_uploads ?v1)(u_ID se \<mapsto> se)\<rparr>)"
    by (rule consistent_session_put) (use assms(2-4) in simp_all)
  then have "consistent (?v1\<lparr>v_uploads := (v_uploads ?v1)(u_ID se \<mapsto> se)\<rparr>\<lparr>v_blobs := B\<rparr>)"
  proof (rule consistent_blobs)
    fix x i
    assume "blob_of (?v1\<lparr>v_uploads := (v_uploads ?v1)(u_ID se \<mapsto> se)\<rparr>) x = Some i"
    then show "B i \<noteq> None"
      using assms(5) keeps_blobs_exist [OF assms(1,6)]
      unfolding blob_of_session_put by (auto split: if_splits)
  qed
  then show ?thesis by simp
qed

lemma transition_consistent: "transition c ok v v' \<Longrightarrow> consistent v \<Longrightarrow> consistent v'"
proof (induction rule: transition.induct)
  case (StoreObject a ob v B)
  then show ?case
    by (intro consistent_object_store) (auto simp: unowned_def intact_def split: option.splits)
next
  case (DropObject a b v k ob B)
  have "consistent (v\<lparr>v_objects := (v_objects v)((b, k) := None)\<rparr>\<lparr>v_blobs := B\<rparr>)"
    using DropObject keeps_blobs_exist [of v B]
    by (intro consistent_blobs consistent_object_del) (auto simp: blob_of_object_del split: if_splits)
  then show ?case by simp
next
  case (NewSession a se v B)
  then show ?case
    by (intro consistent_session_store) (auto simp: unowned_def keeps_blobs_def)
next
  case (WritePart a se v i B n bytes)
  then show ?case
    using keeps_blobs_exist [OF WritePart(5) WritePart(4)]
    by (intro consistent_blobs)
      (auto simp: places_part_def, metis blob_of.simps(2) option.simps(9) option.inject singletonD)
next
  case (RecordPart a se v i B n bytes)
  have i: "u_ID se = i" "v_buckets v (u_Bucket se) \<noteq> None" "ValidateObjectKey (u_Key se) = None"
    using consistentD(3) [OF RecordPart(6) RecordPart(2)] by auto
  have own: "blob_of v (SessionOf i) = Some (u_BlobID se)"
    using RecordPart(2) by simp
  have "consistent (v\<lparr>v_uploads := (v_uploads v)(u_ID (with_part se n bytes) \<mapsto> with_part se n bytes), v_blobs := B\<rparr>)"
  proof (rule consistent_session_store [OF RecordPart(6)])
    show "x = SessionOf (u_ID (with_part se n bytes))"
      if "blob_of v x = Some (u_BlobID (with_part se n bytes))" for x
      using that consistentD(5) [OF RecordPart(6) own, of x] i(1) by simp
  qed (use RecordPart(3,5) i in \<open>auto simp: places_part_def\<close>)
  then show ?case using i by simp
next
  case (FinishSession a se v i ob n B)
  have i: "u_ID se = i" "v_buckets v (u_Bucket se) \<noteq> None" "ValidateObjectKey (u_Key se) = None"
    using consistentD(3) [OF FinishSession(8) FinishSession(2)] by auto
  have own: "blob_of v (SessionOf i) = Some (u_BlobID se)"
    using FinishSession(2) by simp
  let ?v1 = "v\<lparr>v_uploads := (v_uploads v)(i := None)\<rparr>"
  have c1: "consistent ?v1" by (rule consistent_session_del) fact
  have "B (u_BlobID se) \<noteq> None"
    by (rule keeps_blobs_exist [OF FinishSession(8,7) own]) simp
  moreover have "keeps_blobs ?v1 B {ObjectAt (u_Bucket se) (u_Key se)}"
    using FinishSession(7) unfolding keeps_blobs_def blob_of_session_del by simp
  moreover have "blob_of ?v1 x \<noteq> Some (u_BlobID se)" for x
    using consistentD(5) [OF FinishSession(8) own] unfolding blob_of_session_del by auto
  ultimately have "consistent (?v1\<lparr>v_objects := (v_objects ?v1)((o_Bucket ob, o_Key ob) \<mapsto> ob), v_blobs := B\<rparr>)"
    using FinishSession(3-5) i by (intro consistent_object_store [OF c1]) auto
  moreover have "?v1\<lparr>v_objects := O1, v_blobs := B\<rparr> =
      v\<lparr>v_objects := O1, v_uploads := (v_uploads v)(i := None), v_blobs := B\<rparr>" for O1
    by (rule view.equality) simp_all
  ultimately show ?case using FinishSession(3,4) by simp
next
  case (DropSession a se v i B)
  have "consistent (v\<lparr>v_uploads := (v_uploads v)(i := None)\<rparr>\<lparr>v_blobs := B\<rparr>)"
    using DropSession keeps_blobs_exist [of v B]
    by (intro consistent_blobs consistent_session_del) (auto simp: blob_of_session_del split: if_splits)
  then show ?case by simp
next
  case (SetBucket a v n b p)
  then show ?case using consistentD(1) [of v n b]
    by (intro consistent_bucket_put) auto
qed (simp_all add: consistent_quiet consistent_bucket_put consistent_bucket_del)

text \<open>A refused request leaves every row as it was, and every owned blob outside a session.\<close>

lemma transition_refused:
  "transition c False v v' \<Longrightarrow>
     v' = v\<lparr>v_blobs := v_blobs v'\<rparr> \<and>
     (\<forall>b k ob. v_objects v (b, k) = Some ob \<longrightarrow> v_blobs v' (o_BlobID ob) = v_blobs v (o_BlobID ob))"
  by (erule transition_refusedE) (auto dest: keeps_object)

text \<open>Without a caller nothing changes but blobs no row owns.\<close>

lemma transition_anonymous:
  "transition None ok v v' \<Longrightarrow> v' = v\<lparr>v_blobs := v_blobs v'\<rparr> \<and> keeps_blobs v (v_blobs v') {}"
  by (erule transition_anonymousE) simp

text \<open>Keys and buckets change only for an admin caller, objects and sessions only for a writer of their bucket.\<close>

lemma transition_admin:
  "transition c ok v v' \<Longrightarrow> v_keys v' \<noteq> v_keys v \<or> v_buckets v' \<noteq> v_buckets v \<Longrightarrow>
     \<exists>a. c = Some a \<and> k_Admin a"
  by (erule transition.cases) auto

lemma transition_writer:
  "transition c ok v v' \<Longrightarrow> v_objects v' (b, k) \<noteq> v_objects v (b, k) \<Longrightarrow>
     \<exists>a. c = Some a \<and> Allows a Write b"
  by (erule transition.cases) (auto split: if_splits)

lemma transition_session_writer:
  "transition c ok v v' \<Longrightarrow> v_uploads v' i \<noteq> v_uploads v i \<Longrightarrow>
     \<exists>a se. c = Some a \<and> Allows a Write (u_Bucket se) \<and> (v_uploads v i = Some se \<or> v_uploads v' i = Some se)"
  by (erule transition.cases) (auto split: if_splits)

text \<open>As long as a row keeps its blob, the bytes of the blob stay what they are.\<close>

lemma transition_immutable:
  assumes "transition c ok v v'" "consistent v" "v_objects v (b, k) = Some ob"
    "v_objects v' (b, k) = Some ob'" "o_BlobID ob' = o_BlobID ob"
  shows "v_blobs v' (o_BlobID ob) = v_blobs v (o_BlobID ob)"
proof -
  have own: "blob_of v (ObjectAt b k) = Some (o_BlobID ob)" using assms(3) by simp
  have inj: "blob_of v y = Some (o_BlobID ob) \<Longrightarrow> y = ObjectAt b k" for y
    using consistentD(5) [OF assms(2) own] by simp
  have keep: "keeps_blobs v B X \<Longrightarrow> ObjectAt b k \<notin> X \<Longrightarrow> B (o_BlobID ob) = v_blobs v (o_BlobID ob)" for B X
    using own by (simp add: keeps_blobs_def)
  from assms(1) show ?thesis
  proof cases
    case (StoreObject a o2 B)
    then have "o_BlobID o2 \<noteq> o_BlobID ob"
      using own unfolding unowned_def by metis
    with StoreObject assms(4,5) have "(o_Bucket o2, o_Key o2) \<noteq> (b, k)" by auto
    with StoreObject keep [of B] show ?thesis by auto
  next
    case (DropObject a b2 k2 o2 B)
    with assms(4) keep [of B] show ?thesis by (auto split: if_splits)
  next
    case (FinishSession a se i o2 n B)
    then have "blob_of v (SessionOf i) = Some (u_BlobID se)" by simp
    then have "u_BlobID se \<noteq> o_BlobID ob" using inj [of "SessionOf i"] by fastforce
    with FinishSession assms(4,5) have "(u_Bucket se, u_Key se) \<noteq> (b, k)" by auto
    with FinishSession keep [of B] show ?thesis by auto
  qed (use keep in auto)
qed

section \<open>The promises, as predicates\<close>

definition same_rows :: "view \<Rightarrow> view \<Rightarrow> bool" where
  "same_rows v v' \<longleftrightarrow> v_keys v' = v_keys v \<and> v_buckets v' = v_buckets v \<and> v_objects v' = v_objects v \<and>
     v_uploads v' = v_uploads v"

text \<open>Every object that keeps its blob keeps its bytes.\<close>

definition bytes_kept :: "view \<Rightarrow> view \<Rightarrow> bool" where
  "bytes_kept v v' \<longleftrightarrow>
     (\<forall>p ob ob'. v_objects v p = Some ob \<longrightarrow> v_objects v' p = Some ob' \<longrightarrow> o_BlobID ob' = o_BlobID ob \<longrightarrow>
        v_blobs v' (o_BlobID ob) = v_blobs v (o_BlobID ob))"

text \<open>Who made the change: an admin for keys and buckets, a writer of the bucket for objects and sessions.\<close>

definition changed_by :: "(apikey \<Rightarrow> bool) \<Rightarrow> view \<Rightarrow> view \<Rightarrow> bool" where
  "changed_by who v v' \<longleftrightarrow>
     (v_keys v' \<noteq> v_keys v \<or> v_buckets v' \<noteq> v_buckets v \<longrightarrow> (\<exists>a. who a \<and> k_Admin a)) \<and>
     (\<forall>b k. v_objects v' (b, k) \<noteq> v_objects v (b, k) \<longrightarrow> (\<exists>a. who a \<and> Allows a Write b)) \<and>
     (\<forall>i. v_uploads v' i \<noteq> v_uploads v i \<longrightarrow>
        (\<exists>a se. who a \<and> Allows a Write (u_Bucket se) \<and> (v_uploads v i = Some se \<or> v_uploads v' i = Some se)))"

lemma transition_same_rows: "transition c False v v' \<Longrightarrow> same_rows v v'"
  using transition_refused [of c v v'] unfolding same_rows_def by (metis view.select_convs(1-4) view.surjective view.update_convs(5))

lemma transition_bytes_kept:
  assumes "transition c ok v v'" "consistent v"
  shows "bytes_kept v v'"
  unfolding bytes_kept_def
proof (intro allI impI)
  fix p ob ob'
  assume "v_objects v p = Some ob" "v_objects v' p = Some ob'" "o_BlobID ob' = o_BlobID ob"
  then show "v_blobs v' (o_BlobID ob) = v_blobs v (o_BlobID ob)"
    using transition_immutable [OF assms] by (cases p) auto
qed

lemma transition_changed_by:
  assumes "transition c ok v v'" "\<And>k. c = Some k \<Longrightarrow> who k"
  shows "changed_by who v v'"
  unfolding changed_by_def
  using transition_admin [OF assms(1)] transition_writer [OF assms(1)] transition_session_writer [OF assms(1)] assms(2)
  by metis

end
