(* ===== verification/Go_UrlParse.thy ===== *)
theory Go_UrlParse
  imports Go_Url Go_Text
begin

text \<open>
  \<open>url.Parse\<close> as far as a URL with an authority goes: scheme, user information, host, path, query
  and fragment, with Go's checks on each; and \<open>Hostname\<close> and \<open>Port\<close>.  What stands inside the
  brackets of an IP literal is checked for its characters only.
\<close>

record url =
  ul_scheme :: gostring
  ul_opaque :: gostring
  ul_user :: bool
  ul_host :: gostring
  ul_path :: gostring
  ul_query :: gostring
  ul_fragment :: gostring

section \<open>Scheme\<close>

definition is_alpha :: "char \<Rightarrow> bool" where
  "is_alpha c \<longleftrightarrow> (65 \<le> code_of c \<and> code_of c \<le> 90) \<or> (97 \<le> code_of c \<and> code_of c \<le> 122)"

text \<open>\<open>getScheme\<close>: the scheme before the first colon, \<open>None\<close> for an error; \<open>acc\<close> is what was read.\<close>

fun get_scheme :: "gostring \<Rightarrow> gostring \<Rightarrow> gostring \<Rightarrow> (gostring \<times> gostring) option" where
  "get_scheme raw acc [] = Some ([], raw)"
| "get_scheme raw acc (c # s) =
     (if is_alpha c then get_scheme raw (acc @ [c]) s
      else if is_digit c \<or> c = CHR ''+'' \<or> c = CHR ''-'' \<or> c = CHR ''.'' then
        (if acc = [] then Some ([], raw) else get_scheme raw (acc @ [c]) s)
      else if c = CHR '':'' then (if acc = [] then None else Some (acc, s))
      else Some ([], raw))"

section \<open>Host\<close>

text \<open>What precedes and follows the last occurrence of a byte.\<close>

definition cut_last :: "char \<Rightarrow> gostring \<Rightarrow> gostring \<times> gostring \<times> bool" where
  "cut_last sep s = (case Cut (rev s) sep of (a, b, ok) \<Rightarrow> (rev b, rev a, ok))"

fun validOptionalPort :: "gostring \<Rightarrow> bool" where
  "validOptionalPort [] = True"
| "validOptionalPort (c # s) = (c = CHR '':'' \<and> list_all is_digit s)"

definition host_char :: "char \<Rightarrow> bool" where
  "host_char c \<longleftrightarrow>
     code_of c \<ge> 128 \<or> is_alpha c \<or> is_digit c \<or> c \<in> set ''!$&()*+,;=:[]<>-_.~'' \<or>
     code_of c = 34 \<or> code_of c = 39"

fun host_unescape :: "bool \<Rightarrow> gostring \<Rightarrow> gostring option" where
  "host_unescape zone [] = Some []"
| "host_unescape zone (c # s) =
     (if c = CHR ''%'' then
        (case s of
           a # b # t \<Rightarrow>
             (case (unhex a, unhex b) of
                (Some x, Some y) \<Rightarrow>
                  if (if zone then 16 * x + y \<noteq> 37 \<and> 16 * x + y \<noteq> 32 \<and> \<not> host_char (char_of (16 * x + y))
                      else x < 8 \<and> 16 * x + y \<noteq> 37) then None
                  else map_option (\<lambda>u. char_of (16 * x + y) # u) (host_unescape zone t)
              | _ \<Rightarrow> None)
         | _ \<Rightarrow> None)
      else if \<not> host_char c then None
      else map_option (\<lambda>u. c # u) (host_unescape zone s))"

definition parseHost :: "gostring \<Rightarrow> gostring option" where
  "parseHost host =
     (if HasPrefix host ''['' then
        (case cut_last (CHR '']'') host of (before, colonPort, ok) \<Rightarrow>
           if \<not> ok \<or> \<not> validOptionalPort colonPort then None
           else (case split_str ''%25'' before of
                   [_] \<Rightarrow> host_unescape False host
                 | pre # zs \<Rightarrow>
                     (case (host_unescape False pre, host_unescape True (''%25'' @ join_with ''%25'' zs),
                            host_unescape False (CHR '']'' # colonPort)) of
                        (Some h1, Some h2, Some h3) \<Rightarrow> Some (h1 @ h2 @ h3)
                      | _ \<Rightarrow> None)
                 | [] \<Rightarrow> None))
      else (case cut_last (CHR '':'') host of (_, port, ok) \<Rightarrow>
              if ok \<and> \<not> list_all is_digit port then None else host_unescape False host))"

section \<open>The URL\<close>

definition ctl_byte :: "char \<Rightarrow> bool" where
  "ctl_byte c \<longleftrightarrow> code_of c < 32 \<or> code_of c = 127"

definition parse_rest :: "gostring \<Rightarrow> gostring \<Rightarrow> gostring \<Rightarrow> url option" where
  "parse_rest scheme rest query =
     (let base = \<lparr>ul_scheme = scheme, ul_opaque = [], ul_user = False, ul_host = [], ul_path = [],
                  ul_query = query, ul_fragment = []\<rparr> in
      if \<not> HasPrefix rest ''/'' \<and> scheme \<noteq> [] then Some (base\<lparr>ul_opaque := rest\<rparr>)
      else if \<not> HasPrefix rest ''/'' \<and> contains_char (fst (Cut rest (CHR ''/''))) (CHR '':'') then None
      else if (scheme \<noteq> [] \<or> \<not> HasPrefix rest ''///'') \<and> HasPrefix rest ''//'' then
        (case Cut (drop 2 rest) (CHR ''/'') of (authority, p, slash) \<Rightarrow>
          (case cut_last (CHR ''@'') authority of (_, hostpart, user) \<Rightarrow>
            (case (parseHost (if user then hostpart else authority),
                   PathUnescape (if slash then CHR ''/'' # p else [])) of
               (Some host, Some path) \<Rightarrow> Some (base\<lparr>ul_user := user, ul_host := host, ul_path := path\<rparr>)
             | _ \<Rightarrow> None)))
      else map_option (\<lambda>path. base\<lparr>ul_path := path\<rparr>) (PathUnescape rest))"

definition url_Parse :: "gostring \<Rightarrow> url option" where
  "url_Parse raw =
     (case Cut raw (CHR ''#'') of (u, frag, _) \<Rightarrow>
        if list_ex ctl_byte u then None
        else if u = ''*'' then
          (if PathUnescape frag = None then None
           else Some \<lparr>ul_scheme = [], ul_opaque = [], ul_user = False, ul_host = [], ul_path = ''*'',
                      ul_query = [], ul_fragment = frag\<rparr>)
        else (case get_scheme u [] u of
                None \<Rightarrow> None
              | Some (scheme, after) \<Rightarrow>
                  (case Cut after (CHR ''?'') of (rest, query, _) \<Rightarrow>
                     (case parse_rest (ToLower scheme) rest query of
                        None \<Rightarrow> None
                      | Some p \<Rightarrow> if PathUnescape frag = None then None
                                  else Some (p\<lparr>ul_fragment := frag\<rparr>)))))"

text \<open>\<open>splitHostPort\<close>.\<close>

definition Hostname :: "url \<Rightarrow> gostring" where
  "Hostname u =
     (let h = (case cut_last (CHR '':'') (ul_host u) of (a, p, ok) \<Rightarrow>
                 if ok \<and> list_all is_digit p then a else ul_host u)
      in if HasPrefix h ''['' \<and> suffix '']'' h then butlast (tl h) else h)"

definition Port :: "url \<Rightarrow> gostring" where
  "Port u =
     (case cut_last (CHR '':'') (ul_host u) of (a, p, ok) \<Rightarrow> if ok \<and> list_all is_digit p then p else [])"

end
