(* ===== verification/Tunna_Cors.thy ===== *)
theory Tunna_Cors
  imports Go_UrlParse
begin

text \<open>
  \<open>cors.go\<close>: the allowlist of browser origins, its parsing and its matcher.  An entry is kept
  normalised; the request's origin is normalised the same way before it is compared.
\<close>

record origin =
  og_scheme :: gostring
  og_host :: gostring
  og_port :: gostring
  og_wildcard :: bool

record origins =
  oo_all :: bool
  oo_entries :: "origin list"

definition no_origins :: origins where
  "no_origins = \<lparr>oo_all = False, oo_entries = []\<rparr>"

definition normalize :: "url \<Rightarrow> gostring \<times> gostring" where
  "normalize u =
     (let host = ToLower (Hostname u); port = Port u
      in (host, if (ul_scheme u = ''http'' \<and> port = ''80'') \<or> (ul_scheme u = ''https'' \<and> port = ''443'')
                then [] else port))"

datatype origin_err = OriginSyntax gostring | OriginScheme gostring | OriginNoHost gostring
  | OriginMore gostring | OriginStar gostring

fun parse_entry :: "gostring \<Rightarrow> origin_err + origin" where
  "parse_entry trimmed =
     (case url_Parse trimmed of
        None \<Rightarrow> Inl (OriginSyntax trimmed)
      | Some u \<Rightarrow>
          if ul_scheme u \<noteq> ''http'' \<and> ul_scheme u \<noteq> ''https'' then Inl (OriginScheme trimmed)
          else if ul_host u = [] \<or> Hostname u = [] then Inl (OriginNoHost trimmed)
          else if ul_path u \<noteq> [] \<or> ul_query u \<noteq> [] \<or> ul_fragment u \<noteq> [] \<or> ul_user u then Inl (OriginMore trimmed)
          else (case normalize u of (host0, port) \<Rightarrow>
            (case CutPrefix host0 ''*.'' of (rest, wildcard) \<Rightarrow>
               let host = (if wildcard then rest else host0) in
               if host = [] \<or> contains_char host (CHR ''*'') then Inl (OriginStar trimmed)
               else Inr \<lparr>og_scheme = ul_scheme u, og_host = host, og_port = port, og_wildcard = wildcard\<rparr>)))"

fun parse_entries :: "gostring list \<Rightarrow> origins \<Rightarrow> origin_err + origins" where
  "parse_entries [] acc = Inr acc"
| "parse_entries (e # es) acc =
     (let trimmed = TrimSpace e in
      if trimmed = ''*'' then parse_entries es (acc\<lparr>oo_all := True\<rparr>)
      else (case parse_entry trimmed of
              Inl err \<Rightarrow> Inl err
            | Inr og \<Rightarrow> parse_entries es (acc\<lparr>oo_entries := oo_entries acc @ [og]\<rparr>)))"

definition ParseOrigins :: "gostring list \<Rightarrow> origin_err + origins" where
  "ParseOrigins entries = parse_entries entries no_origins"

definition entry_matches :: "origin \<Rightarrow> gostring \<Rightarrow> gostring \<Rightarrow> gostring \<Rightarrow> bool" where
  "entry_matches e scheme host port =
     (if og_scheme e \<noteq> scheme \<or> og_port e \<noteq> port then False
      else if \<not> og_wildcard e then host = og_host e
      else (case CutSuffix host (''.'' @ og_host e) of (label, ok) \<Rightarrow>
              ok \<and> label \<noteq> [] \<and> \<not> contains_char label (CHR ''.'')))"

definition Match :: "origins \<Rightarrow> gostring \<Rightarrow> gostring option" where
  "Match og requestOrigin =
     (if requestOrigin = [] then None
      else if oo_all og then Some ''*''
      else (case url_Parse requestOrigin of
              None \<Rightarrow> None
            | Some u \<Rightarrow>
                if ul_scheme u \<noteq> ''http'' \<and> ul_scheme u \<noteq> ''https'' then None
                else if ul_host u = [] \<or> Hostname u = [] then None
                else if ul_path u \<noteq> [] \<or> ul_query u \<noteq> [] \<or> ul_fragment u \<noteq> [] \<or> ul_user u then None
                else (case normalize u of (host, port) \<Rightarrow>
                  if list_ex (\<lambda>e. entry_matches e (ul_scheme u) host port) (oo_entries og)
                  then Some requestOrigin else None)))"

definition origin_text :: "origin \<Rightarrow> gostring" where
  "origin_text e =
     og_scheme e @ ''://'' @ (if og_wildcard e then ''*.'' else []) @ og_host e @
     (if og_port e = [] then [] else CHR '':'' # og_port e)"

definition Origins_String :: "origins \<Rightarrow> gostring" where
  "Origins_String og =
     ''['' @ join_with '', '' ((if oo_all og then [''*''] else []) @ map origin_text (oo_entries og)) @ '']''"

section \<open>Lemmas\<close>

lemma contains_char_iff: "contains_char s c \<longleftrightarrow> c \<in> set s"
  by (simp add: contains_char_def)

lemma parse_entries_all: "parse_entries es acc = Inr og \<Longrightarrow> oo_all og \<longleftrightarrow> oo_all acc \<or> ''*'' \<in> TrimSpace ` set es"
  by (induction es arbitrary: acc) (auto simp: Let_def simp del: parse_entry.simps split: if_splits sum.splits)

lemma parse_entries_entries:
  "parse_entries es acc = Inr og \<Longrightarrow>
   oo_entries og = oo_entries acc @ map (\<lambda>e. projr (parse_entry (TrimSpace e))) (filter (\<lambda>e. TrimSpace e \<noteq> ''*'') es) \<and>
   (\<forall>e \<in> set es. TrimSpace e \<noteq> ''*'' \<longrightarrow> is_ok (parse_entry (TrimSpace e)))"
  by (induction es arbitrary: acc) (auto simp: Let_def simp del: parse_entry.simps split: if_splits sum.splits)

text \<open>What a configured entry keeps of the URL it was written as.\<close>

lemma parse_entryD:
  assumes "parse_entry t = Inr og"
  obtains u where "url_Parse t = Some u" "ul_scheme u = ''http'' \<or> ul_scheme u = ''https''"
    "ul_host u \<noteq> []" "Hostname u \<noteq> []" "ul_path u = []" "ul_query u = []" "ul_fragment u = []" "\<not> ul_user u"
    "og_scheme og = ul_scheme u" "og_port og = snd (normalize u)"
    "fst (normalize u) = (if og_wildcard og then ''*.'' else []) @ og_host og"
    "og_host og \<noteq> []" "CHR ''*'' \<notin> set (og_host og)"
  using assms
  by (auto simp: Let_def contains_char_iff CutPrefix_def prefix_def
      split: option.splits prod.splits if_splits)

section \<open>Properties\<close>

text \<open>An origin as the matcher accepts it: scheme, host and port of http or https, nothing more.\<close>

definition plain_origin :: "url \<Rightarrow> bool" where
  "plain_origin u \<longleftrightarrow>
     ul_scheme u \<in> {''http'', ''https''} \<and> ul_host u \<noteq> [] \<and> Hostname u \<noteq> [] \<and>
     ul_path u = [] \<and> ul_query u = [] \<and> ul_fragment u = [] \<and> \<not> ul_user u"


text \<open>
  A configured origin lets itself through: a list of one entry that parses either holds the
  star, or one wildcard entry, or answers the entry's own text with that text.
\<close>

lemma cors_entry_matches_itself:
  "case ParseOrigins [s] of
     Inl _ \<Rightarrow> True
   | Inr og \<Rightarrow> oo_all og \<or> (\<exists>e. oo_entries og = [e] \<and>
       (og_wildcard e \<or> Match og (TrimSpace s) = Some (TrimSpace s)))"
proof (cases "TrimSpace s = ''*'' \<or> (\<exists>err. parse_entry (TrimSpace s) = Inl err)")
  case True
  then show ?thesis by (auto simp: ParseOrigins_def Let_def no_origins_def simp del: parse_entry.simps)
next
  case False
  then obtain e where e: "parse_entry (TrimSpace s) = Inr e" "TrimSpace s \<noteq> ''*''"
    by (cases "parse_entry (TrimSpace s)") auto
  from e(1) show ?thesis
  proof (rule parse_entryD)
    fix u assume u: "url_Parse (TrimSpace s) = Some u" "ul_scheme u = ''http'' \<or> ul_scheme u = ''https''"
      "ul_host u \<noteq> []" "Hostname u \<noteq> []" "ul_path u = []" "ul_query u = []" "ul_fragment u = []" "\<not> ul_user u"
      "og_scheme e = ul_scheme u" "og_port e = snd (normalize u)"
      "fst (normalize u) = (if og_wildcard e then ''*.'' else []) @ og_host e"
    have "TrimSpace s \<noteq> []"
    proof
      assume "TrimSpace s = []"
      with u(1) have "url_Parse [] = Some u" by simp
      then have "ul_scheme u = []" by (auto simp: url_Parse_def parse_rest_def HasPrefix_def contains_char_def PathUnescape_def)
      with u(2) show False by auto
    qed
    with e u show ?thesis
      by (cases "normalize u")
        (auto simp: ParseOrigins_def Let_def no_origins_def Match_def entry_matches_def simp del: parse_entry.simps)
  qed
qed

end
