(* ===== verification/Sig_Encode.thy ===== *)
theory Sig_Encode
  imports Go_Url
begin

text \<open>
  Canonical percent-encoding (\<open>sig/encode.go\<close>): one encoding of segments, paths and queries
  shared by clients and server, with its round trip through \<open>url.PathUnescape\<close>, its
  injectivity, and the independence of the query form from the iteration order of the map.
\<close>

definition upperHex :: gostring where
  "upperHex = ''0123456789ABCDEF''"

definition isUnreserved :: "char \<Rightarrow> bool" where
  "isUnreserved c =
     ((65 \<le> code_of c \<and> code_of c \<le> 90) \<or>
      (97 \<le> code_of c \<and> code_of c \<le> 122) \<or>
      (48 \<le> code_of c \<and> code_of c \<le> 57) \<or>
      c = CHR ''-'' \<or> c = CHR ''.'' \<or> c = CHR ''_'' \<or> c = CHR ''~'')"

fun EncodeSegment :: "gostring \<Rightarrow> gostring" where
  "EncodeSegment [] = []"
| "EncodeSegment (c # s) =
     (if isUnreserved c then c # EncodeSegment s
      else CHR ''%'' # upperHex ! (code_of c div 16) # upperHex ! (code_of c mod 16)
             # EncodeSegment s)"

definition EncodePath :: "gostring list \<Rightarrow> gostring" where
  "EncodePath segments = ''/'' @ join_with ''/'' (map EncodeSegment segments)"

text \<open>The pairs collected by the two loops of \<open>EncodeQuery\<close>, in the map's order.\<close>

definition encoded_params :: "url_values \<Rightarrow> (gostring \<times> gostring) list" where
  "encoded_params params =
     concat (map (\<lambda>(name, values). map (\<lambda>v. (EncodeSegment name, EncodeSegment v)) values) params)"

definition EncodeQuery :: "url_values \<Rightarrow> gostring" where
  "EncodeQuery params =
     join_with ''&'' (map (\<lambda>(n, v). n @ ''='' @ v) (sort (encoded_params params)))"

section \<open>Hexadecimal digits\<close>

lemma upperHex_cases:
  assumes "n < 16"
  shows "unhex (upperHex ! n) = Some n" and "isUnreserved (upperHex ! n)"
proof -
  have "n \<in> set [0..<16]" using assms by simp
  then have "unhex (upperHex ! n) = Some n \<and> isUnreserved (upperHex ! n)"
    by (auto simp: upperHex_def unhex_def isUnreserved_def upt_rec)
  then show "unhex (upperHex ! n) = Some n" "isUnreserved (upperHex ! n)"
    by simp_all
qed

lemma code_div16: "code_of c div 16 < 16" "code_of c mod 16 < 16"
  using code_of_less [of c] by (auto simp: less_mult_imp_div_less)

lemma isUnreserved_not:
  "isUnreserved c \<Longrightarrow> c \<noteq> CHR ''%'' \<and> c \<noteq> CHR ''/'' \<and> c \<noteq> CHR ''&'' \<and> c \<noteq> CHR ''='' \<and>
    c \<noteq> CHR 0x0A \<and> c \<noteq> CHR ''+'' \<and> c \<noteq> CHR '';''"
  by (auto simp: isUnreserved_def)

section \<open>Segments\<close>

lemma EncodeSegment_chars: "c \<in> set (EncodeSegment s) \<Longrightarrow> isUnreserved c \<or> c = CHR ''%''"
  by (induction s) (auto simp: upperHex_cases code_div16 split: if_splits)

lemma EncodeSegment_notin:
  "c \<in> set (EncodeSegment s) \<Longrightarrow>
   c \<noteq> CHR ''/'' \<and> c \<noteq> CHR ''&'' \<and> c \<noteq> CHR ''='' \<and> c \<noteq> CHR 0x0A \<and> c \<noteq> CHR ''+'' \<and> c \<noteq> CHR '';''"
  using EncodeSegment_chars isUnreserved_not by fastforce

lemma EncodeSegment_free [simp]:
  "CHR ''/'' \<notin> set (EncodeSegment s)" "CHR ''&'' \<notin> set (EncodeSegment s)"
  "CHR ''='' \<notin> set (EncodeSegment s)" "CHR 0x0A \<notin> set (EncodeSegment s)"
  "CHR ''+'' \<notin> set (EncodeSegment s)" "CHR '';'' \<notin> set (EncodeSegment s)"
  using EncodeSegment_notin by blast+

lemma EncodeSegment_Nil [simp]: "EncodeSegment s = [] \<longleftrightarrow> s = []"
  by (cases s) auto

lemma unescape_EncodeSegment: "unescape pl (EncodeSegment s) = Some s"
proof (induction s)
  case (Cons c s)
  have "16 * (code_of c div 16) + code_of c mod 16 = code_of c"
    by simp
  with Cons show ?case
    using isUnreserved_not [of c] by (simp add: upperHex_cases code_div16)
qed simp

lemma EncodeSegment_inj: "EncodeSegment s = EncodeSegment t \<Longrightarrow> s = t"
  using unescape_EncodeSegment by (metis option.inject)

section \<open>Paths\<close>

lemma EncodePath_inj:
  assumes "EncodePath xs = EncodePath ys" "xs \<noteq> [[]]" "ys \<noteq> [[]]"
  shows "xs = ys"
proof -
  have eq: "join_with ''/'' (map EncodeSegment xs) = join_with ''/'' (map EncodeSegment ys)"
    using assms(1) by (simp add: EncodePath_def)
  have no: "CHR ''/'' \<notin> set w" if "w \<in> set (map EncodeSegment zs)" for w zs
    using that by auto
  have Nil: "map EncodeSegment zs = [] \<or> map EncodeSegment zs = [[]]
      \<longleftrightarrow> join_with ''/'' (map EncodeSegment zs) = []" for zs
    by (metis join_with_eq_Nil)
  have "map EncodeSegment xs = map EncodeSegment ys"
  proof (cases "xs = [] \<or> ys = []")
    case True
    with eq assms(2,3) show ?thesis
      using Nil [of xs] Nil [of ys] by (auto simp: map_eq_Cons_conv)
  next
    case False
    then show ?thesis
      using join_with_inj [OF eq] no by simp
  qed
  then show ?thesis
    using EncodeSegment_inj by (metis inj_onI list.inj_map_strong)
qed

lemma EncodePath_no_newline: "CHR 0x0A \<notin> set (EncodePath segs)"
  using set_join_with [of "''/''" "map EncodeSegment segs"] EncodeSegment_notin
  by (fastforce simp: EncodePath_def)

section \<open>Queries\<close>

text \<open>The decoded pairs a query holds, as a multiset would count them.\<close>

definition query_list :: "url_values \<Rightarrow> (gostring \<times> gostring) list" where
  "query_list params = concat (map (\<lambda>(name, values). map (\<lambda>v. (name, v)) values) params)"

lemma encoded_params_query_list:
  "encoded_params q = map (map_prod EncodeSegment EncodeSegment) (query_list q)"
  by (induction q) (auto simp: encoded_params_def query_list_def)

lemma mset_query_list_perm:
  "mset q = mset q' \<Longrightarrow> mset (query_list q) = mset (query_list q')"
proof -
  have "mset (query_list q) = \<Sum>\<^sub># (image_mset (\<lambda>(n, vs). mset (map (\<lambda>v. (n, v)) vs)) (mset q))"
    for q :: url_values
    by (induction q) (auto simp: query_list_def)
  then show "mset q = mset q' \<Longrightarrow> mset (query_list q) = mset (query_list q')"
    by simp
qed

lemma EncodeQuery_cong:
  assumes "mset (query_list q) = mset (query_list q')"
  shows "EncodeQuery q = EncodeQuery q'"
proof -
  have "mset (encoded_params q) = mset (encoded_params q')"
    using assms by (simp add: encoded_params_query_list)
  then have "sort (encoded_params q) = sort (encoded_params q')"
    by (metis mset_sort properties_for_sort sorted_sort)
  then show ?thesis by (simp add: EncodeQuery_def)
qed

lemma append_sep_inj:
  "(c :: char) \<notin> set n \<Longrightarrow> c \<notin> set n' \<Longrightarrow> n @ c # v = n' @ c # v' \<longleftrightarrow> n = n' \<and> v = v'"
  by (metis Cut_append Pair_inject)

lemma EncodeSegment_pair_eq [simp]:
  "EncodeSegment n @ CHR ''='' # EncodeSegment v = EncodeSegment n' @ CHR ''='' # EncodeSegment v'
     \<longleftrightarrow> n = n' \<and> v = v'"
  by (auto simp: append_sep_inj dest: EncodeSegment_inj)

lemma query_list_decode:
  "map (map_prod (the \<circ> unescape False) (the \<circ> unescape False)) (encoded_params q) = query_list q"
  by (simp add: encoded_params_query_list unescape_EncodeSegment comp_def map_prod_def split_def)

lemma EncodeQuery_inj:
  assumes "EncodeQuery q = EncodeQuery q'"
  shows "mset (query_list q) = mset (query_list q')"
proof -
  let ?f = "\<lambda>(n :: gostring, v :: gostring). n @ ''='' @ v"
  let ?p = "\<lambda>q. sort (encoded_params q)"
  have no: "CHR ''&'' \<notin> set w" if "w \<in> set (map ?f (?p q))" for w q
    using that by (auto simp: encoded_params_query_list)
  have eq: "join_with ''&'' (map ?f (?p q)) = join_with ''&'' (map ?f (?p q'))"
    using assms by (simp add: EncodeQuery_def)
  have Nil: "?p q = [] \<longleftrightarrow> join_with ''&'' (map ?f (?p q)) = []" for q
    by (cases "?p q") (auto simp: join_with_eq_Nil)
  have "map ?f (?p q) = map ?f (?p q')"
  proof (cases "?p q = [] \<or> ?p q' = []")
    case True
    with eq Nil [of q] Nil [of q'] show ?thesis by auto
  next
    case False
    then show ?thesis
      using join_with_inj [OF eq] no by simp
  qed
  moreover have "inj_on ?f (set (?p q) \<union> set (?p q'))"
    by (rule inj_onI) (auto simp: encoded_params_query_list)
  ultimately have "?p q = ?p q'"
    using map_inj_on by blast
  then have "mset (encoded_params q) = mset (encoded_params q')"
    by (metis mset_sort)
  then have "mset (map (map_prod (the \<circ> unescape False) (the \<circ> unescape False)) (encoded_params q)) =
      mset (map (map_prod (the \<circ> unescape False) (the \<circ> unescape False)) (encoded_params q'))"
    unfolding mset_map by (rule arg_cong)
  then show ?thesis
    by (simp only: query_list_decode)
qed

lemma EncodeQuery_no_newline: "CHR 0x0A \<notin> set (EncodeQuery q)"
proof -
  have "CHR 0x0A \<notin> set (n @ ''='' @ v)" if "(n, v) \<in> set (sort (encoded_params q))" for n v
    using that by (auto simp: encoded_params_query_list)
  then show ?thesis
    using set_join_with [of "''&''" "map (\<lambda>(n, v). n @ ''='' @ v) (sort (encoded_params q))"]
    by (fastforce simp: EncodeQuery_def)
qed

end
