(* ===== verification/Sig_Sign.thy ===== *)
theory Sig_Sign
  imports Sig_Encode Go_Text Go_Sha256
begin

text \<open>
  The canonical request and its signature (\<open>sig/sign.go\<close>), in header form and in presigned
  form.  The main result is that the canonical form determines what it signs: two requests
  with the same canonical string agree on method, path, query, signed header names and values,
  and time.
\<close>

section \<open>Definitions\<close>

definition Scheme :: gostring where "Scheme = ''TUNNA1''"
definition Algorithm :: gostring where "Algorithm = Scheme @ ''-HMAC-SHA256''"
definition ParamKey :: gostring where "ParamKey = ''x-tunna-key''"
definition ParamExpires :: gostring where "ParamExpires = ''x-tunna-expires''"
definition ParamSig :: gostring where "ParamSig = ''x-tunna-sig''"
definition ParamHeaders :: gostring where "ParamHeaders = ''x-tunna-headers''"

datatype sig_mode = Header | Presign

record sig_key =
  sk_ID :: gostring
  sk_Secret :: gostring

record sig_request =
  sr_Method :: gostring
  sr_Path :: "gostring list"
  sr_Query :: url_values
  sr_Headers :: "(gostring, gostring) gomap"
  sr_SignedHeaders :: "gostring list"

text \<open>The loop over the header map: the first key that matches, in iteration order.\<close>

fun headerValue :: "(gostring, gostring) gomap \<Rightarrow> gostring \<Rightarrow> gostring option" where
  "headerValue [] name = None"
| "headerValue ((k, v) # hs) name = (if EqualFold k name then Some v else headerValue hs name)"

definition signedHeaderNames :: "sig_request \<Rightarrow> gostring list" where
  "signedHeaderNames req = sort (map ToLower (sr_SignedHeaders req))"

definition presignValues :: "sig_request \<Rightarrow> sig_key \<Rightarrow> int \<Rightarrow> url_values" where
  "presignValues req key expires =
     Values_Set
       (Values_Set
         (Values_Set (sr_Query req) ParamKey (sk_ID key))
         ParamExpires (FormatInt expires))
       ParamHeaders (join_with '';'' (signedHeaderNames req))"

fun header_block :: "(gostring, gostring) gomap \<Rightarrow> gostring list \<Rightarrow> gostring list" where
  "header_block hs [] = []"
| "header_block hs (name # names) =
     (case headerValue hs name of
        None \<Rightarrow> header_block hs names
      | Some found \<Rightarrow> (name @ '':'' @ join_with '' '' (Fields found)) # header_block hs names)"

definition canonical_query :: "sig_request \<Rightarrow> sig_key \<Rightarrow> int \<Rightarrow> sig_mode \<Rightarrow> url_values" where
  "canonical_query req key timestamp mode =
     (if mode = Header then sr_Query req else presignValues req key timestamp)"

definition newline :: char where "newline = CHR 0x0A"

definition Canonical :: "sig_request \<Rightarrow> sig_key \<Rightarrow> int \<Rightarrow> sig_mode \<Rightarrow> gostring" where
  "Canonical req key timestamp mode =
     (let signedHeaders = signedHeaderNames req;
          headerBlock = header_block (sr_Headers req) signedHeaders
      in join_with [newline]
           [Scheme, sr_Method req, EncodePath (sr_Path req),
            EncodeQuery (canonical_query req key timestamp mode),
            join_with '';'' signedHeaders, join_with [newline] headerBlock, FormatInt timestamp])"

definition Signature :: "gostring \<Rightarrow> gostring \<Rightarrow> gostring" where
  "Signature secret canonical = hex_encode (hmac_sha256 (bytes_of secret) (bytes_of canonical))"

definition Authorization :: "sig_request \<Rightarrow> sig_key \<Rightarrow> int \<Rightarrow> gostring" where
  "Authorization req key timestamp =
     Algorithm @ '' key='' @ sk_ID key @ '', headers='' @ join_with '';'' (signedHeaderNames req)
       @ '', sig='' @ Signature (sk_Secret key) (Canonical req key timestamp Header)"

definition PresignQuery :: "sig_request \<Rightarrow> sig_key \<Rightarrow> int \<Rightarrow> gostring" where
  "PresignQuery req key expires =
     EncodeQuery (presignValues req key expires) @ ''&'' @ ParamSig @ ''=''
       @ Signature (sk_Secret key) (Canonical req key expires Presign)"

lemmas param_defs = ParamKey_def ParamExpires_def ParamSig_def ParamHeaders_def

section \<open>The signature\<close>

lemma length_Signature [simp]: "length (Signature s c) = 64"
  by (simp add: Signature_def)

lemma Signature_chars: "c \<in> set (Signature s m) \<Longrightarrow> is_lower_hex c"
  by (auto simp: Signature_def dest: hex_encode_chars)

lemma Signature_nonempty [simp]: "Signature s m \<noteq> []"
  using length_Signature [of s m] by (metis list.size(3) zero_neq_numeral)

section \<open>Splitting a canonical request into its lines\<close>

lemma split_on_append_any:
  "split_on sep (s @ sep # t) = split_on sep s @ split_on sep t"
proof (induction s)
  case (Cons c s)
  then show ?case
    by (cases "split_on sep s") auto
qed simp

lemma split_on_join_any:
  "ls \<noteq> [] \<Longrightarrow> split_on sep (join_with [sep] ls) = concat (map (split_on sep) ls)"
  by (induction "[sep]" ls rule: join_with.induct) (simp_all add: split_on_append_any)

definition header_text_ok :: "gostring \<Rightarrow> bool" where
  "header_text_ok h \<longleftrightarrow> h \<noteq> [] \<and> newline \<notin> set h \<and> CHR '';'' \<notin> set h"

text \<open>What a caller must respect for the canonical form to be unambiguous.\<close>

definition signable :: "sig_request \<Rightarrow> bool" where
  "signable req \<longleftrightarrow>
     newline \<notin> set (sr_Method req) \<and> sr_Path req \<noteq> [[]] \<and>
     (\<forall>h \<in> set (sr_SignedHeaders req). header_text_ok h \<and> headerValue (sr_Headers req) (ToLower h) \<noteq> None)"

lemma newline_code [simp]: "code_of newline = 10"
  by (simp add: newline_def)

lemma FormatInt_no_newline: "newline \<notin> set (FormatInt i)"
  using FormatInt_chars [of newline i] by (auto simp: is_digit_def newline_def)

lemma header_text_ok_ToLower: "header_text_ok h \<Longrightarrow> header_text_ok (ToLower h)"
  by (simp add: header_text_ok_def ToLower_notin)

lemma signedHeaderNames_ok: "signable req \<Longrightarrow> n \<in> set (signedHeaderNames req) \<Longrightarrow> header_text_ok n"
  by (auto simp: signedHeaderNames_def signable_def header_text_ok_ToLower)

lemma signedHeaderNames_found:
  "signable req \<Longrightarrow> n \<in> set (signedHeaderNames req) \<Longrightarrow> headerValue (sr_Headers req) n \<noteq> None"
  by (auto simp: signedHeaderNames_def signable_def)

lemma names_no_newline:
  assumes "signable req"
  shows "newline \<notin> set (join_with '';'' (signedHeaderNames req))"
  using set_join_with [of "'';''" "signedHeaderNames req"] signedHeaderNames_ok [OF assms]
  by (fastforce simp: header_text_ok_def newline_def)

definition normal_value :: "sig_request \<Rightarrow> gostring \<Rightarrow> gostring" where
  "normal_value req n =
     (case headerValue (sr_Headers req) n of None \<Rightarrow> [] | Some v \<Rightarrow> join_with '' '' (Fields v))"

lemma normal_value_no_newline: "newline \<notin> set (normal_value req n)"
proof -
  have "newline \<notin> set (join_with '' '' (Fields v))" for v
    using set_join_with [of "'' ''" "Fields v"] Fields_no_space [of _ v newline]
    by (fastforce simp: newline_def ascii_space_def)
  then show ?thesis by (auto simp: normal_value_def split: option.splits)
qed

lemma header_block_signable:
  assumes "signable req"
  shows "header_block (sr_Headers req) (signedHeaderNames req) =
    map (\<lambda>n. n @ '':'' @ normal_value req n) (signedHeaderNames req)"
proof -
  have "header_block hs ns = map (\<lambda>n. n @ '':'' @ (case headerValue hs n of None \<Rightarrow> []
      | Some v \<Rightarrow> join_with '' '' (Fields v))) ns"
    if "\<forall>n \<in> set ns. headerValue hs n \<noteq> None" for hs ns
    using that by (induction ns) (auto split: option.splits)
  then show ?thesis
    using signedHeaderNames_found [OF assms] by (simp add: normal_value_def)
qed

lemma header_lines_no_newline:
  assumes "signable req" "l \<in> set (header_block (sr_Headers req) (signedHeaderNames req))"
  shows "newline \<notin> set l"
  using assms signedHeaderNames_ok [OF assms(1)] normal_value_no_newline
  by (auto simp: header_block_signable header_text_ok_def newline_def)

lemma Canonical_lines:
  assumes "signable req"
  shows "split_on newline (Canonical req key ts mode) =
    [Scheme, sr_Method req, EncodePath (sr_Path req), EncodeQuery (canonical_query req key ts mode),
     join_with '';'' (signedHeaderNames req)]
    @ split_on newline (join_with [newline] (header_block (sr_Headers req) (signedHeaderNames req)))
    @ [FormatInt ts]"
proof -
  have "newline \<notin> set Scheme" by (simp add: Scheme_def newline_def)
  moreover have "newline \<notin> set (sr_Method req)" using assms by (simp add: signable_def)
  ultimately show ?thesis
    using EncodePath_no_newline EncodeQuery_no_newline names_no_newline [OF assms] FormatInt_no_newline
    by (simp add: Canonical_def Let_def split_on_append split_on_notin split_on_append_any flip: newline_def)
qed

lemma names_join_inj:
  assumes "signable req" "signable req'"
    and "join_with '';'' (signedHeaderNames req) = join_with '';'' (signedHeaderNames req')"
  shows "signedHeaderNames req = signedHeaderNames req'"
proof -
  have ne: "signedHeaderNames r \<noteq> [[]]" if "signable r" for r
    using signedHeaderNames_ok [OF that] by (auto simp: header_text_ok_def)
  show ?thesis
  proof (cases "signedHeaderNames req = [] \<or> signedHeaderNames req' = []")
    case True
    then show ?thesis
      using assms(3) ne [OF assms(1)] ne [OF assms(2)] by (metis join_with.simps(1) join_with_eq_Nil)
  next
    case False
    then show ?thesis
      using join_with_inj [OF assms(3)] signedHeaderNames_ok assms(1,2)
      by (auto simp: header_text_ok_def)
  qed
qed

lemma header_values_inj:
  assumes "signable req" "signable req'"
    and names: "signedHeaderNames req = signedHeaderNames req'"
    and eq: "join_with [newline] (header_block (sr_Headers req) (signedHeaderNames req)) =
      join_with [newline] (header_block (sr_Headers req') (signedHeaderNames req'))"
    and n: "n \<in> set (signedHeaderNames req)"
  shows "normal_value req n = normal_value req' n"
proof -
  have "header_block (sr_Headers r) (signedHeaderNames r) \<noteq> []" if "signable r" "n \<in> set (signedHeaderNames r)" for r
    using that by (auto simp: header_block_signable)
  then have "header_block (sr_Headers req) (signedHeaderNames req)
      = header_block (sr_Headers req') (signedHeaderNames req')"
    using join_with_inj [OF eq] header_lines_no_newline [OF assms(1)]
      header_lines_no_newline [OF assms(2)] assms(1,2) n by (metis names)
  then have "map (\<lambda>n. n @ '':'' @ normal_value req n) (signedHeaderNames req) =
      map (\<lambda>n. n @ '':'' @ normal_value req' n) (signedHeaderNames req)"
    using header_block_signable [OF assms(1)] header_block_signable [OF assms(2)] names by simp
  with n show ?thesis by simp
qed

section \<open>Independence of map order\<close>

lemma headerValue_perm:
  assumes "distinct (map (ToLower \<circ> fst) hs)" "mset hs = mset hs'"
  shows "headerValue hs n = headerValue hs' n"
proof -
  have iff: "headerValue hs n = Some v \<longleftrightarrow> (\<exists>k. (k, v) \<in> set hs \<and> EqualFold k n)"
    if "distinct (map (ToLower \<circ> fst) hs)" for hs v
    using that by (induction hs) (force simp: EqualFold_def)+
  have "distinct (map (ToLower \<circ> fst) hs')"
    using assms mset_eq_imp_distinct_iff [of "map (ToLower \<circ> fst) hs" "map (ToLower \<circ> fst) hs'"]
    by simp
  then have "headerValue hs n = Some v \<longleftrightarrow> headerValue hs' n = Some v" for v
    using iff assms mset_eq_setD [OF assms(2)] by simp
  then show ?thesis
    by (metis option.exhaust)
qed

lemma header_block_cong:
  "(\<And>n. headerValue hs n = headerValue hs' n) \<Longrightarrow> header_block hs ns = header_block hs' ns"
  by (induction ns) (simp_all split: option.splits)

section \<open>Properties\<close>

text \<open>
  C27. The canonical form is unambiguous: if two requests that respect the header rules (names
  non-empty without line break or semicolon, each present on the request) and possibly other
  keys, times and forms have the same canonical string, they have the same method, the same
  path segments, the same multiset of query parameters under the signature, the same signed
  header names with the same normalised values, and the same time.
\<close>

theorem canonical_unambiguous:
  assumes "signable req" "signable req'"
    and "Canonical req key ts mode = Canonical req' key' ts' mode'"
  shows "sr_Method req = sr_Method req' \<and> sr_Path req = sr_Path req' \<and>
    mset (query_list (canonical_query req key ts mode)) =
      mset (query_list (canonical_query req' key' ts' mode')) \<and>
    signedHeaderNames req = signedHeaderNames req' \<and>
    (\<forall>n \<in> set (signedHeaderNames req). normal_value req n = normal_value req' n) \<and> ts = ts'"
proof -
  let ?hb = "\<lambda>r. join_with [newline] (header_block (sr_Headers r) (signedHeaderNames r))"
  have *: "sr_Method req = sr_Method req'" "EncodePath (sr_Path req) = EncodePath (sr_Path req')"
    "EncodeQuery (canonical_query req key ts mode) = EncodeQuery (canonical_query req' key' ts' mode')"
    "join_with '';'' (signedHeaderNames req) = join_with '';'' (signedHeaderNames req')"
    "split_on newline (?hb req) = split_on newline (?hb req')" "FormatInt ts = FormatInt ts'"
    using arg_cong [OF assms(3), of "split_on newline"]
    unfolding Canonical_lines [OF assms(1)] Canonical_lines [OF assms(2)] by simp_all
  have names: "signedHeaderNames req = signedHeaderNames req'"
    using assms(1,2) *(4) by (rule names_join_inj)
  moreover have "?hb req = ?hb req'"
    using *(5) join_split_on by metis
  ultimately have "\<forall>n \<in> set (signedHeaderNames req). normal_value req n = normal_value req' n"
    using header_values_inj [OF assms(1,2)] by blast
  moreover have "sr_Path req = sr_Path req'"
    using EncodePath_inj [OF *(2)] assms(1,2) by (simp add: signable_def)
  ultimately show ?thesis
    using *(1) EncodeQuery_inj [OF *(3)] FormatInt_inj [OF *(6)] names by simp
qed

definition sample_request :: "url_values \<Rightarrow> (gostring, gostring) gomap \<Rightarrow> sig_request" where
  "sample_request q hs =
     \<lparr>sr_Method = ''PUT'', sr_Path = [''photos'', ''2026/cat''], sr_Query = q, sr_Headers = hs,
      sr_SignedHeaders = [''X-B'', ''X-A'']\<rparr>"

theorem canonical_unambiguous_witness:
  "sr_Path (sample_request [(''a'', [''1'']), (''b'', [''2''])] [(''X-A'', ''p''), (''X-B'', ''r'')]) =
     [''photos'', ''2026/cat''] \<and>
   normal_value (sample_request [(''a'', [''1'']), (''b'', [''2''])] [(''X-A'', ''p''), (''X-B'', ''r'')]) ''x-a'' =
     normal_value (sample_request [(''b'', [''2'']), (''a'', [''1''])] [(''x-b'', ''r''), (''x-a'', ''p'')]) ''x-a''"
proof -
  let ?r = "sample_request [(''a'', [''1'']), (''b'', [''2''])] [(''X-A'', ''p''), (''X-B'', ''r'')]"
  let ?r' = "sample_request [(''b'', [''2'']), (''a'', [''1''])] [(''x-b'', ''r''), (''x-a'', ''p'')]"
  have s: "signable ?r" "signable ?r'"
    by code_simp+
  have sh: "signedHeaderNames ?r = [''x-a'', ''x-b'']" "signedHeaderNames ?r' = [''x-a'', ''x-b'']"
    by code_simp+
  moreover have F: "Fields ''p'' = [''p'']" "Fields ''r'' = [''r'']"
    "ToLower ''X-A'' = ''x-a''" "ToLower ''X-B'' = ''x-b''" "ToLower ''x-a'' = ''x-a''" "ToLower ''x-b'' = ''x-b''"
    by code_simp+
  moreover from F have "header_block [(''X-A'', ''p''), (''X-B'', ''r'')] [''x-a'', ''x-b''] = [''x-a:p'', ''x-b:r'']"
    "header_block [(''x-b'', ''r''), (''x-a'', ''p'')] [''x-a'', ''x-b''] = [''x-a:p'', ''x-b:r'']"
    by (simp_all add: EqualFold_def F)
  moreover have "EncodeQuery [(''a'', [''1'']), (''b'', [''2''])] = ''a=1&b=2''" "EncodeQuery [(''b'', [''2'']), (''a'', [''1''])] = ''a=1&b=2''"
    by code_simp+
  ultimately have c: "Canonical ?r \<lparr>sk_ID = ''k'', sk_Secret = ''s''\<rparr> 5 Header =
      Canonical ?r' \<lparr>sk_ID = ''k'', sk_Secret = ''s''\<rparr> 5 Header"
    by (simp add: Canonical_def canonical_query_def Let_def sample_request_def)
  have n: "''x-a'' \<in> set (signedHeaderNames ?r)"
    by code_simp
  from canonical_unambiguous [OF s c] n show ?thesis
    by (auto simp: sample_request_def)
qed

text \<open>
  The canonical string does not depend on the iteration order of Go's maps: reordering the
  query map or the header map (whose names differ ignoring case) changes nothing.
\<close>

lemma canonical_map_order_independent:
  assumes "distinct (map (ToLower \<circ> fst) (sr_Headers req))"
    and "mset hs = mset (sr_Headers req)" and "mset q = mset (sr_Query req)"
  shows "Canonical (req\<lparr>sr_Headers := hs, sr_Query := q\<rparr>) key ts Header = Canonical req key ts Header"
proof -
  have "header_block hs ns = header_block (sr_Headers req) ns" for ns
    by (intro header_block_cong headerValue_perm [symmetric] assms(1) assms(2) [symmetric])
  moreover have "EncodeQuery q = EncodeQuery (sr_Query req)"
    using assms(3) by (intro EncodeQuery_cong mset_query_list_perm)
  ultimately show ?thesis
    by (simp add: Canonical_def canonical_query_def signedHeaderNames_def Let_def)
qed

lemma canonical_map_order_independent_sample:
  "Canonical (sample_request [(''b'', [''2'']), (''a'', [''1''])] [(''X-B'', ''r''), (''X-A'', ''p'')])
     \<lparr>sk_ID = ''k'', sk_Secret = ''s''\<rparr> 5 Header =
   Canonical (sample_request [(''a'', [''1'']), (''b'', [''2''])] [(''X-A'', ''p''), (''X-B'', ''r'')])
     \<lparr>sk_ID = ''k'', sk_Secret = ''s''\<rparr> 5 Header"
  using canonical_map_order_independent
    [of "sample_request [(''a'', [''1'']), (''b'', [''2''])] [(''X-A'', ''p''), (''X-B'', ''r'')]"
        "[(''X-B'', ''r''), (''X-A'', ''p'')]" "[(''b'', [''2'']), (''a'', [''1''])]"
        "\<lparr>sk_ID = ''k'', sk_Secret = ''s''\<rparr>" 5]
  by (simp add: sample_request_def ToLower_def lower_char_def)

end
