(* ===== verification/Http_Auth.thy ===== *)
theory Http_Auth
  imports Http_Base Tunna_Cors Sig_Sign Go_Sha256
begin

text \<open>
  \<open>auth.go\<close> and the middlewares of \<open>httpapi.go\<close>: the dependencies of the handlers, stage 2 of
  the pipeline (\<open>authenticate\<close> and its parsers) and the rules of stages 1 to 3 that wrap the
  routes.  A route takes the headers set so far, the request and the state of the stores.
\<close>

section \<open>Dependencies\<close>

record 's handler =
  h_serverVersion :: gostring
  h_keys :: "'s key_store"
  h_buckets :: "'s bucket_store"
  h_objects :: "'s object_store"
  h_blobs :: "'s blob_store"
  h_uploads :: "'s upload_store"
  h_skew :: int
  h_maxPresign :: int
  h_partSizeMin :: int
  h_partSizeMax :: int
  h_maxParts :: int
  h_uploadTTL :: int
  h_origins :: origins

text \<open>
  What one request draws from outside: the readings of the clock in the order the code takes
  them, the random bytes of a blob id, a session id, a key id and a secret (\<open>None\<close>: the source
  failed), the multipart boundary \<open>http.ServeContent\<close> draws, and what \<open>http.ParseTime\<close> makes of a date and
  \<open>strings.ToLower\<close> of a string outside ASCII.
\<close>

record env =
  ev_now :: "nat \<Rightarrow> time"
  ev_blob :: "byte list"
  ev_session :: "byte list"
  ev_keyid :: "byte list option"
  ev_secret :: "byte list option"
  ev_boundary :: gostring
  ev_ParseTime :: "gostring \<Rightarrow> time option"
  ev_lower :: "gostring \<Rightarrow> gostring"

type_synonym 's route = "header \<Rightarrow> request \<Rightarrow> 's \<Rightarrow> response \<times> 's"

type_synonym 's middleware = "'s route \<Rightarrow> 's route"

text \<open>\<open>chain\<close>: the first middleware listed runs first.\<close>

fun chain :: "'s route \<Rightarrow> 's middleware list \<Rightarrow> 's route" where
  "chain h [] = h"
| "chain h (m # ms) = m (chain h ms)"

text \<open>Whole seconds of a duration, cut towards zero.\<close>

definition dur_seconds :: "int \<Rightarrow> int" where
  "dur_seconds d = (if d < 0 then - (- d div Second) else d div Second)"

section \<open>Credentials\<close>

record credentials =
  cr_keyID :: gostring
  cr_signed :: "gostring list"
  cr_signature :: gostring

definition no_credentials :: credentials where
  "no_credentials = \<lparr>cr_keyID = [], cr_signed = [], cr_signature = []\<rparr>"

fun parse_fields :: "gostring list \<Rightarrow> credentials \<Rightarrow> gostring list \<Rightarrow> credentials option" where
  "parse_fields [] c seen = Some c"
| "parse_fields (fld # fs) c seen =
     (case Cut fld (CHR ''='') of (name, val, ok) \<Rightarrow>
        if \<not> ok \<or> name \<in> set seen then None
        else if name = ''key'' then parse_fields fs (c\<lparr>cr_keyID := val\<rparr>) (name # seen)
        else if name = ''headers'' then
          parse_fields fs (if val \<noteq> [] then c\<lparr>cr_signed := split_on (CHR '';'') val\<rparr> else c) (name # seen)
        else if name = ''sig'' then parse_fields fs (c\<lparr>cr_signature := val\<rparr>) (name # seen)
        else None)"

definition parseAuthorization :: "gostring \<Rightarrow> credentials option" where
  "parseAuthorization value =
     (case CutPrefix value (Algorithm @ '' '') of (rest, ok) \<Rightarrow>
        if \<not> ok then None
        else (case parse_fields (split_str '', '' rest) no_credentials [] of
                None \<Rightarrow> None
              | Some c \<Rightarrow> if cr_keyID c = [] \<or> cr_signature c = [] then None else Some c))"

definition parsePresign :: "url_values \<Rightarrow> credentials option" where
  "parsePresign query =
     (let c = \<lparr>cr_keyID = Values_Get query ParamKey, cr_signed = [], cr_signature = Values_Get query ParamSig\<rparr> in
      if cr_keyID c = [] then None
      else if cr_signature c = [] then None
      else let headers = Values_Get query ParamHeaders in
           Some (if headers \<noteq> [] then c\<lparr>cr_signed := split_on (CHR '';'') headers\<rparr> else c))"

fun path_segments :: "gostring list \<Rightarrow> gostring list option" where
  "path_segments [] = Some []"
| "path_segments (s # ss) =
     (case PathUnescape s of
        None \<Rightarrow> None
      | Some seg \<Rightarrow> map_option (\<lambda>segs. seg # segs) (path_segments ss))"

definition sigRequest :: "request \<Rightarrow> gostring list \<Rightarrow> sig_request option" where
  "sigRequest r names =
     (let raw = TrimPrefix (rq_EscapedPath r) ''/'' in
      case (if raw = [] then Some [] else path_segments (split_on (CHR ''/'') raw)) of
        None \<Rightarrow> None
      | Some segments \<Rightarrow>
          (case rawQuery r of
             None \<Rightarrow> None
           | Some query \<Rightarrow>
               Some \<lparr>sr_Method = rq_Method r, sr_Path = segments,
                     sr_Query = Values_Del query ParamSig,
                     sr_Headers = map (\<lambda>(name, values). (name, join_with '', '' values)) (rq_Header r),
                     sr_SignedHeaders = names\<rparr>))"

definition writeAuthError :: "header \<Rightarrow> code \<Rightarrow> gostring \<Rightarrow> (gostring, json) gomap \<Rightarrow> response" where
  "writeAuthError w c message details =
     writeError (Header_Set w ''WWW-Authenticate'' Algorithm) c message details"

section \<open>authenticate\<close>

text \<open>The first part: which form, its timestamp and its credentials.\<close>

definition read_credentials ::
  "'s handler \<Rightarrow> time \<Rightarrow> header \<Rightarrow> request \<Rightarrow> sig_mode \<Rightarrow> response + (int \<times> credentials)" where
  "read_credentials h now w r mode =
     (if mode = Header then
        (case ParseInt (Header_Get (rq_Header r) ''X-Tunna-Date'') of
           None \<Rightarrow> Inl (writeError w codeMalformedRequest ''X-Tunna-Date must be Unix seconds'' [])
         | Some ts \<Rightarrow>
             (case parseAuthorization (Header_Get (rq_Header r) ''Authorization'') of
                None \<Rightarrow> Inl (writeError w codeMalformedRequest
                  (''Authorization header is not of the form '' @ Algorithm @ '' key=<id>, headers=<a;b>, sig=<hex>'') [])
              | Some c \<Rightarrow>
                  let d = time_Unix ts - now in
                  if d > h_skew h \<or> d < - h_skew h then
                    Inl (writeAuthError w codeClockSkew ''request timestamp outside the accepted window''
                      [(''server_time'', jint (Unix now)), (''skew_seconds'', jint (dur_seconds (h_skew h)))])
                  else Inr (ts, c)))
      else
        (case parsePresign (url_query r) of
           None \<Rightarrow> Inl (writeError w codeMalformedRequest
             (''presigned URL must carry '' @ ParamKey @ '' and '' @ ParamSig) [])
         | Some c \<Rightarrow>
             (case ParseInt (Values_Get (url_query r) ParamExpires) of
                None \<Rightarrow> Inl (writeError w codeMalformedRequest (ParamExpires @ '' must be Unix seconds'') [])
              | Some ts \<Rightarrow>
                  if ts < Unix now then
                    Inl (writeAuthError w codePresignExpired ''presigned URL has expired''
                      [(''server_time'', jint (Unix now))])
                  else if ts - Unix now > dur_seconds (h_maxPresign h) then
                    Inl (writeAuthError w codePresignTooLong
                      ''presigned URL expiry is further ahead than this server allows''
                      [(''max_seconds'', jint (dur_seconds (h_maxPresign h)))])
                  else Inr (ts, c))))"

text \<open>The loop over the signed headers: the first that the request does not carry.\<close>

definition missing_header :: "request \<Rightarrow> gostring list \<Rightarrow> gostring option" where
  "missing_header r names =
     find (\<lambda>name. map_of (rq_Header r) (CanonicalHeaderKey name) = None) names"

text \<open>The second part: the key, the signed headers and the signature.\<close>

definition verify ::
  "'s handler \<Rightarrow> header \<Rightarrow> request \<Rightarrow> sig_mode \<Rightarrow> int \<Rightarrow> credentials \<Rightarrow> 's \<Rightarrow> (response + apikey) \<times> 's" where
  "verify h w r mode timestamp creds s =
     (case ks_GetKey (h_keys h) (cr_keyID creds) s of
        (Inl e, s1) \<Rightarrow>
          (Inl (if e = ErrNotFound then writeAuthError w codeUnknownKey ''unknown or disabled key'' []
                else writeError w codeInternal ''key lookup failed'' []), s1)
      | (Inr apikey, s1) \<Rightarrow>
          if k_Disabled apikey then
            (Inl (writeAuthError w codeUnknownKey ''unknown or disabled key'' []), s1)
          else (case missing_header r (cr_signed creds) of
            Some name \<Rightarrow>
              (Inl (writeAuthError w codeMissingSignedHeader
                 (''signed header '' @ name @ '' is not present on the request'')
                 [(''header'', JStr name)]), s1)
          | None \<Rightarrow>
              (case sigRequest r (cr_signed creds) of
                 None \<Rightarrow> (Inl (writeError w codeMalformedRequest
                   ''request path or query cannot be decoded'' []), s1)
               | Some req \<Rightarrow>
                   if Signature (k_Secret apikey)
                        (Canonical req \<lparr>sk_ID = k_ID apikey, sk_Secret = k_Secret apikey\<rparr> timestamp mode)
                      \<noteq> cr_signature creds
                   then (Inl (writeAuthError w codeBadSignature ''signature does not match'' []), s1)
                   else (Inr apikey, s1))))"

definition authenticate :: "'s handler \<Rightarrow> env \<Rightarrow> 's route \<Rightarrow> 's route" where
  "authenticate h ev nxt w r s =
     (let now = ev_now ev 0;
          hasAuthorization = (map_of (rq_Header r) (CanonicalHeaderKey ''Authorization'') \<noteq> None);
          hasPresignSig = Values_Has (url_query r) ParamSig;
          mode = (if hasAuthorization then Header else Presign)
      in if \<not> hasAuthorization \<and> \<not> hasPresignSig then nxt w r s
         else if hasAuthorization \<and> hasPresignSig then
           (writeError w codeMalformedRequest
              ''request carries both an Authorization header and presigned query parameters; use one'' [], s)
         else (case read_credentials h now w r mode of
           Inl e \<Rightarrow> (e, s)
         | Inr (timestamp, creds) \<Rightarrow>
             (case verify h w r mode timestamp creds s of
                (Inl e, s1) \<Rightarrow> (e, s1)
              | (Inr apikey, s1) \<Rightarrow> nxt w (r\<lparr>rq_caller := Some apikey\<rparr>) s1)))"

section \<open>Middlewares\<close>

definition zero_key :: apikey where
  "zero_key = \<lparr>k_ID = [], k_Secret = [], k_Name = [], k_Admin = False, k_Scopes = [],
     k_Disabled = False, k_CreatedAt = 0\<rparr>"

text \<open>\<open>k, _ := caller(r)\<close>: the zero key when no one signed.\<close>

definition caller_key :: "request \<Rightarrow> apikey" where
  "caller_key r = (case rq_caller r of None \<Rightarrow> zero_key | Some k \<Rightarrow> k)"

definition requireAuth :: "'s middleware" where
  "requireAuth nxt w r s =
     (if rq_caller r = None
      then (writeAuthError w codeUnauthenticated ''this route requires credentials'' [], s)
      else nxt w r s)"

definition requireAccess :: "access \<Rightarrow> 's middleware" where
  "requireAccess level nxt w r s =
     (let bucket = PathValue r ''bucket'' in
      if \<not> Allows (caller_key r) level bucket
      then (writeError w codeForbidden (level @ '' access to '' @ bucket @ '' is required'') [], s)
      else nxt w r s)"

definition requireAdmin :: "'s middleware" where
  "requireAdmin nxt w r s =
     (if \<not> k_Admin (caller_key r)
      then (writeError w codeForbidden ''this route requires an admin key'' [], s)
      else nxt w r s)"

definition reserved :: "'s middleware" where
  "reserved nxt w r s =
     (if PathValue r ''bucket'' = ''-'' then (writeError w codeUnknownRoute ''no such route'' [], s)
      else nxt w r s)"

definition headerFormOnly :: "'s middleware" where
  "headerFormOnly nxt w r s =
     (if Values_Has (url_query r) ParamSig
      then (writeAuthError w codePresignNotAllowed
        ''this route takes its parameters from the request body, which a presigned URL cannot bind; sign the request in header form'' [], s)
      else nxt w r s)"

text \<open>\<open>readableBucket\<close>: stages 2 and 3 and the lookup of the read routes.\<close>

definition readableBucket ::
  "'s handler \<Rightarrow> header \<Rightarrow> request \<Rightarrow> gostring \<Rightarrow> 's \<Rightarrow> (response + bucket) \<times> 's" where
  "readableBucket h w r name s =
     (case bs_GetBucket (h_buckets h) name s of
        (Inl e, s1) \<Rightarrow>
          if e \<noteq> ErrNotFound then (Inl (writeError w codeInternal ''bucket lookup failed'' []), s1)
          else (case rq_caller r of
            None \<Rightarrow> (Inl (writeAuthError w codeUnauthenticated
              ''reading from a private bucket requires credentials'' []), s1)
          | Some k \<Rightarrow>
              if Allows k Read name
              then (Inl (writeError w codeBucketNotFound (''no bucket named '' @ name) [(''bucket'', JStr name)]), s1)
              else (Inl (writeError w codeForbidden (''read access to '' @ name @ '' is required'') []), s1))
      | (Inr b, s1) \<Rightarrow>
          if b_Public b then (Inr b, s1)
          else (case rq_caller r of
            None \<Rightarrow> (Inl (writeAuthError w codeUnauthenticated
              ''reading from a private bucket requires credentials'' []), s1)
          | Some k \<Rightarrow>
              if Allows k Read name then (Inr b, s1)
              else (Inl (writeError w codeForbidden (''read access to '' @ name @ '' is required'') []), s1)))"

end
