(* ===== verification/Http_Buckets.thy ===== *)
theory Http_Buckets
  imports Http_Auth
begin

text \<open>
  \<open>buckets.go\<close>: the five bucket routes.  Every handler walks the checks of the code in order;
  the state after a refused request is the state the lookups left.
\<close>

section \<open>Records and bodies\<close>

definition toBucketRecord :: "bucket \<Rightarrow> json" where
  "toBucketRecord b =
     JObj [(''name'', JStr (b_Name b)), (''public'', JBool (b_Public b)),
           (''created_at'', jint (Unix (b_CreatedAt b)))]"

record create_bucket_body =
  cb_Public :: bool

record patch_bucket_body =
  pb_Public :: "bool option"

definition create_bucket_fields :: "create_bucket_body fields" where
  "create_bucket_fields = [(''public'', field dec_bool cb_Public cb_Public_update)]"

definition patch_bucket_fields :: "patch_bucket_body fields" where
  "patch_bucket_fields = [(''public'', field (dec_ptr False dec_bool) pb_Public pb_Public_update)]"

text \<open>The answer to a body that does not decode.\<close>

definition bad_body :: "header \<Rightarrow> gostring \<Rightarrow> 'r decoded \<Rightarrow> response" where
  "bad_body w message d =
     writeError w codeInvalidParameter message
       (case d of DecodeType f \<Rightarrow> [(''name'', JStr f)] | _ \<Rightarrow> [])"

section \<open>Handlers\<close>

definition getBucket :: "'s handler \<Rightarrow> 's route" where
  "getBucket h w r s =
     (let name = PathValue r ''bucket'' in
      case ValidateBucketName name of
        Some err \<Rightarrow> (writeError w codeInvalidBucketName (name_err_text err) [], s)
      | None \<Rightarrow>
          (case bs_GetBucket (h_buckets h) name s of
             (Inl e, s1) \<Rightarrow>
               (if e = ErrNotFound
                then writeError w codeBucketNotFound ''bucket not found'' [(''bucket'', JStr name)]
                else writeError w codeInternal ''bucket lookup failed'' [], s1)
           | (Inr b, s1) \<Rightarrow> (writeJSON w 200 (toBucketRecord b), s1)))"

definition createBucket :: "'s handler \<Rightarrow> env \<Rightarrow> 's route" where
  "createBucket h ev w r s =
     (let name = PathValue r ''bucket'' in
      case ValidateBucketName name of
        Some err \<Rightarrow> (writeError w codeInvalidBucketName (name_err_text err) [], s)
      | None \<Rightarrow>
          (case decode_body create_bucket_fields \<lparr>cb_Public = False\<rparr> (rq_json r) of
             Decoded body \<Rightarrow>
               let b = \<lparr>b_Name = name, b_Public = cb_Public body, b_CreatedAt = ev_now ev 1\<rparr> in
               (case bs_CreateBucket (h_buckets h) b s of
                  (Inl e, s1) \<Rightarrow>
                    (if e = ErrConflict then writeError w codeBucketExists ''bucket already exists'' []
                     else writeError w codeInternal ''bucket create failed'' [], s1)
                | (Inr _, s1) \<Rightarrow> (writeJSON w 201 (toBucketRecord b), s1))
           | d \<Rightarrow> (bad_body w ''body must be a JSON object with optional boolean public'' d, s)))"

definition listBuckets :: "'s handler \<Rightarrow> 's route" where
  "listBuckets h w r s =
     (case bs_ListBuckets (h_buckets h) s of
        (Inl e, s1) \<Rightarrow> (writeError w codeInternal ''bucket listing failed'' [], s1)
      | (Inr list, s1) \<Rightarrow>
          (writeJSON w 200 (JObj [(''buckets'', JArr (map toBucketRecord
             (filter (\<lambda>b. Allows (caller_key r) Read (b_Name b)) list)))]), s1))"

definition deleteBucket :: "'s handler \<Rightarrow> 's route" where
  "deleteBucket h w r s =
     (let name = PathValue r ''bucket'' in
      case ValidateBucketName name of
        Some err \<Rightarrow> (writeError w codeInvalidBucketName (name_err_text err) [], s)
      | None \<Rightarrow>
          (case os_ListObjects (h_objects h) name [] [] 1 s of
             (Inl e, s1) \<Rightarrow> (writeError w codeInternal ''bucket delete failed'' [], s1)
           | (Inr objs, s1) \<Rightarrow>
               if objs \<noteq> [] then
                 (writeError w codeBucketNotEmpty ''bucket still holds objects'' [(''bucket'', JStr name)], s1)
               else (case us_CountUploads (h_uploads h) name s1 of
                 (Inl e, s2) \<Rightarrow> (writeError w codeInternal ''bucket delete failed'' [], s2)
               | (Inr uploadCount, s2) \<Rightarrow>
                   if uploadCount > 0 then
                     (writeError w codeBucketNotEmpty ''bucket still holds uploads'' [(''bucket'', JStr name)], s2)
                   else (case bs_DeleteBucket (h_buckets h) name s2 of
                     (Inl e, s3) \<Rightarrow>
                       (if e = ErrNotFound
                        then writeError w codeBucketNotFound ''bucket not found'' [(''bucket'', JStr name)]
                        else writeError w codeInternal ''bucket delete failed'' [], s3)
                   | (Inr _, s3) \<Rightarrow> (writeHeader w 204, s3)))))"

definition patchBucket :: "'s handler \<Rightarrow> 's route" where
  "patchBucket h w r s =
     (let name = PathValue r ''bucket'' in
      case ValidateBucketName name of
        Some err \<Rightarrow> (writeError w codeInvalidBucketName (name_err_text err) [], s)
      | None \<Rightarrow>
          (case decode_body patch_bucket_fields \<lparr>pb_Public = None\<rparr> (rq_json r) of
             Decoded body \<Rightarrow>
               (case pb_Public body of
                  None \<Rightarrow> (writeError w codeInvalidParameter ''public is required'' [(''name'', JStr ''public'')], s)
                | Some public \<Rightarrow>
                    (case bs_GetBucket (h_buckets h) name s of
                       (Inl e, s1) \<Rightarrow>
                         (if e = ErrNotFound
                          then writeError w codeBucketNotFound ''bucket not found'' [(''bucket'', JStr name)]
                          else writeError w codeInternal ''bucket update failed'' [], s1)
                     | (Inr b0, s1) \<Rightarrow>
                         let b = b0\<lparr>b_Public := public\<rparr> in
                         (case bs_UpdateBucket (h_buckets h) b s1 of
                            (Inl e, s2) \<Rightarrow>
                              (if e = ErrNotFound
                               then writeError w codeBucketNotFound ''bucket not found'' [(''bucket'', JStr name)]
                               else writeError w codeInternal ''bucket update failed'' [], s2)
                          | (Inr _, s2) \<Rightarrow> (writeJSON w 200 (toBucketRecord b), s2))))
           | d \<Rightarrow> (bad_body w ''body must be a JSON object with boolean public'' d, s)))"

end
