(* ===== verification/Http_Keys.thy ===== *)
theory Http_Keys
  imports Http_Buckets
begin

text \<open>
  \<open>apikey.go\<close>: the key records, the shape rules of stage 4 and the seven key routes.  A secret
  leaves the server in two answers only, those of \<open>createKey\<close> and \<open>rotateKey\<close>.
\<close>

section \<open>Records\<close>

text \<open>\<open>toScopes\<close> and \<open>fromScopes\<close>: the levels are strings on both sides.\<close>

definition toScopes :: "(gostring, gostring) gomap \<Rightarrow> (gostring, access) gomap" where
  "toScopes m = map (\<lambda>(b, l). (b, l)) m"

definition fromScopes :: "(gostring, access) gomap \<Rightarrow> (gostring, gostring) gomap" where
  "fromScopes m = map (\<lambda>(b, l). (b, l)) m"

text \<open>Scopes are left out when empty, the secret unless one is set.\<close>

definition keyRecord :: "apikey \<Rightarrow> gostring \<Rightarrow> json" where
  "keyRecord k secret =
     JObj ([(''id'', JStr (k_ID k)), (''name'', JStr (k_Name k)), (''admin'', JBool (k_Admin k))] @
       (if k_Scopes k = [] then [] else [(''scopes'', jmap (fromScopes (k_Scopes k)))]) @
       [(''disabled'', JBool (k_Disabled k)), (''created_at'', jint (Unix (k_CreatedAt k)))] @
       (if secret = [] then [] else [(''secret'', JStr secret)]))"

definition toKeyRecord :: "apikey \<Rightarrow> json" where
  "toKeyRecord k = keyRecord k []"

section \<open>Shape rules\<close>

fun scopes_error :: "(gostring, access) gomap \<Rightarrow> gostring option" where
  "scopes_error [] = None"
| "scopes_error ((b, a) # ss) =
     (case (if b = ''*'' then None else ValidateBucketName b) of
        Some err \<Rightarrow> Some (''scope '' @ b @ '': '' @ name_err_text err)
      | None \<Rightarrow>
          if \<not> Access_Valid a then Some (''scope '' @ b @ '': level must be '' @ Read @ '' or '' @ Write)
          else scopes_error ss)"

text \<open>The field at fault and the message, \<open>None\<close> for a valid shape.\<close>

definition validateKeyShape :: "gostring \<Rightarrow> bool \<Rightarrow> (gostring, access) gomap \<Rightarrow> (gostring \<times> gostring) option" where
  "validateKeyShape name admin scopes =
     (if length name < 1 \<or> length name > 128 then Some (''name'', ''name must be 1 to 128 bytes'')
      else if admin \<and> scopes \<noteq> [] then
        Some (''scopes'', ''an admin key has no scopes; send admin without scopes'')
      else if \<not> admin \<and> scopes = [] then
        Some (''scopes'', ''a key that is not admin needs at least one scope'')
      else map_option (\<lambda>m. (''scopes'', m)) (scopes_error scopes))"

definition newKeyID :: "env \<Rightarrow> gostring option" where
  "newKeyID ev = map_option (\<lambda>b. ''tk_'' @ hex_encode b) (ev_keyid ev)"

definition newSecret :: "env \<Rightarrow> gostring option" where
  "newSecret ev = map_option RawURLEncodeToString (ev_secret ev)"

section \<open>Bodies\<close>

record create_key_body =
  ck_Name :: gostring
  ck_Admin :: bool
  ck_Scopes :: "(gostring, gostring) gomap"

definition create_key_fields :: "create_key_body fields" where
  "create_key_fields =
     [(''name'', field dec_string ck_Name ck_Name_update),
      (''admin'', field dec_bool ck_Admin ck_Admin_update),
      (''scopes'', field dec_map ck_Scopes ck_Scopes_update)]"

record patch_key_body =
  pk_Name :: "gostring option"
  pk_Admin :: "bool option"
  pk_Scopes :: "(gostring, gostring) gomap option"
  pk_Disabled :: "bool option"

definition patch_key_fields :: "patch_key_body fields" where
  "patch_key_fields =
     [(''name'', field (dec_ptr [] dec_string) pk_Name pk_Name_update),
      (''admin'', field (dec_ptr False dec_bool) pk_Admin pk_Admin_update),
      (''scopes'', field (dec_ptr [] dec_map) pk_Scopes pk_Scopes_update),
      (''disabled'', field (dec_ptr False dec_bool) pk_Disabled pk_Disabled_update)]"

definition no_key_body :: create_key_body where
  "no_key_body = \<lparr>ck_Name = [], ck_Admin = False, ck_Scopes = []\<rparr>"

definition no_key_patch :: patch_key_body where
  "no_key_patch = \<lparr>pk_Name = None, pk_Admin = None, pk_Scopes = None, pk_Disabled = None\<rparr>"

section \<open>Handlers\<close>

definition createKey :: "'s handler \<Rightarrow> env \<Rightarrow> 's route" where
  "createKey h ev w r s =
     (case decode_body create_key_fields no_key_body (rq_json r) of
        Decoded body \<Rightarrow>
          (case validateKeyShape (ck_Name body) (ck_Admin body) (toScopes (ck_Scopes body)) of
             Some (fld, msg) \<Rightarrow> (writeError w codeInvalidParameter msg [(''name'', JStr fld)], s)
           | None \<Rightarrow>
               (case newKeyID ev of
                  None \<Rightarrow> (writeError w codeInternal ''key id generation failed'' [], s)
                | Some i \<Rightarrow>
                    (case newSecret ev of
                       None \<Rightarrow> (writeError w codeInternal ''secret generation failed'' [], s)
                     | Some secret \<Rightarrow>
                         let k = \<lparr>k_ID = i, k_Secret = secret, k_Name = ck_Name body, k_Admin = ck_Admin body,
                                  k_Scopes = toScopes (ck_Scopes body), k_Disabled = False,
                                  k_CreatedAt = ev_now ev 1\<rparr> in
                         (case ks_CreateKey (h_keys h) k s of
                            (Inl e, s1) \<Rightarrow> (writeError w codeInternal ''key creation failed'' [], s1)
                          | (Inr _, s1) \<Rightarrow> (writeJSON w 201 (keyRecord k secret), s1)))))
      | d \<Rightarrow> (bad_body w ''body must be a JSON object'' d, s))"

definition key_not_found :: "header \<Rightarrow> gostring \<Rightarrow> response" where
  "key_not_found w i = writeError w codeKeyNotFound (''no key with id='' @ i) []"

definition getKey :: "'s handler \<Rightarrow> 's route" where
  "getKey h w r s =
     (let i = PathValue r ''id'' in
      case ks_GetKey (h_keys h) i s of
        (Inl e, s1) \<Rightarrow>
          (if e = ErrNotFound then key_not_found w i
           else writeError w codeInternal ''key lookup failed'' [], s1)
      | (Inr k, s1) \<Rightarrow> (writeJSON w 200 (toKeyRecord k), s1))"

definition listKeys :: "'s handler \<Rightarrow> 's route" where
  "listKeys h w r s =
     (case ks_ListKeys (h_keys h) s of
        (Inl e, s1) \<Rightarrow> (writeError w codeInternal ''key listing failed'' [], s1)
      | (Inr keys, s1) \<Rightarrow> (writeJSON w 200 (JObj [(''keys'', JArr (map toKeyRecord keys))]), s1))"

text \<open>The merge of a patch into the stored key.\<close>

definition merge_key :: "patch_key_body \<Rightarrow> apikey \<Rightarrow> apikey" where
  "merge_key body k0 =
     (let k1 = (case pk_Name body of None \<Rightarrow> k0 | Some n \<Rightarrow> k0\<lparr>k_Name := n\<rparr>);
          k2 = (case pk_Admin body of None \<Rightarrow> k1 | Some a \<Rightarrow> k1\<lparr>k_Admin := a\<rparr>);
          k3 = (case pk_Disabled body of None \<Rightarrow> k2 | Some d \<Rightarrow> k2\<lparr>k_Disabled := d\<rparr>)
      in (case pk_Scopes body of None \<Rightarrow> k3 | Some sc \<Rightarrow> k3\<lparr>k_Scopes := toScopes sc\<rparr>))"

definition patchKey :: "'s handler \<Rightarrow> 's route" where
  "patchKey h w r s =
     (let i = PathValue r ''id'' in
      case decode_body patch_key_fields no_key_patch (rq_json r) of
        Decoded body \<Rightarrow>
          (case ks_GetKey (h_keys h) i s of
             (Inl e, s1) \<Rightarrow>
               (if e = ErrNotFound then key_not_found w i
                else writeError w codeInternal ''key lookup failed'' [], s1)
           | (Inr k0, s1) \<Rightarrow>
               let k = merge_key body k0 in
               (case validateKeyShape (k_Name k) (k_Admin k) (k_Scopes k) of
                  Some (fld, msg) \<Rightarrow> (writeError w codeInvalidParameter msg [(''name'', JStr fld)], s1)
                | None \<Rightarrow>
                    (case ks_UpdateKey (h_keys h) k s1 of
                       (Inl e, s2) \<Rightarrow>
                         (if e = ErrNotFound then key_not_found w i
                          else writeError w codeInternal ''key update failed'' [], s2)
                     | (Inr _, s2) \<Rightarrow> (writeJSON w 200 (toKeyRecord k), s2))))
      | d \<Rightarrow> (bad_body w ''body must be a JSON object'' d, s))"

definition rotateKey :: "'s handler \<Rightarrow> env \<Rightarrow> 's route" where
  "rotateKey h ev w r s =
     (let i = PathValue r ''id'' in
      case ks_GetKey (h_keys h) i s of
        (Inl e, s1) \<Rightarrow>
          (if e = ErrNotFound then key_not_found w i
           else writeError w codeInternal ''key lookup failed'' [], s1)
      | (Inr k0, s1) \<Rightarrow>
          (case newSecret ev of
             None \<Rightarrow> (writeError w codeInternal ''secret generation failed'' [], s1)
           | Some secret \<Rightarrow>
               let k = k0\<lparr>k_Secret := secret\<rparr> in
               (case ks_UpdateKey (h_keys h) k s1 of
                  (Inl e, s2) \<Rightarrow>
                    (if e = ErrNotFound then key_not_found w i
                     else writeError w codeInternal ''key update failed'' [], s2)
                | (Inr _, s2) \<Rightarrow> (writeJSON w 200 (keyRecord k (k_Secret k)), s2))))"

definition deleteKey :: "'s handler \<Rightarrow> 's route" where
  "deleteKey h w r s =
     (let i = PathValue r ''id'' in
      case ks_DeleteKey (h_keys h) i s of
        (Inl e, s1) \<Rightarrow>
          (if e = ErrNotFound then key_not_found w i
           else writeError w codeInternal ''key deletion failed'' [], s1)
      | (Inr _, s1) \<Rightarrow> (writeHeader w 204, s1))"

definition getSelfKey :: "'s route" where
  "getSelfKey w r s = (writeJSON w 200 (toKeyRecord (caller_key r)), s)"

end
