(* ===== verification/Go_ServeContent.thy ===== *)
theory Go_ServeContent
  imports Http_Base
begin

text \<open>
  \<open>http.ServeContent\<close> of the standard library, which answers the GET of an object: preconditions, byte
  ranges (one, or several as \<open>multipart/byteranges\<close>) and plain answers.  Two things are
  arguments: \<open>http.ParseTime\<close>, which reads the dates of three formats, and the multipart boundary, which
  is drawn at random.  The content is the bytes of the blob; seeking in them does not fail, and the
  content type is always set by the caller, so nothing is sniffed.
\<close>

section \<open>Dates\<close>

text \<open>The HTTP date of an instant: the proleptic Gregorian calendar from the count of days.\<close>

definition civil :: "int \<Rightarrow> int \<times> int \<times> int" where
  "civil days =
     (let z = days + 719468; era = z div 146097; doe = z - era * 146097;
          yoe = (doe - doe div 1460 + doe div 36524 - doe div 146096) div 365;
          doy = doe - (365 * yoe + yoe div 4 - yoe div 100);
          mp = (5 * doy + 2) div 153;
          d = doy - (153 * mp + 2) div 5 + 1;
          m = (if mp < 10 then mp + 3 else mp - 9)
      in (yoe + era * 400 + (if m \<le> 2 then 1 else 0), m, d))"

definition pad :: "nat \<Rightarrow> int \<Rightarrow> gostring" where
  "pad n i = (let s = FormatInt i in replicate (n - length s) (CHR ''0'') @ s)"

definition http_date :: "time \<Rightarrow> gostring" where
  "http_date t =
     (let sec = Unix t; days = sec div 86400; rest = sec mod 86400 in
      case civil days of (y, m, d) \<Rightarrow>
        [''Sun'', ''Mon'', ''Tue'', ''Wed'', ''Thu'', ''Fri'', ''Sat''] ! nat ((days + 4) mod 7) @ '', '' @
        pad 2 d @ '' '' @
        [''Jan'', ''Feb'', ''Mar'', ''Apr'', ''May'', ''Jun'', ''Jul'', ''Aug'', ''Sep'', ''Oct'', ''Nov'', ''Dec'']
          ! nat (m - 1) @ '' '' @ pad 4 y @ '' '' @
        pad 2 (rest div 3600) @ '':'' @ pad 2 (rest div 60 mod 60) @ '':'' @ pad 2 (rest mod 60) @ '' GMT'')"

text \<open>\<open>IsZero\<close>: the first day of year 1; \<open>isZeroTime\<close> takes the Unix epoch for it too.\<close>

definition zero_time :: time where "zero_time = time_Unix (- 62135596800)"

definition isZeroTime :: "time \<Rightarrow> bool" where
  "isZeroTime t \<longleftrightarrow> t = 0 \<or> t = zero_time"

definition truncate_second :: "time \<Rightarrow> time" where "truncate_second t = time_Unix (Unix t)"

section \<open>Entity tags\<close>

definition trim_char :: "char \<Rightarrow> bool" where "trim_char c = (code_of c \<in> {9, 10, 13, 32})"

definition TrimString :: "gostring \<Rightarrow> gostring" where
  "TrimString s = rev (dropWhile trim_char (rev (dropWhile trim_char s)))"

definition dquote :: char where "dquote = CHR 0x22"

definition etag_char :: "char \<Rightarrow> bool" where
  "etag_char c \<longleftrightarrow> code_of c = 0x21 \<or> (0x23 \<le> code_of c \<and> code_of c \<le> 0x7E) \<or> 0x80 \<le> code_of c"

text \<open>The rest of a tag up to its closing quote, and what follows it.\<close>

fun scan_tag :: "gostring \<Rightarrow> (gostring \<times> gostring) option" where
  "scan_tag [] = None"
| "scan_tag (c # s) =
     (if etag_char c then (case scan_tag s of None \<Rightarrow> None | Some (t, remain) \<Rightarrow> Some (c # t, remain))
      else if c = dquote then Some ([c], s)
      else None)"

text \<open>\<open>scanETag\<close>: the first tag and the rest; empty strings when there is none.\<close>

definition scanETag :: "gostring \<Rightarrow> gostring \<times> gostring" where
  "scanETag s0 =
     (let s = TrimString s0; weak = prefix ''W/'' s; t = (if weak then drop 2 s else s) in
      if length t < 2 \<or> hd t \<noteq> dquote then ([], [])
      else (case scan_tag (tl t) of
              None \<Rightarrow> ([], [])
            | Some (tag, remain) \<Rightarrow> ((if weak then ''W/'' else []) @ dquote # tag, remain)))"

definition etagStrongMatch :: "gostring \<Rightarrow> gostring \<Rightarrow> bool" where
  "etagStrongMatch a b \<longleftrightarrow> a = b \<and> a \<noteq> [] \<and> hd a = dquote"

definition etagWeakMatch :: "gostring \<Rightarrow> gostring \<Rightarrow> bool" where
  "etagWeakMatch a b \<longleftrightarrow> TrimPrefix a ''W/'' = TrimPrefix b ''W/''"

lemma length_TrimString: "length (TrimString s) \<le> length s"
  unfolding TrimString_def by (metis length_dropWhile_le length_rev order_trans)

lemma scan_tag_shorter: "scan_tag s = Some (t, remain) \<Longrightarrow> length remain < length s"
  by (induction s arbitrary: t) (auto split: if_splits option.splits)

lemma scanETag_shorter: "scanETag s = (etag, remain) \<Longrightarrow> etag \<noteq> [] \<Longrightarrow> length remain < length s"
  using length_TrimString [of s]
  by (auto simp: scanETag_def Let_def split: if_splits option.splits dest!: scan_tag_shorter)

lemma TrimString_shorter: "TrimString s \<noteq> [] \<Longrightarrow> length (TrimString s) - Suc 0 < length s"
  using length_TrimString [of s] by (cases "TrimString s") auto

lemma scanETag_trimmed: "(etag, remain) = scanETag (TrimString s) \<Longrightarrow> etag \<noteq> [] \<Longrightarrow> length remain < length s"
  using scanETag_shorter [of "TrimString s" etag remain] length_TrimString [of s] by simp

text \<open>The loop over a list of tags: a star matches anything, a text that is no tag ends the search.\<close>

function some_etag :: "(gostring \<Rightarrow> bool) \<Rightarrow> gostring \<Rightarrow> bool" where
  "some_etag p s0 =
     (let s = TrimString s0 in
      if s = [] then False
      else if hd s = CHR '','' then some_etag p (tl s)
      else if hd s = CHR ''*'' then True
      else (case scanETag s of (etag, remain) \<Rightarrow>
              if etag = [] then False else if p etag then True else some_etag p remain))"
  by pat_completeness auto
termination
  by (relation "measure (\<lambda>(p, s). length s)") (auto dest: TrimString_shorter scanETag_trimmed)

declare some_etag.simps [simp del]

section \<open>Preconditions\<close>

datatype cond = CondNone | CondTrue | CondFalse

definition cond_of :: "bool \<Rightarrow> cond" where "cond_of b = (if b then CondTrue else CondFalse)"

definition safe_method :: "request \<Rightarrow> bool" where
  "safe_method r \<longleftrightarrow> rq_Method r = ''GET'' \<or> rq_Method r = ''HEAD''"

definition checkIfMatch :: "header \<Rightarrow> request \<Rightarrow> cond" where
  "checkIfMatch w r =
     (let im = Header_Get (rq_Header r) ''If-Match'' in
      if im = [] then CondNone else cond_of (some_etag (\<lambda>t. etagStrongMatch t (Header_Get w ''Etag'')) im))"

definition checkIfUnmodifiedSince :: "(gostring \<Rightarrow> time option) \<Rightarrow> request \<Rightarrow> time \<Rightarrow> cond" where
  "checkIfUnmodifiedSince ParseTime r modtime =
     (let ius = Header_Get (rq_Header r) ''If-Unmodified-Since'' in
      if ius = [] \<or> isZeroTime modtime then CondNone
      else (case ParseTime ius of None \<Rightarrow> CondNone | Some t \<Rightarrow> cond_of (truncate_second modtime \<le> t)))"

definition checkIfNoneMatch :: "header \<Rightarrow> request \<Rightarrow> cond" where
  "checkIfNoneMatch w r =
     (let inm = Header_Get (rq_Header r) ''If-None-Match'' in
      if inm = [] then CondNone else cond_of (\<not> some_etag (\<lambda>t. etagWeakMatch t (Header_Get w ''Etag'')) inm))"

definition checkIfModifiedSince :: "(gostring \<Rightarrow> time option) \<Rightarrow> request \<Rightarrow> time \<Rightarrow> cond" where
  "checkIfModifiedSince ParseTime r modtime =
     (if \<not> safe_method r then CondNone
      else let ims = Header_Get (rq_Header r) ''If-Modified-Since'' in
        if ims = [] \<or> isZeroTime modtime then CondNone
        else (case ParseTime ims of None \<Rightarrow> CondNone | Some t \<Rightarrow> cond_of (\<not> truncate_second modtime \<le> t)))"

definition checkIfRange :: "(gostring \<Rightarrow> time option) \<Rightarrow> header \<Rightarrow> request \<Rightarrow> time \<Rightarrow> cond" where
  "checkIfRange ParseTime w r modtime =
     (if \<not> safe_method r then CondNone
      else let ir = Header_Get (rq_Header r) ''If-Range''; etag = fst (scanETag ir) in
        if ir = [] then CondNone
        else if etag \<noteq> [] then cond_of (etagStrongMatch etag (Header_Get w ''Etag''))
        else if modtime = zero_time then CondFalse
        else (case ParseTime ir of None \<Rightarrow> CondFalse | Some t \<Rightarrow> cond_of (Unix t = Unix modtime)))"

definition Header_Del :: "header \<Rightarrow> gostring \<Rightarrow> header" where
  "Header_Del h name = Values_Del h (CanonicalHeaderKey name)"

definition writeNotModified :: "header \<Rightarrow> response" where
  "writeNotModified w =
     (let w1 = Header_Del (Header_Del (Header_Del w ''Content-Type'') ''Content-Length'') ''Content-Encoding'';
          w2 = (if Header_Get w1 ''Etag'' \<noteq> [] then Header_Del w1 ''Last-Modified'' else w1)
      in writeHeader w2 304)"

text \<open>\<open>checkPreconditions\<close>: the answer when a condition decides it, else the range that is asked for.\<close>

definition checkPreconditions ::
  "(gostring \<Rightarrow> time option) \<Rightarrow> header \<Rightarrow> request \<Rightarrow> time \<Rightarrow> response + gostring" where
  "checkPreconditions ParseTime w r modtime =
     (let im = checkIfMatch w r;
          ch = (if im = CondNone then checkIfUnmodifiedSince ParseTime r modtime else im);
          none = checkIfNoneMatch w r;
          rng = Header_Get (rq_Header r) ''Range''
      in if ch = CondFalse then Inl (writeHeader w 412)
         else if none = CondFalse then
           Inl (if safe_method r then writeNotModified w else writeHeader w 412)
         else if none = CondNone \<and> checkIfModifiedSince ParseTime r modtime = CondFalse then
           Inl (writeNotModified w)
         else Inr (if rng \<noteq> [] \<and> checkIfRange ParseTime w r modtime = CondFalse then [] else rng))"

section \<open>Ranges\<close>

datatype range_err = RangeInvalid | RangeNoOverlap

text \<open>One range as its start and its length; \<open>None\<close> when it begins after the content.\<close>

definition parse_spec :: "int \<Rightarrow> gostring \<Rightarrow> range_err + (int \<times> int) option" where
  "parse_spec n ra =
     (case Cut ra (CHR ''-'') of (start0, stop0, ok) \<Rightarrow>
        if \<not> ok then Inl RangeInvalid
        else let start = TrimString start0; stop = TrimString stop0 in
          if start = [] then
            (if stop = [] \<or> hd stop = CHR ''-'' then Inl RangeInvalid
             else (case ParseInt stop of
                     None \<Rightarrow> Inl RangeInvalid
                   | Some i \<Rightarrow> if i < 0 then Inl RangeInvalid else Inr (Some (n - min i n, min i n))))
          else (case ParseInt start of
              None \<Rightarrow> Inl RangeInvalid
            | Some i \<Rightarrow>
                if i < 0 then Inl RangeInvalid
                else if i \<ge> n then Inr None
                else if stop = [] then Inr (Some (i, n - i))
                else (case ParseInt stop of
                        None \<Rightarrow> Inl RangeInvalid
                      | Some j \<Rightarrow> if i > j then Inl RangeInvalid else Inr (Some (i, min j (n - 1) - i + 1)))))"

fun parse_specs :: "int \<Rightarrow> gostring list \<Rightarrow> range_err + (int \<times> int) list \<times> bool" where
  "parse_specs n [] = Inr ([], False)"
| "parse_specs n (ra # ras) =
     (if TrimString ra = [] then parse_specs n ras
      else (case parse_spec n (TrimString ra) of
              Inl e \<Rightarrow> Inl e
            | Inr x \<Rightarrow>
                (case parse_specs n ras of
                   Inl e \<Rightarrow> Inl e
                 | Inr (rs, noOverlap) \<Rightarrow>
                     (case x of None \<Rightarrow> Inr (rs, True) | Some r \<Rightarrow> Inr (r # rs, noOverlap)))))"

definition parseRange :: "gostring \<Rightarrow> int \<Rightarrow> range_err + (int \<times> int) list" where
  "parseRange s n =
     (if s = [] then Inr []
      else if \<not> prefix ''bytes='' s then Inl RangeInvalid
      else (case parse_specs n (split_on (CHR '','') (drop 6 s)) of
              Inl e \<Rightarrow> Inl e
            | Inr (rs, noOverlap) \<Rightarrow> if noOverlap \<and> rs = [] then Inl RangeNoOverlap else Inr rs))"

definition contentRange :: "int \<Rightarrow> int \<times> int \<Rightarrow> gostring" where
  "contentRange n r =
     ''bytes '' @ FormatInt (fst r) @ ''-'' @ FormatInt (fst r + snd r - 1) @ ''/'' @ FormatInt n"

definition byte_slice :: "byte list \<Rightarrow> int \<times> int \<Rightarrow> byte list" where
  "byte_slice bytes r = take (nat (snd r)) (drop (nat (fst r)) bytes)"

text \<open>\<open>multipart.Writer\<close>: the parts with their headers, and the closing boundary.\<close>

definition crlf :: gostring where "crlf = [CHR 0x0D, CHR 0x0A]"

definition range_part :: "gostring \<Rightarrow> gostring \<Rightarrow> byte list \<Rightarrow> int \<times> int \<Rightarrow> byte list" where
  "range_part boundary ctype bytes r =
     bytes_of (''--'' @ boundary @ crlf @ ''Content-Range: '' @ contentRange (int (length bytes)) r @ crlf @
       ''Content-Type: '' @ ctype @ crlf @ crlf) @ byte_slice bytes r @ bytes_of crlf"

definition multipart_body :: "gostring \<Rightarrow> gostring \<Rightarrow> byte list \<Rightarrow> (int \<times> int) list \<Rightarrow> byte list" where
  "multipart_body boundary ctype bytes rs =
     concat (map (range_part boundary ctype bytes) rs) @ bytes_of (''--'' @ boundary @ ''--'' @ crlf)"

section \<open>The answer\<close>

text \<open>\<open>http.Error\<close> and \<open>serveError\<close>, which drops the headers that describe the content.\<close>

definition http_Error :: "header \<Rightarrow> gostring \<Rightarrow> int \<Rightarrow> response" where
  "http_Error w text status =
     \<lparr>rs_status = status,
      rs_headers = Header_Set (Header_Set (Header_Del w ''Content-Length'') ''Content-Type'' ''text/plain; charset=utf-8'')
        ''X-Content-Type-Options'' ''nosniff'',
      rs_body = TextBody (text @ [CHR 0x0A])\<rparr>"

definition serveError :: "header \<Rightarrow> gostring \<Rightarrow> int \<Rightarrow> response" where
  "serveError w = http_Error (fold (\<lambda>k w. Header_Del w k) [''Cache-Control'', ''Content-Encoding'', ''Etag'', ''Last-Modified''] w)"

definition answer_content :: "header \<Rightarrow> request \<Rightarrow> int \<Rightarrow> byte list \<Rightarrow> response" where
  "answer_content w r status bytes =
     \<lparr>rs_status = status,
      rs_headers = Header_Set (Header_Set w ''Accept-Ranges'' ''bytes'') ''Content-Length'' (FormatInt (int (length bytes))),
      rs_body = (if rq_Method r = ''HEAD'' then NoBody else BlobBody bytes)\<rparr>"

text \<open>Ranges whose sizes add up to more than the content are ignored.\<close>

definition serve_ranges :: "gostring \<Rightarrow> header \<Rightarrow> request \<Rightarrow> byte list \<Rightarrow> (int \<times> int) list \<Rightarrow> response" where
  "serve_ranges boundary w r bytes rs0 =
     (let n = int (length bytes); rs = (if sum_list (map snd rs0) > n then [] else rs0) in
      case rs of
        [] \<Rightarrow> answer_content w r 200 bytes
      | [ra] \<Rightarrow> answer_content (Header_Set w ''Content-Range'' (contentRange n ra)) r 206 (byte_slice bytes ra)
      | _ \<Rightarrow> answer_content (Header_Set w ''Content-Type'' (''multipart/byteranges; boundary='' @ boundary)) r 206
               (multipart_body boundary (Header_Get w ''Content-Type'') bytes rs))"

definition ServeContent ::
  "(gostring \<Rightarrow> time option) \<Rightarrow> gostring \<Rightarrow> header \<Rightarrow> request \<Rightarrow> time \<Rightarrow> byte list \<Rightarrow> response" where
  "ServeContent ParseTime boundary w r modtime bytes =
     (let n = int (length bytes);
          w1 = (if isZeroTime modtime then w else Header_Set w ''Last-Modified'' (http_date modtime)) in
      case checkPreconditions ParseTime w1 r modtime of
        Inl rs \<Rightarrow> rs
      | Inr rng \<Rightarrow>
          (case parseRange rng n of
             Inl RangeInvalid \<Rightarrow> serveError w1 ''invalid range'' 416
           | Inl RangeNoOverlap \<Rightarrow>
               if n = 0 then serve_ranges boundary w1 r bytes []
               else serveError (Header_Set w1 ''Content-Range'' (''bytes */'' @ FormatInt n))
                      ''invalid range: failed to overlap'' 416
           | Inr rs \<Rightarrow> serve_ranges boundary w1 r bytes rs))"

section \<open>Lemmas\<close>

text \<open>The kinds of answer: content or a part of it, a decided precondition, a refused range.\<close>

definition content_answer :: "response \<Rightarrow> bool" where
  "content_answer rs \<longleftrightarrow>
     (rs_status rs \<in> {200, 206} \<and> (rs_body rs = NoBody \<or> (\<exists>bytes. rs_body rs = BlobBody bytes))) \<or>
     (rs_status rs \<in> {304, 412} \<and> rs_body rs = NoBody) \<or>
     (rs_status rs = 416 \<and> (\<exists>text. rs_body rs = TextBody text))"

lemma content_answer_simps [simp]:
  "content_answer (answer_content w r 200 bytes)" "content_answer (answer_content w r 206 bytes)"
  "content_answer (writeHeader w 412)" "content_answer (writeNotModified w)" "content_answer (serveError w text 416)"
  by (simp_all add: content_answer_def answer_content_def writeHeader_def writeNotModified_def serveError_def
    http_Error_def Let_def)

lemma serve_ranges_answer: "content_answer (serve_ranges bd w r bytes rs)"
  by (simp add: serve_ranges_def Let_def split: list.split)

lemma checkPreconditions_answer: "checkPreconditions pt w r t = Inl rs \<Longrightarrow> content_answer rs"
  by (auto simp: checkPreconditions_def Let_def split: if_splits)

lemma ServeContent_content: "content_answer (ServeContent pt bd w r t bytes)"
proof -
  let ?w = "if isZeroTime t then w else Header_Set w ''Last-Modified'' (http_date t)"
  show ?thesis
  proof (cases "checkPreconditions pt ?w r t")
    case (Inl rs)
    with checkPreconditions_answer [OF Inl] show ?thesis by (simp add: ServeContent_def Let_def del: if_split)
  next
    case (Inr rng)
    show ?thesis
      unfolding ServeContent_def Let_def Inr sum.case by (auto simp: serve_ranges_answer split: sum.split range_err.split)
  qed
qed

text \<open>Requests without a precondition, and without a range either.\<close>

definition precondition_headers :: "gostring list" where
  "precondition_headers = [''If-Match'', ''If-Unmodified-Since'', ''If-None-Match'', ''If-Modified-Since'']"

definition conditional_headers :: "gostring list" where
  "conditional_headers = precondition_headers @ [''Range'']"

definition dated :: "header \<Rightarrow> time \<Rightarrow> header" where
  "dated w t = (if isZeroTime t then w else Header_Set w ''Last-Modified'' (http_date t))"

lemma no_preconditions:
  assumes "\<forall>n \<in> set precondition_headers. Header_Get (rq_Header r) n = []"
  shows "checkPreconditions pt w r t =
    Inr (if Header_Get (rq_Header r) ''Range'' \<noteq> [] \<and> checkIfRange pt w r t = CondFalse then [] else Header_Get (rq_Header r) ''Range'')"
  using assms by (simp add: checkPreconditions_def checkIfMatch_def checkIfUnmodifiedSince_def checkIfNoneMatch_def
    checkIfModifiedSince_def precondition_headers_def Let_def)

lemma ServeContent_whole:
  assumes "\<forall>n \<in> set conditional_headers. Header_Get (rq_Header r) n = []"
  shows "ServeContent pt bd w r t bytes = answer_content (dated w t) r 200 bytes"
proof -
  have "checkPreconditions pt v r t = Inr []" for v
    using no_preconditions [of r pt v t] assms by (simp add: conditional_headers_def)
  then show ?thesis by (simp add: ServeContent_def parseRange_def serve_ranges_def Let_def dated_def)
qed

lemma ServeContent_ranges:
  assumes "\<forall>n \<in> set precondition_headers. Header_Get (rq_Header r) n = []" "Header_Get (rq_Header r) ''If-Range'' = []"
    and "parseRange (Header_Get (rq_Header r) ''Range'') (int (length bytes)) = Inr rs"
  shows "ServeContent pt bd w r t bytes = serve_ranges bd (dated w t) r bytes rs"
proof -
  have "checkIfRange pt v r t \<noteq> CondFalse" for v using assms(2) by (simp add: checkIfRange_def Let_def)
  then have "checkPreconditions pt v r t = Inr (Header_Get (rq_Header r) ''Range'')" for v
    using no_preconditions [OF assms(1), of pt v t] by simp
  then show ?thesis using assms(3) by (simp add: ServeContent_def Let_def dated_def)
qed

text \<open>A range written with two numbers.\<close>

definition range_text :: "int \<Rightarrow> int \<Rightarrow> gostring" where
  "range_text a z = FormatInt a @ ''-'' @ FormatInt z"

lemma FormatInt_digits: "0 \<le> i \<Longrightarrow> c \<in> set (FormatInt i) \<Longrightarrow> is_digit c"
  using format_nat_digits [of "nat i"] by (simp add: FormatInt_def)

lemma TrimString_keeps:
  assumes "\<forall>c \<in> set s. \<not> trim_char c"
  shows "TrimString s = s"
proof -
  have "dropWhile trim_char t = t" if "\<forall>c \<in> set t. \<not> trim_char c" for t using that by (cases t) auto
  from this [of s] this [of "rev s"] assms show ?thesis by (simp add: TrimString_def)
qed

lemma digit_facts: "is_digit c \<Longrightarrow> \<not> trim_char c \<and> c \<noteq> CHR '','' \<and> c \<noteq> CHR ''-''"
  by (auto simp: is_digit_def trim_char_def)

lemma parse_spec_text:
  assumes "0 \<le> a" "a \<le> z" "a < n" "z < 2 ^ 63"
  shows "parse_spec n (range_text a z) = Inr (Some (a, min z (n - 1) - a + 1))"
    "TrimString (range_text a z) = range_text a z" "CHR '','' \<notin> set (range_text a z)" "range_text a z \<noteq> []"
proof -
  have d: "\<And>c. c \<in> set (FormatInt a) \<Longrightarrow> is_digit c" "\<And>c. c \<in> set (FormatInt z) \<Longrightarrow> is_digit c"
    using FormatInt_digits [of a] FormatInt_digits [of z] assms(1,2) by auto
  then have "TrimString (FormatInt a) = FormatInt a" "TrimString (FormatInt z) = FormatInt z"
    using digit_facts by (auto intro!: TrimString_keeps)
  moreover have "CHR ''-'' \<notin> set (FormatInt a)" using d digit_facts by blast
  then have "Cut (range_text a z) (CHR ''-'') = (FormatInt a, FormatInt z, True)"
    using Cut_append [of "CHR ''-''" "FormatInt a" "FormatInt z"] by (simp add: range_text_def)
  moreover have "FormatInt a \<noteq> []" "FormatInt z \<noteq> []" by (auto simp: FormatInt_def)
  moreover have "ParseInt (FormatInt a) = Some a" "ParseInt (FormatInt z) = Some z"
    using assms by (simp_all add: ParseInt_FormatInt int64_range_def)
  ultimately show "parse_spec n (range_text a z) = Inr (Some (a, min z (n - 1) - a + 1))"
    using assms by (simp add: parse_spec_def Let_def)
  show "TrimString (range_text a z) = range_text a z"
    using d digit_facts by (intro TrimString_keeps) (auto simp: range_text_def trim_char_def)
  show "CHR '','' \<notin> set (range_text a z)" using d digit_facts by (auto simp: range_text_def)
  show "range_text a z \<noteq> []" by (simp add: range_text_def)
qed

lemma one_range:
  assumes "0 \<le> a" "a \<le> z" "a < n" "z < 2 ^ 63"
  shows "parseRange (''bytes='' @ range_text a z) n = Inr [(a, min z (n - 1) - a + 1)]"
  using parse_spec_text [OF assms] split_on_notin [of "CHR '',''" "range_text a z"] by (simp add: parseRange_def)

lemma two_ranges:
  assumes "0 \<le> a" "a \<le> z" "a < n" "z < 2 ^ 63" "0 \<le> a'" "a' \<le> z'" "a' < n" "z' < 2 ^ 63"
  shows "parseRange (''bytes='' @ range_text a z @ '','' @ range_text a' z') n =
    Inr [(a, min z (n - 1) - a + 1), (a', min z' (n - 1) - a' + 1)]"
  using parse_spec_text [OF assms(1-4)] parse_spec_text [OF assms(5-8)]
    split_on_append [of "CHR '',''" "range_text a z" "range_text a' z'"] split_on_notin [of "CHR '',''" "range_text a' z'"]
  by (simp add: parseRange_def)

lemma serve_ranges_some:
  "snd ra \<le> int (length bytes) \<Longrightarrow> serve_ranges bd w r bytes [ra] =
     answer_content (Header_Set w ''Content-Range'' (contentRange (int (length bytes)) ra)) r 206 (byte_slice bytes ra)"
  "snd ra + snd rb \<le> int (length bytes) \<Longrightarrow> serve_ranges bd w r bytes [ra, rb] =
     answer_content (Header_Set w ''Content-Type'' (''multipart/byteranges; boundary='' @ bd)) r 206
       (multipart_body bd (Header_Get w ''Content-Type'') bytes [ra, rb])"
  by (simp_all add: serve_ranges_def Let_def)

end
