(* ===== verification/Http_Objects.thy ===== *)
theory Http_Objects
  imports Http_Buckets Go_ServeContent
begin

text \<open>
  \<open>objects.go\<close>: the object records and the four object routes.  \<open>putObject\<close> streams the body
  once, through the hasher, into a new blob: the hasher sees the bytes \<open>Write\<close> took from the
  body.  The headers of a request are a Go map, iterated in the order of the list.
\<close>

section \<open>Records\<close>

definition maxListLimit :: int where "maxListLimit = 1000"

definition maxBodyLength :: int where "maxBodyLength = 104857600"

definition toObjectRecord :: "object \<Rightarrow> json" where
  "toObjectRecord ob =
     JObj ([(''bucket'', JStr (o_Bucket ob)), (''key'', JStr (o_Key ob)), (''size'', jint (o_Size ob)),
            (''content_type'', JStr (o_ContentType ob)), (''checksum'', JStr (o_Checksum ob))] @
       (if o_Metadata ob = [] then [] else [(''metadata'', jmap (o_Metadata ob))]) @
       [(''created_at'', jint (Unix (o_CreatedAt ob)))])"

definition listResponse :: "json list \<Rightarrow> gostring \<Rightarrow> json" where
  "listResponse objs nxt =
     JObj ((''objects'', JArr objs) # (if nxt = [] then [] else [(''next'', JStr nxt)]))"

definition quoted :: "gostring \<Rightarrow> gostring" where
  "quoted s = CHR 0x22 # s @ [CHR 0x22]"

section \<open>Shared steps\<close>

text \<open>
  The checksum the client declares, decoded; the error answer, or \<open>None\<close> when there is none.
  \<open>putObject\<close> and \<open>putUploadPart\<close> run the same lines.
\<close>

definition wantChecksum :: "header \<Rightarrow> request \<Rightarrow> response + 32 word option" where
  "wantChecksum w r =
     (case bodyChecksum r of
        DeclBoth \<Rightarrow> Inl (writeError w codeMalformedRequest
          ''give the checksum as the X-Tunna-Checksum header or as the checksum query parameter, not both'' [])
      | DeclErr \<Rightarrow> Inl (writeError w codeInternal ''reading the request query failed'' [])
      | Declared val src \<Rightarrow>
          if val = [] then Inr None
          else (case ParseChecksum val of
                  None \<Rightarrow> Inl (writeError w codeInvalidParameter
                    (src @ '' is not of the form crc32c=<base64>'') [(''name'', JStr src)])
                | Some crc \<Rightarrow> Inr (Some crc)))"

text \<open>The metadata headers; \<open>v[0]\<close> of an empty list of values is an index panic, \<open>None\<close>.\<close>

fun meta_headers :: "header \<Rightarrow> (gostring, gostring) gomap \<Rightarrow> (gostring, gostring) gomap option" where
  "meta_headers [] m = Some m"
| "meta_headers ((hn, vs) # hs) m =
     (case CutPrefix hn ''X-Tunna-Meta-'' of (name, found) \<Rightarrow>
        if \<not> found then meta_headers hs m
        else (case vs of
                [] \<Rightarrow> None
              | v # rest \<Rightarrow>
                  meta_headers hs (map_put m (ToLower name) (if rest = [] then v else join_with '','' vs))))"

definition bucket_not_found :: "header \<Rightarrow> gostring \<Rightarrow> response" where
  "bucket_not_found w b = writeError w codeBucketNotFound (''no bucket named '' @ b) [(''bucket'', JStr b)]"

section \<open>putObject\<close>

text \<open>
  From the created blob on: write, length, sync and checksum (each failure removes the blob),
  then the row, then the previous blob.
\<close>

definition storeBody ::
  "'s handler \<Rightarrow> header \<Rightarrow> request \<Rightarrow> gostring \<Rightarrow> 32 word option \<Rightarrow> 's \<Rightarrow> (response + 32 word) \<times> 's" where
  "storeBody h w r i want s =
     (let undo = (\<lambda>c m d s. (Inl (writeError w c m d), snd (bl_Remove (h_blobs h) i s))) in
      case bl_Write (h_blobs h) i 0 (rq_Body r) s of ((n, err), s1) \<Rightarrow>
        let crc = crc32c (take (nat n) (rd_bytes (rq_Body r))) in
        (case err of
           Some e \<Rightarrow>
             if e = ErrUnexpectedEOF
             then undo codeBodyLengthMismatch ''body ended before Content-Length bytes arrived'' [] s1
             else undo codeInternal ''writing body failed'' [] s1
         | None \<Rightarrow>
             if n \<noteq> rq_ContentLength r
             then undo codeBodyLengthMismatch ''body length differs from Content-Length'' [] s1
             else (case bl_Sync (h_blobs h) i s1 of
                (Inl e, s2) \<Rightarrow> undo codeInternal ''syncing blob failed'' [] s2
              | (Inr _, s2) \<Rightarrow>
                  if want \<noteq> None \<and> want \<noteq> Some crc
                  then undo codeChecksumMismatch ''body checksum does not match X-Tunna-Checksum''
                         [(''algorithm'', JStr ''crc32c'')] s2
                  else (Inr crc, s2))))"

text \<open>The row and the answer; a failing \<open>PutObject\<close> leaves the blob where it is.\<close>

definition recordObject :: "'s handler \<Rightarrow> header \<Rightarrow> object \<Rightarrow> 's \<Rightarrow> response \<times> 's" where
  "recordObject h w ob s =
     (case os_PutObject (h_objects h) ob s of
        (Inl e, s1) \<Rightarrow> (writeError w codeInternal ''recording object failed'' [], s1)
      | (Inr prev, s1) \<Rightarrow>
          (let s2 = (if prev \<noteq> [] then snd (bl_Remove (h_blobs h) prev s1) else s1);
               w1 = Header_Add (Header_Add w ''ETag'' (quoted (o_Checksum ob))) ''X-Tunna-Checksum'' (o_Checksum ob)
           in (writeJSON w1 201 (toObjectRecord ob), s2)))"

definition putObject :: "'s handler \<Rightarrow> env \<Rightarrow> 's route" where
  "putObject h ev w r s =
     (let bucket = PathValue r ''bucket''; key = PathValue r ''key'' in
      case ValidateBucketName bucket of
        Some err \<Rightarrow> (writeError w codeInvalidBucketName (name_err_text err) [], s)
      | None \<Rightarrow> (case ValidateObjectKey key of
        Some err \<Rightarrow> (writeError w codeInvalidKey (key_err_text err) [], s)
      | None \<Rightarrow>
      if rq_ContentLength r < 0 then
        (writeError w codeMalformedRequest
           ''Content-Length is required; a chunked body without one is not accepted'' [], s)
      else if rq_ContentLength r > maxBodyLength then
        (writeError w codeBodyTooLarge
           (''The body exceeds the applicable limit: the single-request object cap, or the session'' @
            [CHR 0x27] @ ''s part size.'') [], s)
      else (case wantChecksum w r of
        Inl e \<Rightarrow> (e, s)
      | Inr want \<Rightarrow>
      (let ct = Header_Get (rq_Header r) ''Content-Type'';
           contentType = (if ct = [] then ''application/octet-stream'' else ct)
       in case meta_headers (rq_Header r) [] of
        None \<Rightarrow> (aborted, s)
      | Some metadata \<Rightarrow>
      (case bs_GetBucket (h_buckets h) bucket s of
        (Inl e, s1) \<Rightarrow>
          (if e = ErrNotFound then bucket_not_found w bucket
           else writeError w codeInternal ''bucket lookup failed'' [], s1)
      | (Inr b, s1) \<Rightarrow>
      (case bl_Create (h_blobs h) (ev_blob ev) s1 of
        (Inl e, s2) \<Rightarrow> (writeError w codeInternal ''creating blob failed'' [], s2)
      | (Inr i, s2) \<Rightarrow>
      (case storeBody h w r i want s2 of
        (Inl e, s3) \<Rightarrow> (e, s3)
      | (Inr crc, s3) \<Rightarrow>
          recordObject h w
            \<lparr>o_Bucket = b_Name b, o_Key = key, o_BlobID = i, o_Size = rq_ContentLength r,
             o_ContentType = contentType, o_Checksum = EncodeCRC32C crc, o_Metadata = metadata,
             o_CreatedAt = ev_now ev 1\<rparr> s3)))))))"

section \<open>getObject, deleteObject, listObjects\<close>

definition object_headers :: "header \<Rightarrow> object \<Rightarrow> header" where
  "object_headers w ob =
     fold (\<lambda>(name, v) w. Header_Set w (''X-Tunna-Meta-'' @ name) v) (o_Metadata ob)
       (Header_Set (Header_Set (Header_Set w ''Content-Type'' (o_ContentType ob))
          ''ETag'' (quoted (o_Checksum ob))) ''X-Tunna-Checksum'' (o_Checksum ob))"

definition getObject :: "'s handler \<Rightarrow> env \<Rightarrow> 's route" where
  "getObject h ev w r s =
     (let bucket = PathValue r ''bucket''; key = PathValue r ''key'' in
      case readableBucket h w r bucket s of
        (Inl e, s1) \<Rightarrow> (e, s1)
      | (Inr _, s1) \<Rightarrow> (case ValidateBucketName bucket of
        Some err \<Rightarrow> (writeError w codeInvalidBucketName (name_err_text err) [], s1)
      | None \<Rightarrow> (case ValidateObjectKey key of
        Some err \<Rightarrow> (writeError w codeInvalidKey (key_err_text err) [], s1)
      | None \<Rightarrow> (case os_GetObject (h_objects h) bucket key s1 of
        (Inl e, s2) \<Rightarrow>
          (if e = ErrNotFound
           then writeError w codeObjectNotFound (''no key named '' @ key) [(''key'', JStr key)]
           else writeError w codeInternal ''object lookup failed'' [], s2)
      | (Inr ob, s2) \<Rightarrow> (case bl_Open (h_blobs h) (o_BlobID ob) s2 of
        (Inl e, s3) \<Rightarrow> (writeError w codeInternal ''object lookup failed'' [], s3)
      | (Inr bytes, s3) \<Rightarrow> (ServeContent (ev_ParseTime ev) (ev_boundary ev) (object_headers w ob) r (o_CreatedAt ob) bytes, s3))))))"

definition deleteObject :: "'s handler \<Rightarrow> 's route" where
  "deleteObject h w r s =
     (let bucket = PathValue r ''bucket''; key = PathValue r ''key'' in
      case ValidateBucketName bucket of
        Some err \<Rightarrow> (writeError w codeInvalidBucketName (name_err_text err) [], s)
      | None \<Rightarrow> (case ValidateObjectKey key of
        Some err \<Rightarrow> (writeError w codeInvalidKey (key_err_text err) [], s)
      | None \<Rightarrow> (case bs_GetBucket (h_buckets h) bucket s of
        (Inl e, s1) \<Rightarrow>
          (if e = ErrNotFound then bucket_not_found w bucket
           else writeError w codeInternal ''bucket lookup failed'' [], s1)
      | (Inr _, s1) \<Rightarrow> (case os_DeleteObject (h_objects h) bucket key s1 of
        (Inl e, s2) \<Rightarrow>
          (if e = ErrNotFound
           then writeError w codeObjectNotFound (''no object named '' @ key) [(''key'', JStr key)]
           else writeError w codeInternal ''object delete failed'' [], s2)
      | (Inr blobID, s2) \<Rightarrow> (writeHeader w 204, snd (bl_Remove (h_blobs h) blobID s2))))))"

text \<open>The page size a request asks for, or the message of the refusal.\<close>

definition listLimit :: "url_values \<Rightarrow> gostring + int" where
  "listLimit q =
     (if Values_Has q ''limit'' then
        (case ParseInt (Values_Get q ''limit'') of
           None \<Rightarrow> Inl ''limit must be an integer''
         | Some l \<Rightarrow> if l \<le> 0 then Inl ''limit must be at least 1'' else Inr (min l maxListLimit))
      else Inr maxListLimit)"

definition listObjects :: "'s handler \<Rightarrow> 's route" where
  "listObjects h w r s =
     (let bucket = PathValue r ''bucket'' in
      case readableBucket h w r bucket s of
        (Inl e, s1) \<Rightarrow> (e, s1)
      | (Inr _, s1) \<Rightarrow> (case ValidateBucketName bucket of
        Some err \<Rightarrow> (writeError w codeInvalidBucketName (name_err_text err) [], s1)
      | None \<Rightarrow>
      (let q = url_query r in
       if Values_Has q ''delimiter'' then
         (writeError w codeInvalidParameter ''delimiter is not supported in this version''
            [(''name'', JStr ''delimiter'')], s1)
       else (case listLimit q of
         Inl msg \<Rightarrow> (writeError w codeInvalidParameter msg [(''name'', JStr ''limit'')], s1)
       | Inr limit \<Rightarrow>
           (case os_ListObjects (h_objects h) bucket (Values_Get q ''prefix'') (Values_Get q ''after'') limit s1 of
              (Inl e, s2) \<Rightarrow> (writeError w codeInternal ''object lookup failed'' [], s2)
            | (Inr list, s2) \<Rightarrow>
                (writeJSON w 200 (listResponse (map toObjectRecord list)
                   (if int (length list) = limit then o_Key (last list) else [])), s2))))))"

end
