(* ===== verification/Http_Uploads.thy ===== *)
theory Http_Uploads
  imports Http_Objects Upload_Parts
begin

text \<open>
  \<open>uploads.go\<close>: upload sessions.  Parts are written into the blob of the session at their
  offset, recorded with length and checksum, and folded into one object by \<open>completeUpload\<close>.
  Sizes and offsets are \<open>int64\<close> and wrap.
\<close>

section \<open>Records\<close>

definition toSessionRecord :: "upload_session \<Rightarrow> json" where
  "toSessionRecord se =
     JObj [(''id'', JStr (u_ID se)), (''bucket'', JStr (u_Bucket se)), (''key'', JStr (u_Key se)),
           (''part_size'', jint (u_PartSize se)), (''content_type'', JStr (u_ContentType se)),
           (''created_at'', jint (Unix (u_CreatedAt se))), (''expires_at'', jint (Unix (u_ExpiresAt se))),
           (''parts'', JArr (map jint (sort (map_keys (u_Parts se)))))]"

definition putUploadPartRecord :: "int \<Rightarrow> int \<Rightarrow> gostring \<Rightarrow> json" where
  "putUploadPartRecord n sz wire =
     JObj [(''part'', jint n), (''size'', jint sz), (''checksum'', JStr wire)]"

text \<open>\<open>sessionWritable\<close>: the refusal, or \<open>None\<close> when the caller may write the bucket.\<close>

definition sessionWritable :: "header \<Rightarrow> request \<Rightarrow> gostring \<Rightarrow> response option" where
  "sessionWritable w r bucket =
     (if \<not> Allows (caller_key r) Write bucket
      then Some (writeError w codeForbidden (''write access to '' @ bucket @ '' is required'') [])
      else None)"

section \<open>Shared steps\<close>

text \<open>
  The session of the path, writable by the caller and not expired: the lines four of the five
  handlers begin with.
\<close>

definition activeSession ::
  "'s handler \<Rightarrow> env \<Rightarrow> header \<Rightarrow> request \<Rightarrow> 's \<Rightarrow> (response + upload_session) \<times> 's" where
  "activeSession h ev w r s =
     (let i = PathValue r ''id'' in
      case us_GetUpload (h_uploads h) i s of
        (Inl e, s1) \<Rightarrow>
          (Inl (if e = ErrNotFound
                then writeError w codeUploadNotFound (''upload with id='' @ i @ '' not found'') []
                else writeError w codeInternal ''upload lookup failed'' []), s1)
      | (Inr sess, s1) \<Rightarrow>
          (case sessionWritable w r (u_Bucket sess) of
             Some e \<Rightarrow> (Inl e, s1)
           | None \<Rightarrow>
               if ev_now ev 1 > u_ExpiresAt sess
               then (Inl (writeError w codeSessionNotActive ''upload session has expired'' []), s1)
               else (Inr sess, s1)))"

text \<open>\<open>strings.ToLower\<close> on text of any script.\<close>

definition lower :: "env \<Rightarrow> gostring \<Rightarrow> gostring" where
  "lower ev s = (if list_all (\<lambda>c. code_of c < 128) s then ToLower s else ev_lower ev s)"

section \<open>createUpload\<close>

record create_upload_body =
  cu_Bucket :: gostring
  cu_Key :: gostring
  cu_PartSize :: "int option"
  cu_ContentType :: gostring
  cu_Metadata :: "(gostring, gostring) gomap"

definition create_upload_fields :: "create_upload_body fields" where
  "create_upload_fields =
     [(''bucket'', field dec_string cu_Bucket cu_Bucket_update),
      (''key'', field dec_string cu_Key cu_Key_update),
      (''part_size'', field (dec_ptr 0 dec_int) cu_PartSize cu_PartSize_update),
      (''content_type'', field dec_string cu_ContentType cu_ContentType_update),
      (''metadata'', field dec_map cu_Metadata cu_Metadata_update)]"

definition no_upload_body :: create_upload_body where
  "no_upload_body =
     \<lparr>cu_Bucket = [], cu_Key = [], cu_PartSize = None, cu_ContentType = [], cu_Metadata = []\<rparr>"

definition newSession :: "'s handler \<Rightarrow> env \<Rightarrow> create_upload_body \<Rightarrow> int \<Rightarrow> gostring \<Rightarrow> upload_session" where
  "newSession h ev body sz i =
     \<lparr>u_ID = ''up_'' @ hex_encode (ev_session ev), u_Bucket = cu_Bucket body, u_Key = cu_Key body,
      u_BlobID = i, u_PartSize = sz,
      u_ContentType = (if cu_ContentType body = [] then ''application/octet-stream'' else cu_ContentType body),
      u_Metadata = fold (\<lambda>(k, v) m. map_put m (lower ev k) v) (cu_Metadata body) [],
      u_Parts = [], u_CreatedAt = ev_now ev 1, u_ExpiresAt = ev_now ev 1 + h_uploadTTL h\<rparr>"

definition createUpload :: "'s handler \<Rightarrow> env \<Rightarrow> 's route" where
  "createUpload h ev w r s =
     (case decode_body create_upload_fields no_upload_body (rq_json r) of
        Decoded body \<Rightarrow>
      (case sessionWritable w r (cu_Bucket body) of
        Some e \<Rightarrow> (e, s)
      | None \<Rightarrow> (case ValidateBucketName (cu_Bucket body) of
        Some err \<Rightarrow> (writeError w codeInvalidBucketName (name_err_text err) [], s)
      | None \<Rightarrow> (case ValidateObjectKey (cu_Key body) of
        Some err \<Rightarrow> (writeError w codeInvalidKey (key_err_text err) [], s)
      | None \<Rightarrow> (case cu_PartSize body of
        None \<Rightarrow> (writeError w codeInvalidParameter ''part_size is required'' [(''name'', JStr ''part_size'')], s)
      | Some sz \<Rightarrow>
      if sz < h_partSizeMin h \<or> sz > h_partSizeMax h then
        (writeError w codeInvalidPartSize
           (''part_size must be between '' @ FormatInt (h_partSizeMin h) @ '' and '' @
            FormatInt (h_partSizeMax h) @ '' bytes'')
           [(''min'', jint (h_partSizeMin h)), (''max'', jint (h_partSizeMax h))], s)
      else (case bs_GetBucket (h_buckets h) (cu_Bucket body) s of
        (Inl e, s1) \<Rightarrow>
          (if e = ErrNotFound then bucket_not_found w (cu_Bucket body)
           else writeError w codeInternal ''bucket lookup failed'' [], s1)
      | (Inr _, s1) \<Rightarrow> (case bl_Create (h_blobs h) (ev_blob ev) s1 of
        (Inl e, s2) \<Rightarrow> (writeError w codeInternal ''creating blob failed'' [], s2)
      | (Inr i, s2) \<Rightarrow>
          (let sess = newSession h ev body sz i in
           case us_CreateUpload (h_uploads h) sess s2 of
             (Inl e, s3) \<Rightarrow>
               (writeError w codeInternal ''creating upload session failed'' [],
                snd (bl_Remove (h_blobs h) (u_BlobID sess) s3))
           | (Inr _, s3) \<Rightarrow> (writeJSON w 201 (toSessionRecord sess), s3))))))))
      | d \<Rightarrow> (bad_body w ''body must be a JSON object'' d, s))"

section \<open>putUploadPart\<close>

text \<open>The body of an accepted part: written, checked against the declared checksum, synced, recorded.\<close>

definition storePart ::
  "'s handler \<Rightarrow> header \<Rightarrow> request \<Rightarrow> upload_session \<Rightarrow> int \<Rightarrow> 32 word option \<Rightarrow> 's \<Rightarrow> response \<times> 's" where
  "storePart h w r sess n want s =
     (case bl_Write (h_blobs h) (u_BlobID sess) (int64 (int64 (n - 1) * u_PartSize sess)) (rq_Body r) s of
        ((written, err), s1) \<Rightarrow>
          let crc = crc32c (take (nat written) (rd_bytes (rq_Body r))); wire = EncodeCRC32C crc in
          (case err of
             Some e \<Rightarrow>
               (if e = ErrUnexpectedEOF
                then writeError w codeBodyLengthMismatch ''body ended before Content-Length bytes arrived'' []
                else writeError w codeInternal ''writing part failed'' [], s1)
           | None \<Rightarrow>
               if want \<noteq> None \<and> want \<noteq> Some crc then
                 (writeError w codeChecksumMismatch ''body checksum does not match X-Tunna-Checksum''
                    [(''algorithm'', JStr ''crc32c'')], s1)
               else (case bl_Sync (h_blobs h) (u_BlobID sess) s1 of
                  (Inl e, s2) \<Rightarrow> (writeError w codeInternal ''syncing part failed'' [], s2)
                | (Inr _, s2) \<Rightarrow>
                    (case us_PutPart (h_uploads h) (u_ID sess) n \<lparr>p_Size = written, p_Checksum = wire\<rparr> s2 of
                       (Inl e, s3) \<Rightarrow> (writeError w codeInternal ''recording part failed'' [], s3)
                     | (Inr _, s3) \<Rightarrow>
                         (writeJSON (Header_Set w ''X-Tunna-Checksum'' wire) 200
                            (putUploadPartRecord n written wire), s3)))))"

definition putUploadPart :: "'s handler \<Rightarrow> env \<Rightarrow> 's route" where
  "putUploadPart h ev w r s =
     (case ParseInt (PathValue r ''n'') of
        None \<Rightarrow> (writeError w codeInvalidPartNumber ''part number must be an integer'' [], s)
      | Some n \<Rightarrow>
      if n < 1 \<or> n > h_maxParts h then
        (writeError w codeInvalidPartNumber
           (''part number must be between 1 and '' @ FormatInt (h_maxParts h)) [(''max'', jint (h_maxParts h))], s)
      else (case activeSession h ev w r s of
        (Inl e, s1) \<Rightarrow> (e, s1)
      | (Inr sess, s1) \<Rightarrow>
      if rq_ContentLength r = -1 then
        (writeError w codeMalformedRequest
           ''Content-Length is required; a chunked body without one is not accepted'' [], s1)
      else if rq_ContentLength r = 0 then
        (writeError w codeInvalidParameter ''a part body must not be empty''
           [(''name'', JStr ''Content-Length'')], s1)
      else if rq_ContentLength r > u_PartSize sess then
        (writeError w codeBodyTooLarge
           (''body exceeds the session part size of '' @ FormatInt (u_PartSize sess) @ '' bytes'')
           [(''max'', jint (h_partSizeMax h))], s1)
      else (case wantChecksum w r of
        Inl e \<Rightarrow> (e, s1)
      | Inr want \<Rightarrow> storePart h w r sess n want s1)))"

section \<open>getUpload, deleteUpload\<close>

definition getUpload :: "'s handler \<Rightarrow> env \<Rightarrow> 's route" where
  "getUpload h ev w r s =
     (case activeSession h ev w r s of
        (Inl e, s1) \<Rightarrow> (e, s1)
      | (Inr sess, s1) \<Rightarrow> (writeJSON w 200 (toSessionRecord sess), s1))"

text \<open>A store that panics (the SQLite one, when its transaction cannot begin) ends the request.\<close>

definition deleteUpload :: "'s handler \<Rightarrow> env \<Rightarrow> 's route" where
  "deleteUpload h ev w r s =
     (case activeSession h ev w r s of
        (Inl e, s1) \<Rightarrow> (e, s1)
      | (Inr sess, s1) \<Rightarrow>
          (case us_DeleteUpload (h_uploads h) (u_ID sess) s1 of
             (Inl e, s2) \<Rightarrow>
               (if e = ErrPanic then aborted
                else if e = ErrNotFound
                then writeError w codeUploadNotFound
                       (''upload with id='' @ PathValue r ''id'' @ '' not found'') []
                else writeError w codeInternal ''aborting upload failed'' [], s2)
           | (Inr deleted, s2) \<Rightarrow>
               (writeHeader w 204, snd (bl_Remove (h_blobs h) (u_BlobID deleted) s2))))"

section \<open>completeUpload\<close>

record complete_body =
  cm_Parts :: int
  cm_Checksums :: "gostring list option"

definition complete_fields :: "complete_body fields" where
  "complete_fields =
     [(''parts'', field dec_int cm_Parts cm_Parts_update),
      (''checksums'', field dec_slice cm_Checksums cm_Checksums_update)]"

definition missing_parts :: "upload_session \<Rightarrow> int \<Rightarrow> int list" where
  "missing_parts sess n = filter (\<lambda>i. map_of (u_Parts sess) i = None) [1..n]"

definition short_part :: "upload_session \<Rightarrow> int \<Rightarrow> int option" where
  "short_part sess n = find (\<lambda>i. p_Size (part_at sess i) \<noteq> u_PartSize sess) [1..n - 1]"

definition wrong_checksum :: "upload_session \<Rightarrow> gostring list \<Rightarrow> int \<Rightarrow> int option" where
  "wrong_checksum sess cs n =
     find (\<lambda>i. cs ! nat (i - 1) \<noteq> p_Checksum (part_at sess i)) [1..n]"

text \<open>The loop that folds the parts after the first into the accumulator and the size.\<close>

fun fold_parts :: "upload_session \<Rightarrow> 32 word \<Rightarrow> int \<Rightarrow> int list \<Rightarrow> (32 word \<times> int) option" where
  "fold_parts sess acc sz [] = Some (acc, sz)"
| "fold_parts sess acc sz (i # is) =
     (case ParseChecksum (p_Checksum (part_at sess i)) of
        None \<Rightarrow> None
      | Some crc \<Rightarrow>
          fold_parts sess (CombineCRC32C acc crc (p_Size (part_at sess i)))
            (int64 (sz + p_Size (part_at sess i))) is)"

definition fold_upload :: "upload_session \<Rightarrow> int \<Rightarrow> (32 word \<times> int) option" where
  "fold_upload sess n =
     (case ParseChecksum (p_Checksum (part_at sess 1)) of
        None \<Rightarrow> None
      | Some acc \<Rightarrow> fold_parts sess acc (p_Size (part_at sess 1)) [2..n])"

text \<open>The three checks of the contract, in its order.\<close>

definition complete_error :: "header \<Rightarrow> upload_session \<Rightarrow> complete_body \<Rightarrow> response option" where
  "complete_error w sess body =
     (let n = cm_Parts body; missing = missing_parts sess n in
      if missing \<noteq> [] then
        Some (writeError w codeUploadIncomplete ''not every part has been received''
          [(''missing'', JArr (map jint missing))])
      else (case short_part sess n of
        Some i \<Rightarrow> Some (writeError w codePartSizeMismatch
          (''part '' @ FormatInt i @ '' is '' @ FormatInt (p_Size (part_at sess i)) @
           '' bytes, not the session part size '' @ FormatInt (u_PartSize sess)) [(''part'', jint i)])
      | None \<Rightarrow> (case cm_Checksums body of
        None \<Rightarrow> None
      | Some cs \<Rightarrow> (case wrong_checksum sess cs n of
          None \<Rightarrow> None
        | Some i \<Rightarrow> Some (writeError w codeChecksumMismatch
            (''checksum supplied for part '' @ FormatInt i @ '' does not match the recorded one'')
            [(''part'', jint i), (''algorithm'', JStr ''crc32c'')])))))"

text \<open>The transaction, the removal of the overwritten blob and the answer.\<close>

definition finishUpload :: "'s handler \<Rightarrow> header \<Rightarrow> request \<Rightarrow> upload_session \<Rightarrow> object \<Rightarrow> 's \<Rightarrow> response \<times> 's" where
  "finishUpload h w r sess ob s =
     (case us_CompleteUpload (h_uploads h) (u_ID sess) ob s of
        (Inl e, s1) \<Rightarrow>
          (if e = ErrNotFound
           then writeError w codeUploadNotFound (''upload with id='' @ PathValue r ''id'' @ '' not found'') []
           else writeError w codeInternal ''completing upload failed'' [], s1)
      | (Inr prev, s1) \<Rightarrow>
          (let s2 = (if prev \<noteq> [] then snd (bl_Remove (h_blobs h) prev s1) else s1);
               w1 = Header_Add (Header_Add w ''ETag'' (quoted (o_Checksum ob))) ''X-Tunna-Checksum'' (o_Checksum ob)
           in (writeJSON w1 201 (toObjectRecord ob), s2)))"

definition upload_object :: "upload_session \<Rightarrow> 32 word \<Rightarrow> int \<Rightarrow> time \<Rightarrow> object" where
  "upload_object sess acc sz t =
     \<lparr>o_Bucket = u_Bucket sess, o_Key = u_Key sess, o_BlobID = u_BlobID sess, o_Size = sz,
      o_ContentType = u_ContentType sess, o_Checksum = EncodeCRC32C acc,
      o_Metadata = u_Metadata sess, o_CreatedAt = t\<rparr>"

definition completeUpload :: "'s handler \<Rightarrow> env \<Rightarrow> 's route" where
  "completeUpload h ev w r s =
     (case decode_body complete_fields \<lparr>cm_Parts = 0, cm_Checksums = None\<rparr> (rq_json r) of
        Decoded body \<Rightarrow>
          if cm_Parts body < 1 then
            (writeError w codeInvalidParameter ''parts must be at least 1'' [(''name'', JStr ''parts'')], s)
          else if (case cm_Checksums body of None \<Rightarrow> False | Some cs \<Rightarrow> int (length cs) \<noteq> cm_Parts body) then
            (writeError w codeInvalidParameter ''checksums must have exactly one entry per part''
               [(''name'', JStr ''checksums'')], s)
          else (case activeSession h ev w r s of
            (Inl e, s1) \<Rightarrow> (e, s1)
          | (Inr sess, s1) \<Rightarrow>
              (case complete_error w sess body of
                 Some e \<Rightarrow> (e, s1)
               | None \<Rightarrow>
                   (case fold_upload sess (cm_Parts body) of
                      None \<Rightarrow> (writeError w codeInternal ''recorded part checksum is corrupt'' [], s1)
                    | Some (acc, sz) \<Rightarrow>
                        finishUpload h w r sess (upload_object sess acc sz (ev_now ev 2)) s1)))
      | d \<Rightarrow> (bad_body w ''body must be a JSON object'' d, s))"

end
