(* ===== verification/Go_Mux.thy ===== *)
theory Go_Mux
  imports Http_Base
begin

text \<open>
  \<open>http.ServeMux\<close> as the router uses it: patterns without a host, with literal segments,
  single wildcards and multi wildcards.  Matching follows the routing tree of \<open>net/http\<close>: a
  method's own patterns before those without a method (\<open>HEAD\<close> falls back to \<open>GET\<close>), at each
  segment the literal before the single wildcard before the multi wildcard; a path that would
  match exactly with a slash added is redirected, and so is one that is not clean.
\<close>

section \<open>Patterns\<close>

datatype seg = Lit gostring | Wild gostring | Multi gostring

record mux_pattern =
  mp_method :: gostring
  mp_segs :: "seg list"
  mp_text :: gostring

definition pattern_seg :: "gostring \<Rightarrow> seg" where
  "pattern_seg s =
     (case s of
        c # rest \<Rightarrow>
          if c = CHR ''{'' then
            (case CutSuffix (butlast rest) ''...'' of (name, multi) \<Rightarrow> if multi then Multi name else Wild name)
          else Lit s
      | [] \<Rightarrow> Lit [])"

text \<open>A trailing slash is a multi wildcard without a name.\<close>

fun pattern_segs :: "gostring list \<Rightarrow> seg list" where
  "pattern_segs [] = []"
| "pattern_segs [s] = [if s = [] then Multi [] else pattern_seg s]"
| "pattern_segs (s # t # ss) = pattern_seg s # pattern_segs (t # ss)"

definition parse_pattern :: "gostring \<Rightarrow> mux_pattern" where
  "parse_pattern t =
     (case Cut t (CHR '' '') of (m, rest, found) \<Rightarrow>
        let path = (if found then rest else t) in
        \<lparr>mp_method = (if found then m else []),
         mp_segs = pattern_segs (split_on (CHR ''/'') (drop 1 path)), mp_text = t\<rparr>)"

section \<open>Matching a path\<close>

type_synonym mux_node = "(seg list \<times> mux_pattern) list"

definition lit_children :: "mux_node \<Rightarrow> gostring \<Rightarrow> mux_node" where
  "lit_children ps key =
     concat (map (\<lambda>(ss, p). case ss of Lit l # ss' \<Rightarrow> if l = key then [(ss', p)] else [] | _ \<Rightarrow> []) ps)"

definition wild_children :: "mux_node \<Rightarrow> mux_node" where
  "wild_children ps = concat (map (\<lambda>(ss, p). case ss of Wild n # ss' \<Rightarrow> [(ss', p)] | _ \<Rightarrow> []) ps)"

definition multi_child :: "mux_node \<Rightarrow> (gostring \<times> mux_pattern) option" where
  "multi_child ps =
     (case concat (map (\<lambda>(ss, p). case ss of Multi n # _ \<Rightarrow> [(n, p)] | _ \<Rightarrow> []) ps) of
        [] \<Rightarrow> None | c # _ \<Rightarrow> Some c)"

definition leaf :: "mux_node \<Rightarrow> mux_pattern option" where
  "leaf ps = map_option snd (find (\<lambda>(ss, p). ss = []) ps)"

definition path_unescape :: "gostring \<Rightarrow> gostring" where
  "path_unescape s = (case PathUnescape s of None \<Rightarrow> s | Some u \<Rightarrow> u)"

definition firstSegment :: "gostring \<Rightarrow> gostring \<times> gostring" where
  "firstSegment path =
     (if path = ''/'' then (''/'', [])
      else (path_unescape (takeWhile (\<lambda>c. c \<noteq> CHR ''/'') (tl path)), dropWhile (\<lambda>c. c \<noteq> CHR ''/'') (tl path)))"

lemma firstSegment_shorter: "path \<noteq> [] \<Longrightarrow> length (snd (firstSegment path)) < length path"
proof (cases path)
  case (Cons c s)
  have "length (dropWhile (\<lambda>c. c \<noteq> CHR ''/'') s) \<le> length s"
    by (rule length_dropWhile_le)
  with Cons show ?thesis by (simp add: firstSegment_def)
qed simp

text \<open>\<open>routingNode.matchPath\<close>: the pattern and the values of its wildcards, in order.\<close>

function match_path :: "mux_node \<Rightarrow> gostring \<Rightarrow> gostring list \<Rightarrow> (mux_pattern \<times> gostring list) option" where
  "match_path ps path ms =
     (if path = [] then map_option (\<lambda>p. (p, ms)) (leaf ps)
      else
        let seg = fst (firstSegment path); rest = snd (firstSegment path) in
        (case match_path (lit_children ps seg) rest ms of
           Some m \<Rightarrow> Some m
         | None \<Rightarrow>
             (case (if seg = ''/'' then None else match_path (wild_children ps) rest (ms @ [seg])) of
                Some m \<Rightarrow> Some m
              | None \<Rightarrow>
                  (case multi_child ps of
                     None \<Rightarrow> None
                   | Some (n, p) \<Rightarrow>
                       Some (p, if n = [] then ms else ms @ [path_unescape (tl path)])))))"
  by pat_completeness auto
termination
  by (relation "measure (\<lambda>(ps, path, ms). length path)") (simp_all add: firstSegment_shorter)

declare match_path.simps [simp del]

definition method_node :: "mux_pattern list \<Rightarrow> gostring \<Rightarrow> mux_node" where
  "method_node ps m = map (\<lambda>p. (mp_segs p, p)) (filter (\<lambda>p. mp_method p = m) ps)"

definition tree_match :: "mux_pattern list \<Rightarrow> gostring \<Rightarrow> gostring \<Rightarrow> (mux_pattern \<times> gostring list) option" where
  "tree_match ps m path =
     (case match_path (method_node ps m) path [] of
        Some r \<Rightarrow> Some r
      | None \<Rightarrow>
          (case (if m = ''HEAD'' then match_path (method_node ps ''GET'') path [] else None) of
             Some r \<Rightarrow> Some r
           | None \<Rightarrow> match_path (method_node ps []) path []))"

section \<open>Clean paths\<close>

fun clean_segs :: "gostring list \<Rightarrow> gostring list \<Rightarrow> gostring list" where
  "clean_segs [] out = rev out"
| "clean_segs (s # ss) out =
     (if s = [] \<or> s = ''.'' then clean_segs ss out
      else if s = ''..'' then clean_segs ss (tl out)
      else clean_segs ss (s # out))"

definition cleanPath :: "gostring \<Rightarrow> gostring" where
  "cleanPath p =
     (if p = [] then ''/''
      else let p1 = (if hd p = CHR ''/'' then p else CHR ''/'' # p);
               np = CHR ''/'' # join_with ''/'' (clean_segs (split_on (CHR ''/'') p1) [])
           in if last p1 = CHR ''/'' \<and> np \<noteq> ''/'' then np @ ''/'' else np)"

section \<open>Finding the handler\<close>

definition is_multi :: "seg \<Rightarrow> bool" where
  "is_multi sg = (case sg of Multi n \<Rightarrow> True | _ \<Rightarrow> False)"

definition exactMatch :: "mux_pattern option \<Rightarrow> gostring \<Rightarrow> bool" where
  "exactMatch n path =
     (case n of
        None \<Rightarrow> False
      | Some p \<Rightarrow>
          if \<not> is_multi (last (mp_segs p)) then True
          else if path \<noteq> [] \<and> last path \<noteq> CHR ''/'' then False
          else length (mp_segs p) = length (filter (\<lambda>c. c = CHR ''/'') path))"

text \<open>The pattern with the values of its wildcards, a redirect (target path and pattern text), or nothing.\<close>

datatype mux_result =
    MuxFound mux_pattern "gostring list"
  | MuxRedirect gostring gostring
  | MuxNone

definition slash_redirect :: "mux_pattern list \<Rightarrow> gostring \<Rightarrow> gostring \<Rightarrow> bool" where
  "slash_redirect ps m path \<longleftrightarrow>
     \<not> exactMatch (map_option fst (tree_match ps m path)) path \<and> \<not> suffix ''/'' path \<and>
     exactMatch (map_option fst (tree_match ps m (path @ ''/''))) (path @ ''/'')"

definition findHandler :: "mux_pattern list \<Rightarrow> request \<Rightarrow> mux_result" where
  "findHandler ps r =
     (let escaped = rq_EscapedPath r;
          path = (if rq_Method r = ''CONNECT'' then escaped else cleanPath escaped);
          slashed = cleanPath (rq_Path r) @ ''/''
      in if slash_redirect ps (rq_Method r) path then MuxRedirect slashed slashed
         else (case tree_match ps (rq_Method r) path of
           None \<Rightarrow> if path \<noteq> escaped then MuxRedirect path [] else MuxNone
         | Some (p, ms) \<Rightarrow>
             if path \<noteq> escaped then MuxRedirect path (mp_text p) else MuxFound p ms))"

text \<open>\<open>ServeMux.Handler\<close>: the pattern text it reports.\<close>

definition Handler_pattern :: "mux_pattern list \<Rightarrow> request \<Rightarrow> gostring" where
  "Handler_pattern ps r =
     (case findHandler ps r of MuxFound p ms \<Rightarrow> mp_text p | MuxRedirect to t \<Rightarrow> t | MuxNone \<Rightarrow> [])"

text \<open>The names of the wildcards, which \<open>PathValue\<close> looks up.\<close>

definition wildcard_names :: "mux_pattern \<Rightarrow> gostring list" where
  "wildcard_names p =
     concat (map (\<lambda>sg. case sg of Lit l \<Rightarrow> [] | Wild n \<Rightarrow> [n] | Multi n \<Rightarrow> if n = [] then [] else [n]) (mp_segs p))"

section \<open>Answers of the mux itself\<close>

definition path_plain :: "char \<Rightarrow> bool" where
  "path_plain c \<longleftrightarrow>
     is_digit c \<or> (65 \<le> code_of c \<and> code_of c \<le> 90) \<or> (97 \<le> code_of c \<and> code_of c \<le> 122) \<or>
     c \<in> set ''-_.~$&+,/:;=@''"

definition percent :: "(nat \<Rightarrow> char) \<Rightarrow> char \<Rightarrow> gostring" where
  "percent digit c = [CHR ''%'', digit (code_of c div 16), digit (code_of c mod 16)]"

definition upper_hex :: "nat \<Rightarrow> char" where
  "upper_hex n = upper_char (hex_char n)"

definition escape_path :: "gostring \<Rightarrow> gostring" where
  "escape_path p = concat (map (\<lambda>c. if path_plain c then [c] else percent upper_hex c) p)"

text \<open>\<open>hexEscapeNonASCII\<close> on the target of a redirect.\<close>

definition escape_high :: "gostring \<Rightarrow> gostring" where
  "escape_high s = concat (map (\<lambda>c. if code_of c < 128 then [c] else percent hex_char c) s)"

definition html_escape :: "gostring \<Rightarrow> gostring" where
  "html_escape s = concat (map (\<lambda>c.
     if c = CHR ''&'' then ''&amp;'' else if c = CHR ''<'' then ''&lt;''
     else if c = CHR ''>'' then ''&gt;'' else if c = CHR 0x22 then ''&#34;''
     else if c = CHR 0x27 then ''&#39;'' else [c]) s)"

definition redirect_url :: "request \<Rightarrow> gostring \<Rightarrow> gostring" where
  "redirect_url r path = escape_path path @ (if rq_RawQuery r = [] then [] else CHR ''?'' # rq_RawQuery r)"

definition Redirect :: "header \<Rightarrow> request \<Rightarrow> gostring \<Rightarrow> response" where
  "Redirect w r path =
     (let u = redirect_url r path; w1 = Header_Set w ''Location'' (escape_high u) in
      \<lparr>rs_status = 301,
       rs_headers = (if rq_Method r = ''GET'' \<or> rq_Method r = ''HEAD''
         then Header_Set w1 ''Content-Type'' ''text/html; charset=utf-8'' else w1),
       rs_body = (if rq_Method r = ''GET''
         then TextBody (''<a href='' @ [CHR 0x22] @ html_escape u @ [CHR 0x22] @ ''>Moved Permanently</a>.'' @
           [CHR 0x0A, CHR 0x0A])
         else NoBody)\<rparr>)"

definition NotFound :: "header \<Rightarrow> response" where
  "NotFound w =
     \<lparr>rs_status = 404,
      rs_headers = Header_Set (Header_Set w ''Content-Type'' ''text/plain; charset=utf-8'')
        ''X-Content-Type-Options'' ''nosniff'',
      rs_body = TextBody (''404 page not found'' @ [CHR 0x0A])\<rparr>"

end
