(* ===== verification/Http_Router.thy ===== *)
theory Http_Router
  imports Http_Keys Http_Uploads Go_Mux
begin

text \<open>
  \<open>httpapi.go\<close> and \<open>httpapi/cors.go\<close>: the options and their defaults, the table of routes with
  the rules that wrap each, the catch-all, and \<open>New\<close>, the composition of the pipeline: CORS,
  then authentication, then the mux.
\<close>

section \<open>Options\<close>

record 's options =
  op_ServerVersion :: gostring
  op_Keys :: "'s key_store"
  op_Buckets :: "'s bucket_store"
  op_Objects :: "'s object_store"
  op_Blobs :: "'s blob_store"
  op_Uploads :: "'s upload_store"
  op_Skew :: int
  op_MaxPresign :: int
  op_PartSizeMin :: int
  op_PartSizeMax :: int
  op_MaxParts :: int
  op_UploadTTL :: int
  op_CORSOrigins :: origins

definition default :: "int \<Rightarrow> int \<Rightarrow> int" where
  "default d x = (if x = 0 then d else x)"

definition new_handler :: "'s options \<Rightarrow> 's handler" where
  "new_handler op =
     \<lparr>h_serverVersion = op_ServerVersion op, h_keys = op_Keys op, h_buckets = op_Buckets op,
      h_objects = op_Objects op, h_blobs = op_Blobs op, h_uploads = op_Uploads op,
      h_skew = default (15 * 60 * Second) (op_Skew op),
      h_maxPresign = default (7 * 24 * 3600 * Second) (op_MaxPresign op),
      h_partSizeMin = default 5242880 (op_PartSizeMin op),
      h_partSizeMax = default 104857600 (op_PartSizeMax op),
      h_maxParts = default 10000 (op_MaxParts op),
      h_uploadTTL = default (24 * 3600 * Second) (op_UploadTTL op),
      h_origins = op_CORSOrigins op\<rparr>"

section \<open>The control routes\<close>

definition health :: "'s route" where
  "health w r s = (writeJSON w 200 (jmap [(''status'', ''ok'')]), s)"

definition version :: "'s handler \<Rightarrow> 's route" where
  "version h w r s = (writeJSON w 200 (jmap [(''version'', h_serverVersion h), (''spec'', SpecVersion)]), s)"

definition limits :: "'s handler \<Rightarrow> 's route" where
  "limits h w r s =
     (writeJSON w 200 (JObj
        [(''object_size_max'', jint maxBodyLength),
         (''part_size_min'', jint (h_partSizeMin h)),
         (''part_size_max'', jint (h_partSizeMax h)),
         (''parts_max'', jint (h_maxParts h)),
         (''list_limit_max'', jint maxListLimit),
         (''key_length_max'', jint (int MaxKeyLength)),
         (''presign_lifetime_max_seconds'', jint (dur_seconds (h_maxPresign h))),
         (''upload_expiry_seconds'', jint (dur_seconds (h_uploadTTL h))),
         (''clock_skew_seconds'', jint (dur_seconds (h_skew h)))]), s)"

section \<open>The table of routes\<close>

definition routes :: "'s handler \<Rightarrow> env \<Rightarrow> (gostring \<times> 's route) list" where
  "routes h ev =
    [(''GET /-/health'', health),
     (''GET /-/version'', version h),
     (''GET /-/limits'', limits h),
     (''GET /-/buckets'', chain (listBuckets h) [requireAuth]),
     (''GET /-/buckets/{bucket}'', chain (getBucket h) [requireAuth, requireAccess Read]),
     (''PUT /-/buckets/{bucket}'', chain (createBucket h ev) [headerFormOnly, requireAuth, requireAdmin]),
     (''DELETE /-/buckets/{bucket}'', chain (deleteBucket h) [requireAuth, requireAdmin]),
     (''PATCH /-/buckets/{bucket}'', chain (patchBucket h) [headerFormOnly, requireAuth, requireAdmin]),
     (''POST /-/uploads'', chain (createUpload h ev) [headerFormOnly, requireAuth]),
     (''PUT /-/uploads/{id}/parts/{n}'', chain (putUploadPart h ev) [requireAuth]),
     (''GET /-/uploads/{id}'', chain (getUpload h ev) [requireAuth]),
     (''DELETE /-/uploads/{id}'', chain (deleteUpload h ev) [requireAuth]),
     (''POST /-/uploads/{id}/complete'', chain (completeUpload h ev) [requireAuth]),
     (''PUT /{bucket}/{key...}'', chain (putObject h ev) [reserved, requireAuth, requireAccess Write]),
     (''GET /{bucket}/{key...}'', chain (getObject h ev) [reserved]),
     (''DELETE /{bucket}/{key...}'', chain (deleteObject h) [reserved, requireAuth, requireAccess Write]),
     (''GET /{bucket}'', chain (listObjects h) [reserved]),
     (''GET /-/keys'', chain (listKeys h) [requireAuth, requireAdmin]),
     (''POST /-/keys'', chain (createKey h ev) [headerFormOnly, requireAuth, requireAdmin]),
     (''GET /-/keys/{id}'', chain (getKey h) [requireAuth, requireAdmin]),
     (''PATCH /-/keys/{id}'', chain (patchKey h) [headerFormOnly, requireAuth, requireAdmin]),
     (''DELETE /-/keys/{id}'', chain (deleteKey h) [requireAuth, requireAdmin]),
     (''POST /-/keys/{id}/rotate'', chain (rotateKey h ev) [requireAuth, requireAdmin]),
     (''GET /-/keys/self'', chain getSelfKey [requireAuth])]"

text \<open>The patterns the mux holds, the catch-all last.\<close>

definition mux_patterns :: "'s handler \<Rightarrow> env \<Rightarrow> mux_pattern list" where
  "mux_patterns h ev = map parse_pattern (map fst (routes h ev) @ [''/''])"

section \<open>The catch-all\<close>

definition probeMethods :: "gostring list" where
  "probeMethods = [''GET'', ''HEAD'', ''POST'', ''PUT'', ''DELETE'', ''OPTIONS'']"

definition counts :: "gostring \<Rightarrow> gostring \<Rightarrow> bool" where
  "counts path pattern =
     (if pattern = [] \<or> pattern = ''/'' then False
      else if HasPrefix path ''/-/'' \<and> sublist ''{bucket}/{key'' pattern then False
      else True)"

definition allowed_methods :: "mux_pattern list \<Rightarrow> request \<Rightarrow> gostring list" where
  "allowed_methods ps r =
     filter (\<lambda>m. counts (rq_Path r) (Handler_pattern ps (r\<lparr>rq_Method := m\<rparr>))) probeMethods"

definition notFound :: "mux_pattern list \<Rightarrow> 's route" where
  "notFound ps w r s =
     (let allowed = allowed_methods ps r in
      (if allowed \<noteq> []
       then writeError (Header_Set w ''Allow'' (join_with '', '' allowed)) codeMethodNotAllowed
              ''method not allowed for this path'' []
       else writeError w codeUnknownRoute ''no such route'' [], s))"

section \<open>Serving\<close>

definition ServeMux :: "'s handler \<Rightarrow> env \<Rightarrow> 's route" where
  "ServeMux h ev w r s =
     (let ps = mux_patterns h ev in
      if rq_EscapedPath r = ''*'' then (writeHeader (Header_Set w ''Connection'' ''close'') 400, s)
      else (case findHandler ps r of
        MuxFound p ms \<Rightarrow>
          (let r1 = r\<lparr>rq_PathValues := zip (wildcard_names p) ms\<rparr> in
           case map_of (routes h ev) (mp_text p) of
             Some f \<Rightarrow> f w r1 s
           | None \<Rightarrow> notFound ps w r1 s)
      | MuxRedirect path t \<Rightarrow> (Redirect w r path, s)
      | MuxNone \<Rightarrow> (NotFound w, s)))"

definition preflight_headers :: "header \<Rightarrow> request \<Rightarrow> gostring \<Rightarrow> header" where
  "preflight_headers w r val =
     (let hdrs = Header_Get (rq_Header r) ''Access-Control-Request-Headers'';
          w1 = Header_Set w ''Access-Control-Allow-Origin'' val;
          w2 = Header_Set w1 ''Access-Control-Allow-Methods'' ''GET, HEAD, PUT, POST, PATCH, DELETE'';
          w3 = (if hdrs \<noteq> [] then Header_Set w2 ''Access-Control-Allow-Headers'' hdrs else w2);
          w4 = Header_Set w3 ''Access-Control-Max-Age'' ''86400''
      in Header_Set w4 ''Vary'' ''Origin, Access-Control-Request-Method, Access-Control-Request-Headers'')"

definition cors_headers :: "header \<Rightarrow> gostring \<Rightarrow> header" where
  "cors_headers w val =
     (let w1 = Header_Set w ''Access-Control-Allow-Origin'' val;
          w2 = Header_Set w1 ''Access-Control-Expose-Headers'' ''*''
      in if val \<noteq> ''*'' then Header_Set w2 ''Vary'' ''Origin'' else w2)"

definition cors :: "'s handler \<Rightarrow> 's middleware" where
  "cors h nxt w r s =
     (let origin = Header_Get (rq_Header r) ''Origin'' in
      if origin = [] then nxt w r s
      else
        let matched = Match (h_origins h) origin;
            preflight = (rq_Method r = ''OPTIONS'' \<and>
              Header_Get (rq_Header r) ''Access-Control-Request-Method'' \<noteq> [])
        in if preflight then
             (writeHeader (case matched of None \<Rightarrow> w | Some val \<Rightarrow> preflight_headers w r val) 204, s)
           else (case matched of
             None \<Rightarrow> nxt w r s
           | Some val \<Rightarrow> nxt (cors_headers w val) r s))"

text \<open>\<open>New\<close>: a request starts with no headers set.\<close>

definition New :: "'s options \<Rightarrow> env \<Rightarrow> request \<Rightarrow> 's \<Rightarrow> response \<times> 's" where
  "New op ev r s =
     (let h = new_handler op in cors h (authenticate h ev (ServeMux h ev)) [] r s)"

end
