(* ===== verification/Http_Service.thy ===== *)
theory Http_Service
  imports Http_Spec Http_Router
begin

text \<open>
  The handlers over any stores that keep their contracts.  The locale \<open>service\<close> joins the five
  store contracts on the stores of one handler record; its rules walk a handler call by call, so
  that each handler is shown to make only transitions of the specification.
\<close>

section \<open>Walking a handler\<close>

named_theorems walk \<open>one rule per construct and store call of the handlers\<close>

definition sat :: "('a \<Rightarrow> 's \<Rightarrow> bool) \<Rightarrow> 'a \<times> 's \<Rightarrow> bool" where
  "sat Q x \<longleftrightarrow> Q (fst x) (snd x)"

definition accepted :: "response \<Rightarrow> bool" where
  "accepted rs \<longleftrightarrow> rs_status rs < 400 \<and> rs_body rs \<noteq> Aborted"

definition post :: "('s \<Rightarrow> view) \<Rightarrow> ('s \<Rightarrow> bool) \<Rightarrow> apikey option \<Rightarrow> view \<Rightarrow> response \<Rightarrow> 's \<Rightarrow> bool" where
  "post vw I c v rs s \<longleftrightarrow> I s \<and> transition c (accepted rs) v (vw s)"

lemma sat_if [walk]: "(b \<Longrightarrow> sat Q x) \<Longrightarrow> (\<not> b \<Longrightarrow> sat Q y) \<Longrightarrow> sat Q (if b then x else y)"
  by simp

lemma sat_option [walk]:
  "(x = None \<Longrightarrow> sat Q a) \<Longrightarrow> (\<And>y. x = Some y \<Longrightarrow> sat Q (f y)) \<Longrightarrow>
     sat Q (case x of None \<Rightarrow> a | Some y \<Rightarrow> f y)"
  by (cases x) simp_all

lemma sat_sum [walk]:
  "(\<And>e. x = Inl e \<Longrightarrow> sat Q (f e)) \<Longrightarrow> (\<And>y. x = Inr y \<Longrightarrow> sat Q (g y)) \<Longrightarrow>
     sat Q (case x of Inl e \<Rightarrow> f e | Inr y \<Rightarrow> g y)"
  by (cases x) simp_all

lemma sat_decoded [walk]:
  "(\<And>b. x = Decoded b \<Longrightarrow> sat Q (f b)) \<Longrightarrow> sat Q y \<Longrightarrow> (\<And>n. sat Q (g n)) \<Longrightarrow>
     sat Q (case x of Decoded b \<Rightarrow> f b | DecodeSyntax \<Rightarrow> y | DecodeType n \<Rightarrow> g n)"
  by (cases x) simp_all

lemma sat_prod: "(\<And>a b. x = (a, b) \<Longrightarrow> sat Q (f a b)) \<Longrightarrow> sat Q (case x of (a, b) \<Rightarrow> f a b)"
  by (cases x) simp

lemma sat_same: "I s \<Longrightarrow> vw s = v \<Longrightarrow> sat (post vw I c v) (rs, s)"
  by (simp add: sat_def post_def transition_same)

lemma sat_pair: "I s \<Longrightarrow> transition c (accepted rs) v (vw s) \<Longrightarrow> sat (post vw I c v) (rs, s)"
  by (simp add: sat_def post_def)

lemma accepted_simps [simp]:
  "accepted (writeJSON w st j) \<longleftrightarrow> st < 400" "accepted (writeHeader w st) \<longleftrightarrow> st < 400"
  by (simp_all add: accepted_def writeJSON_def writeHeader_def)

lemma not_accepted [simp]: "\<not> accepted (writeError w c m d)" "\<not> accepted aborted"
  by (cases c; simp add: accepted_def writeError_def writeJSON_def statusOf_def)
    (simp add: accepted_def aborted_def)

text \<open>A refusal is an error answer of the API, or a panic that ends the connection.\<close>

definition refusal :: "response \<Rightarrow> bool" where
  "refusal rs \<longleftrightarrow> rs = aborted \<or> (\<exists>w c m d. rs = writeError w c m d)"

lemma refusal_simps [simp]: "refusal aborted" "refusal (writeError w c m d)" "refusal (writeAuthError w c m d)"
  "refusal (bucket_not_found w b)" "refusal (bad_body w m dec)"
  by (auto simp: refusal_def writeAuthError_def bucket_not_found_def bad_body_def)

lemma refusal_not_accepted [simp]: "refusal rs \<Longrightarrow> \<not> accepted rs"
  by (auto simp: refusal_def)

lemma wantChecksum_refusal: "wantChecksum w r = Inl e \<Longrightarrow> refusal e"
  by (auto simp: wantChecksum_def split: checksum_decl.splits option.splits if_splits)

lemma sessionWritable_refusal: "sessionWritable w r b = Some e \<Longrightarrow> refusal e"
  by (auto simp: sessionWritable_def split: if_splits)

lemma complete_error_refusal: "complete_error w se body = Some e \<Longrightarrow> refusal e"
  by (auto simp: complete_error_def Let_def split: option.splits if_splits)

lemmas refusals = wantChecksum_refusal sessionWritable_refusal complete_error_refusal

section \<open>The service\<close>

locale service =
  key_store_laws "h_keys h" view inv kcell +
  bucket_store_laws "h_buckets h" view inv bcell +
  object_store_laws "h_objects h" view inv ocell listable +
  upload_store_laws "h_uploads h" view inv ucell ocell +
  blob_store_laws "h_blobs h" view inv blob_id
  for h :: "'s handler" and view :: "'s \<Rightarrow> view" and inv kcell bcell ocell ucell listable blob_id +
  assumes cell_bucket: "b_Name (bcell b) = b_Name b"
    and cell_upload: "u_ID (ucell se) = u_ID se \<and> u_Bucket (ucell se) = u_Bucket se \<and>
      u_Key (ucell se) = u_Key se \<and> u_BlobID (ucell se) = u_BlobID se \<and> u_Parts (ucell se) = u_Parts se \<and>
      u_PartSize (ucell se) = u_PartSize se"
    and part_limits: "1 \<le> h_partSizeMin h" "h_partSizeMax h \<le> max_part_size" "h_maxParts h \<le> max_part_number"
    and list_all_keys: "listable []"
    and no_empty_id: "v_blobs (view s) [] = None"
begin

lemma sat_get_key [walk]:
  assumes "inv s" "\<And>e s1. inv s1 \<Longrightarrow> view s1 = view s \<Longrightarrow> sat Q (A e s1)"
    "\<And>k s1. inv s1 \<Longrightarrow> view s1 = view s \<Longrightarrow> v_keys (view s) i = Some k \<Longrightarrow> sat Q (B k s1)"
  shows "sat Q (case ks_GetKey (h_keys h) i s of (r, s1) \<Rightarrow> (case r of Inl e \<Rightarrow> A e s1 | Inr k \<Rightarrow> B k s1))"
proof (cases "ks_GetKey (h_keys h) i s")
  case (Pair r s1)
  with get_key [OF assms(1) Pair] assms(2,3) show ?thesis by (cases r) auto
qed

lemma sat_create_key [walk]:
  assumes "inv s" "\<And>e s1. inv s1 \<Longrightarrow> view s1 = view s \<Longrightarrow> sat Q (A e s1)"
    "\<And>u s1. inv s1 \<Longrightarrow> v_keys (view s) (k_ID k) = None \<Longrightarrow>
       view s1 = (view s)\<lparr>v_keys := (v_keys (view s))(k_ID k \<mapsto> kcell k)\<rparr> \<Longrightarrow> sat Q (B u s1)"
  shows "sat Q (case ks_CreateKey (h_keys h) k s of (r, s1) \<Rightarrow> (case r of Inl e \<Rightarrow> A e s1 | Inr u \<Rightarrow> B u s1))"
proof (cases "ks_CreateKey (h_keys h) k s")
  case (Pair r s1)
  with create_key [OF assms(1) Pair] assms(2,3) show ?thesis by (cases r) auto
qed

lemma sat_update_key [walk]:
  assumes "inv s" "\<And>e s1. inv s1 \<Longrightarrow> view s1 = view s \<Longrightarrow> sat Q (A e s1)"
    "\<And>u s1 old. inv s1 \<Longrightarrow> v_keys (view s) (k_ID k) = Some old \<Longrightarrow>
       view s1 = (view s)\<lparr>v_keys := (v_keys (view s))(k_ID k \<mapsto> kcell (k\<lparr>k_CreatedAt := k_CreatedAt old\<rparr>))\<rparr> \<Longrightarrow>
       sat Q (B u s1)"
  shows "sat Q (case ks_UpdateKey (h_keys h) k s of (r, s1) \<Rightarrow> (case r of Inl e \<Rightarrow> A e s1 | Inr u \<Rightarrow> B u s1))"
proof (cases "ks_UpdateKey (h_keys h) k s")
  case (Pair r s1)
  with update_key [OF assms(1) Pair] assms(2,3) show ?thesis by (cases r) auto
qed

lemma sat_delete_key [walk]:
  assumes "inv s" "\<And>e s1. inv s1 \<Longrightarrow> view s1 = view s \<Longrightarrow> sat Q (A e s1)"
    "\<And>u s1. inv s1 \<Longrightarrow> v_keys (view s) i \<noteq> None \<Longrightarrow>
       view s1 = (view s)\<lparr>v_keys := (v_keys (view s))(i := None)\<rparr> \<Longrightarrow> sat Q (B u s1)"
  shows "sat Q (case ks_DeleteKey (h_keys h) i s of (r, s1) \<Rightarrow> (case r of Inl e \<Rightarrow> A e s1 | Inr u \<Rightarrow> B u s1))"
proof (cases "ks_DeleteKey (h_keys h) i s")
  case (Pair r s1)
  with delete_key [OF assms(1) Pair] assms(2,3) show ?thesis by (cases r) auto
qed

lemma sat_list_keys [walk]:
  assumes "inv s" "\<And>e s1. inv s1 \<Longrightarrow> view s1 = view s \<Longrightarrow> sat Q (A e s1)"
    "\<And>l s1. inv s1 \<Longrightarrow> view s1 = view s \<Longrightarrow> sat Q (B l s1)"
  shows "sat Q (case ks_ListKeys (h_keys h) s of (r, s1) \<Rightarrow> (case r of Inl e \<Rightarrow> A e s1 | Inr l \<Rightarrow> B l s1))"
proof (cases "ks_ListKeys (h_keys h) s")
  case (Pair r s1)
  with list_keys [OF assms(1) Pair] assms(2,3) show ?thesis by (cases r) auto
qed

lemma sat_get_bucket [walk]:
  assumes "inv s" "\<And>e s1. inv s1 \<Longrightarrow> view s1 = view s \<Longrightarrow> sat Q (A e s1)"
    "\<And>b s1. inv s1 \<Longrightarrow> view s1 = view s \<Longrightarrow> v_buckets (view s) n = Some b \<Longrightarrow> sat Q (B b s1)"
  shows "sat Q (case bs_GetBucket (h_buckets h) n s of (r, s1) \<Rightarrow> (case r of Inl e \<Rightarrow> A e s1 | Inr b \<Rightarrow> B b s1))"
proof (cases "bs_GetBucket (h_buckets h) n s")
  case (Pair r s1)
  with get_bucket [OF assms(1) Pair] assms(2,3) show ?thesis by (cases r) auto
qed

lemma sat_create_bucket [walk]:
  assumes "inv s" "\<And>e s1. inv s1 \<Longrightarrow> view s1 = view s \<Longrightarrow> sat Q (A e s1)"
    "\<And>u s1. inv s1 \<Longrightarrow> v_buckets (view s) (b_Name b) = None \<Longrightarrow>
       view s1 = (view s)\<lparr>v_buckets := (v_buckets (view s))(b_Name b \<mapsto> bcell b)\<rparr> \<Longrightarrow> sat Q (B u s1)"
  shows "sat Q (case bs_CreateBucket (h_buckets h) b s of (r, s1) \<Rightarrow> (case r of Inl e \<Rightarrow> A e s1 | Inr u \<Rightarrow> B u s1))"
proof (cases "bs_CreateBucket (h_buckets h) b s")
  case (Pair r s1)
  with create_bucket [OF assms(1) Pair] assms(2,3) show ?thesis by (cases r) auto
qed

lemma sat_list_buckets [walk]:
  assumes "inv s" "\<And>e s1. inv s1 \<Longrightarrow> view s1 = view s \<Longrightarrow> sat Q (A e s1)"
    "\<And>l s1. inv s1 \<Longrightarrow> view s1 = view s \<Longrightarrow> sat Q (B l s1)"
  shows "sat Q (case bs_ListBuckets (h_buckets h) s of (r, s1) \<Rightarrow> (case r of Inl e \<Rightarrow> A e s1 | Inr l \<Rightarrow> B l s1))"
proof (cases "bs_ListBuckets (h_buckets h) s")
  case (Pair r s1)
  with list_buckets [OF assms(1) Pair] assms(2,3) show ?thesis by (cases r) auto
qed

lemma sat_delete_bucket [walk]:
  assumes "inv s" "\<And>e s1. inv s1 \<Longrightarrow> view s1 = view s \<Longrightarrow> sat Q (A e s1)"
    "\<And>u s1 b. inv s1 \<Longrightarrow> v_buckets (view s) n = Some b \<Longrightarrow>
       view s1 = (view s)\<lparr>v_buckets := (v_buckets (view s))(n := None)\<rparr> \<Longrightarrow> sat Q (B u s1)"
  shows "sat Q (case bs_DeleteBucket (h_buckets h) n s of (r, s1) \<Rightarrow> (case r of Inl e \<Rightarrow> A e s1 | Inr u \<Rightarrow> B u s1))"
proof (cases "bs_DeleteBucket (h_buckets h) n s")
  case (Pair r s1)
  with delete_bucket [OF assms(1) Pair] assms(2,3) show ?thesis by (cases r) auto
qed

lemma sat_update_bucket [walk]:
  assumes "inv s" "\<And>e s1. inv s1 \<Longrightarrow> view s1 = view s \<Longrightarrow> sat Q (A e s1)"
    "\<And>u s1 old. inv s1 \<Longrightarrow> v_buckets (view s) (b_Name b) = Some old \<Longrightarrow>
       view s1 = (view s)\<lparr>v_buckets := (v_buckets (view s))(b_Name b \<mapsto> old\<lparr>b_Public := b_Public b\<rparr>)\<rparr> \<Longrightarrow>
       sat Q (B u s1)"
  shows "sat Q (case bs_UpdateBucket (h_buckets h) b s of (r, s1) \<Rightarrow> (case r of Inl e \<Rightarrow> A e s1 | Inr u \<Rightarrow> B u s1))"
proof (cases "bs_UpdateBucket (h_buckets h) b s")
  case (Pair r s1)
  with update_bucket [OF assms(1) Pair] assms(2,3) show ?thesis by (cases r) auto
qed

lemma sat_put_object [walk]:
  assumes "inv s" "\<And>e s1. inv s1 \<Longrightarrow> view s1 = view s \<Longrightarrow> sat Q (A e s1)"
    "\<And>prev s1. inv s1 \<Longrightarrow> prev = blob_previous (view s) ob \<Longrightarrow>
       view s1 = (view s)\<lparr>v_objects := (v_objects (view s))((o_Bucket ob, o_Key ob) \<mapsto> ocell ob)\<rparr> \<Longrightarrow> sat Q (B prev s1)"
  shows "sat Q (case os_PutObject (h_objects h) ob s of (r, s1) \<Rightarrow> (case r of Inl e \<Rightarrow> A e s1 | Inr prev \<Rightarrow> B prev s1))"
proof (cases "os_PutObject (h_objects h) ob s")
  case (Pair r s1)
  with put_object [OF assms(1) Pair] assms(2,3) show ?thesis by (cases r) auto
qed

lemma sat_get_object [walk]:
  assumes "inv s" "\<And>e s1. inv s1 \<Longrightarrow> view s1 = view s \<Longrightarrow> sat Q (A e s1)"
    "\<And>ob s1. inv s1 \<Longrightarrow> view s1 = view s \<Longrightarrow>
       v_objects (view s) (b, k) = Some ob \<Longrightarrow> sat Q (B ob s1)"
  shows "sat Q (case os_GetObject (h_objects h) b k s of (r, s1) \<Rightarrow> (case r of Inl e \<Rightarrow> A e s1 | Inr ob \<Rightarrow> B ob s1))"
proof (cases "os_GetObject (h_objects h) b k s")
  case (Pair r s1)
  with get_object [OF assms(1) Pair] assms(2,3) show ?thesis by (cases r) auto
qed

lemma sat_delete_object [walk]:
  assumes "inv s" "\<And>e s1. inv s1 \<Longrightarrow> view s1 = view s \<Longrightarrow> sat Q (A e s1)"
    "\<And>blob s1 ob. inv s1 \<Longrightarrow> v_objects (view s) (b, k) = Some ob \<Longrightarrow>
       blob = o_BlobID ob \<Longrightarrow>
       view s1 = (view s)\<lparr>v_objects := (v_objects (view s))((b, k) := None)\<rparr> \<Longrightarrow> sat Q (B blob s1)"
  shows "sat Q (case os_DeleteObject (h_objects h) b k s of (r, s1) \<Rightarrow> (case r of Inl e \<Rightarrow> A e s1 | Inr blob \<Rightarrow> B blob s1))"
proof (cases "os_DeleteObject (h_objects h) b k s")
  case (Pair r s1)
  with delete_object [OF assms(1) Pair] assms(2,3) show ?thesis by (cases r) auto
qed

lemma sat_list_objects [walk]:
  assumes "inv s" "\<And>e s1. inv s1 \<Longrightarrow> view s1 = view s \<Longrightarrow> sat Q (A e s1)"
    "\<And>l s1. inv s1 \<Longrightarrow> view s1 = view s \<Longrightarrow>
       listable pre \<longrightarrow> 0 < limit \<longrightarrow> is_listing (view s) b pre aft (nat limit) l \<Longrightarrow> sat Q (B l s1)"
  shows "sat Q (case os_ListObjects (h_objects h) b pre aft limit s of (r, s1) \<Rightarrow> (case r of Inl e \<Rightarrow> A e s1 | Inr l \<Rightarrow> B l s1))"
proof (cases "os_ListObjects (h_objects h) b pre aft limit s")
  case (Pair r s1)
  with list_objects [OF assms(1) Pair] assms(2,3) show ?thesis by (cases r) auto
qed

lemma sat_create_upload [walk]:
  assumes "inv s" "\<And>e s1. inv s1 \<Longrightarrow> view s1 = view s \<Longrightarrow> sat Q (A e s1)"
    "\<And>u s1. inv s1 \<Longrightarrow> v_uploads (view s) (u_ID se) = None \<Longrightarrow>
       view s1 = (view s)\<lparr>v_uploads := (v_uploads (view s))(u_ID se \<mapsto> ucell se)\<rparr> \<Longrightarrow> sat Q (B u s1)"
  shows "sat Q (case us_CreateUpload (h_uploads h) se s of (r, s1) \<Rightarrow> (case r of Inl e \<Rightarrow> A e s1 | Inr u \<Rightarrow> B u s1))"
proof (cases "us_CreateUpload (h_uploads h) se s")
  case (Pair r s1)
  with create_upload [OF assms(1) Pair] assms(2,3) show ?thesis by (cases r) auto
qed

lemma sat_get_upload [walk]:
  assumes "inv s" "\<And>e s1. inv s1 \<Longrightarrow> view s1 = view s \<Longrightarrow> sat Q (A e s1)"
    "\<And>se s1. inv s1 \<Longrightarrow> view s1 = view s \<Longrightarrow>
       v_uploads (view s) i = Some se \<Longrightarrow>
       u_ID se = i \<Longrightarrow> sat Q (B se s1)"
  shows "sat Q (case us_GetUpload (h_uploads h) i s of (r, s1) \<Rightarrow> (case r of Inl e \<Rightarrow> A e s1 | Inr se \<Rightarrow> B se s1))"
proof (cases "us_GetUpload (h_uploads h) i s")
  case (Pair r s1)
  with get_upload [OF assms(1) Pair] assms(2,3) show ?thesis by (cases r) auto
qed

lemma sat_put_part [walk]:
  assumes "inv s" "\<And>e s1. inv s1 \<Longrightarrow> view s1 = view s \<Longrightarrow> sat Q (A e s1)"
    "\<And>u s1 se. inv s1 \<Longrightarrow> v_uploads (view s) i = Some se \<Longrightarrow>
       view s1 = (view s)\<lparr>v_uploads := (v_uploads (view s))(i \<mapsto> se\<lparr>u_Parts := map_put (u_Parts se) n p\<rparr>)\<rparr> \<Longrightarrow> sat Q (B u s1)"
  shows "sat Q (case us_PutPart (h_uploads h) i n p s of (r, s1) \<Rightarrow> (case r of Inl e \<Rightarrow> A e s1 | Inr u \<Rightarrow> B u s1))"
proof (cases "us_PutPart (h_uploads h) i n p s")
  case (Pair r s1)
  with put_part [OF assms(1) Pair] assms(2,3) show ?thesis by (cases r) auto
qed

lemma sat_complete_upload [walk]:
  assumes "inv s" "\<And>e s1. inv s1 \<Longrightarrow> view s1 = view s \<Longrightarrow> sat Q (A e s1)"
    "\<And>prev s1. inv s1 \<Longrightarrow> v_uploads (view s) i \<noteq> None \<Longrightarrow>
       prev = blob_previous (view s) ob \<Longrightarrow>
       view s1 = (view s)\<lparr>v_objects := (v_objects (view s))((o_Bucket ob, o_Key ob) \<mapsto> ocell ob),
         v_uploads := (v_uploads (view s))(i := None)\<rparr> \<Longrightarrow> sat Q (B prev s1)"
  shows "sat Q (case us_CompleteUpload (h_uploads h) i ob s of (r, s1) \<Rightarrow> (case r of Inl e \<Rightarrow> A e s1 | Inr prev \<Rightarrow> B prev s1))"
proof (cases "us_CompleteUpload (h_uploads h) i ob s")
  case (Pair r s1)
  with complete_upload [OF assms(1) Pair] assms(2,3) show ?thesis by (cases r) auto
qed

lemma sat_delete_upload [walk]:
  assumes "inv s" "\<And>e s1. inv s1 \<Longrightarrow> view s1 = view s \<Longrightarrow> sat Q (A e s1)"
    "\<And>se s1. inv s1 \<Longrightarrow> v_uploads (view s) i = Some se \<Longrightarrow>
       view s1 = (view s)\<lparr>v_uploads := (v_uploads (view s))(i := None)\<rparr> \<Longrightarrow> sat Q (B se s1)"
  shows "sat Q (case us_DeleteUpload (h_uploads h) i s of (r, s1) \<Rightarrow> (case r of Inl e \<Rightarrow> A e s1 | Inr se \<Rightarrow> B se s1))"
proof (cases "us_DeleteUpload (h_uploads h) i s")
  case (Pair r s1)
  with delete_upload [OF assms(1) Pair] assms(2,3) show ?thesis by (cases r) auto
qed

lemma sat_count_uploads [walk]:
  assumes "inv s" "\<And>e s1. inv s1 \<Longrightarrow> view s1 = view s \<Longrightarrow> sat Q (A e s1)"
    "\<And>n s1. inv s1 \<Longrightarrow> view s1 = view s \<Longrightarrow>
       n = 0 \<longleftrightarrow> (\<forall>i se. v_uploads (view s) i = Some se \<longrightarrow> u_Bucket se \<noteq> b) \<Longrightarrow> sat Q (B n s1)"
  shows "sat Q (case us_CountUploads (h_uploads h) b s of (r, s1) \<Rightarrow> (case r of Inl e \<Rightarrow> A e s1 | Inr n \<Rightarrow> B n s1))"
proof (cases "us_CountUploads (h_uploads h) b s")
  case (Pair r s1)
  with count_uploads [OF assms(1) Pair] assms(2,3) show ?thesis by (cases r) auto
qed

lemma sat_open_blob [walk]:
  assumes "inv s" "\<And>e s1. inv s1 \<Longrightarrow> view s1 = view s \<Longrightarrow> sat Q (A e s1)"
    "\<And>bytes s1. inv s1 \<Longrightarrow> view s1 = view s \<Longrightarrow> v_blobs (view s) i = Some bytes \<Longrightarrow> sat Q (B bytes s1)"
  shows "sat Q (case bl_Open (h_blobs h) i s of (r, s1) \<Rightarrow> (case r of Inl e \<Rightarrow> A e s1 | Inr bytes \<Rightarrow> B bytes s1))"
proof (cases "bl_Open (h_blobs h) i s")
  case (Pair r s1)
  with open_blob [OF assms(1) Pair] assms(2,3) show ?thesis by (cases r) auto
qed

text \<open>Creating a blob leaves at most a new empty one, on failure too.\<close>

lemma sat_create_blob [walk]:
  assumes "inv s"
    "\<And>e s1 B1. inv s1 \<Longrightarrow> view s1 = (view s)\<lparr>v_blobs := B1\<rparr> \<Longrightarrow>
       (\<And>i. v_blobs (view s) i \<noteq> None \<Longrightarrow> B1 i = v_blobs (view s) i) \<Longrightarrow> sat Q (A e s1)"
    "\<And>i s1. inv s1 \<Longrightarrow> v_blobs (view s) i = None \<Longrightarrow>
       view s1 = (view s)\<lparr>v_blobs := (v_blobs (view s))(i \<mapsto> [])\<rparr> \<Longrightarrow> sat Q (B i s1)"
  shows "sat Q (case bl_Create (h_blobs h) raw s of (r, s1) \<Rightarrow> (case r of Inl e \<Rightarrow> A e s1 | Inr i \<Rightarrow> B i s1))"
proof (cases "bl_Create (h_blobs h) raw s")
  case (Pair r s1)
  note law = create_blob [OF assms(1) Pair]
  show ?thesis
  proof (cases r)
    case (Inl e)
    with law have "inv s1" and "view s1 = view s \<or> (\<exists>i. v_blobs (view s) i = None \<and>
        view s1 = (view s)\<lparr>v_blobs := (v_blobs (view s))(i \<mapsto> [])\<rparr>)"
      by simp_all
    then have "view s1 = (view s)\<lparr>v_blobs := v_blobs (view s1)\<rparr>"
      "\<And>i. v_blobs (view s) i \<noteq> None \<Longrightarrow> v_blobs (view s1) i = v_blobs (view s) i" by auto
    with assms(2) \<open>inv s1\<close> Inl Pair show ?thesis by simp
  next
    case (Inr i)
    with law assms(3) Pair show ?thesis by simp
  qed
qed

text \<open>Removing a blob changes at most that blob.\<close>

lemma removed:
  assumes "inv s"
  shows "inv (snd (bl_Remove (h_blobs h) i s)) \<and>
    (\<exists>B. view (snd (bl_Remove (h_blobs h) i s)) = (view s)\<lparr>v_blobs := B\<rparr> \<and>
       (\<forall>j. j \<noteq> i \<longrightarrow> B j = v_blobs (view s) j))"
proof (cases "bl_Remove (h_blobs h) i s")
  case (Pair r s1)
  show ?thesis
  proof (cases r)
    case (Inl e)
    with remove_blob [OF assms Pair] Pair have "inv s1" "view s1 = (view s)\<lparr>v_blobs := v_blobs (view s)\<rparr>"
      by simp_all
    with Pair show ?thesis by (metis snd_conv)
  next
    case (Inr u)
    with remove_blob [OF assms Pair] Pair show ?thesis
      by (intro conjI exI [of _ "(v_blobs (view s))(i := None)"]) simp_all
  qed
qed

end

end
