(* ===== verification/Http_Handlers.thy ===== *)
theory Http_Handlers
  imports Http_Service
begin

text \<open>
  Every handler, over any stores that keep their contracts and from any consistent view, makes a
  transition of the specification; the rules that wrap the routes supply what the transition
  asks of the caller.
\<close>

section \<open>The fold of the parts\<close>

lemma complete_error_None: "complete_error w se body = None \<Longrightarrow> whole se (cm_Parts body)"
  by (auto simp: complete_error_def Let_def whole_def missing_parts_def short_part_def filter_empty_conv
      find_None_iff split: if_splits option.splits)

lemma fold_parts_slices:
  assumes "recorded se blob" "whole se n" "int (length blob) < 2 ^ 63" "1 \<le> k" "k \<le> n"
  shows "fold_parts se (crc32c (take (nat (part_end se k)) blob)) (part_end se k) [k + 1..n] =
    Some (crc32c (take (nat (part_end se n)) blob), part_end se n)"
  using assms(4,5)
proof (induction "nat (n - k)" arbitrary: k)
  case 0
  then have "k = n" by simp
  then show ?case by simp
next
  case (Suc d)
  then have k: "k < n" by linarith
  have here: "map_of (u_Parts se) (k + 1) \<noteq> None" "part_end se k = k * u_PartSize se"
    using assms(2) Suc.prems k by (auto simp: whole_def part_end_def algebra_simps)
  note at = recorded_at [OF assms(1) here(1)] and tk = take_part [OF assms(1) here(1)]
  have "part_end se k + p_Size (part_at se (k + 1)) = part_end se (k + 1)"
    using here(2) by (simp add: part_end_def)
  moreover have "0 \<le> part_end se k" using here(2) Suc.prems at(2,3) by simp
  ultimately have sz: "int64 (part_end se k + p_Size (part_at se (k + 1))) = part_end se (k + 1)"
    using at(2,4) assms(3) by (simp add: int64_small)
  have "CombineCRC32C (crc32c (take (nat (part_end se k)) blob))
      (crc32c (part_slice se blob (k + 1) (p_Size (part_at se (k + 1))))) (p_Size (part_at se (k + 1))) =
      crc32c (take (nat (part_end se (k + 1))) blob)"
    using CombineCRC32C_append [of "take (nat (part_end se k)) blob"
        "part_slice se blob (k + 1) (p_Size (part_at se (k + 1)))"] tk here(2) by simp
  moreover have "[k + 1..n] = (k + 1) # [k + 1 + 1..n]" using k by (simp add: upto.simps)
  ultimately show ?case
    using Suc.hyps(1) [of "k + 1"] Suc.hyps(2) k Suc.prems at(5) sz by simp
qed

text \<open>The fold answers the checksum and the length of the parts' bytes in the blob.\<close>

lemma fold_upload_slices:
  assumes "recorded se blob" "whole se n" "int (length blob) < 2 ^ 63" "1 \<le> n"
  shows "fold_upload se n = Some (crc32c (take (nat (part_end se n)) blob), part_end se n)"
proof -
  have here: "map_of (u_Parts se) 1 \<noteq> None" using assms(2,4) by (auto simp: whole_def)
  have "take (nat (part_end se 1)) blob = part_slice se blob 1 (p_Size (part_at se 1))"
    using take_part(1) [OF assms(1) here] by simp
  moreover have "part_end se 1 = p_Size (part_at se 1)" by (simp add: part_end_def)
  ultimately show ?thesis
    using fold_parts_slices [OF assms(1-3), of 1] assms(4) recorded_at(5) [OF assms(1) here]
    by (simp add: fold_upload_def)
qed

section \<open>Every handler\<close>

context service begin

abbreviation "ok r s \<equiv> sat (post view inv (rq_caller r) (view s))"

section \<open>Routes that change nothing\<close>

lemma ok_getBucket: "inv s \<Longrightarrow> ok r s (getBucket h w r s)"
  unfolding getBucket_def Let_def by (intro walk) (simp_all add: sat_same)

lemma ok_listBuckets: "inv s \<Longrightarrow> ok r s (listBuckets h w r s)"
  unfolding listBuckets_def by (intro walk) (simp_all add: sat_same)

lemma ok_getKey: "inv s \<Longrightarrow> ok r s (getKey h w r s)"
  unfolding getKey_def Let_def by (intro walk) (simp_all add: sat_same)

lemma ok_listKeys: "inv s \<Longrightarrow> ok r s (listKeys h w r s)"
  unfolding listKeys_def by (intro walk) (simp_all add: sat_same)

lemma ok_getSelfKey: "inv s \<Longrightarrow> ok r s (getSelfKey w r s)"
  by (simp add: getSelfKey_def sat_same)

section \<open>Buckets\<close>

lemma admin_caller: "k_Admin (caller_key r) \<Longrightarrow> \<exists>a. rq_caller r = Some a \<and> k_Admin a"
  by (auto simp: caller_key_def zero_key_def split: option.splits)

lemma ok_createBucket:
  assumes "inv s" "k_Admin (caller_key r)"
  shows "ok r s (createBucket h ev w r s)"
proof -
  obtain a where a: "rq_caller r = Some a" "k_Admin a" using admin_caller [OF assms(2)] by blast
  show ?thesis
    unfolding createBucket_def Let_def
    by (intro walk) (auto simp: assms(1) sat_same a cell_bucket intro!: sat_pair transition.NewBucket)
qed

lemma ok_patchBucket:
  assumes "inv s" "consistent (view s)" "k_Admin (caller_key r)"
  shows "ok r s (patchBucket h w r s)"
proof -
  obtain a where a: "rq_caller r = Some a" "k_Admin a" using admin_caller [OF assms(3)] by blast
  show ?thesis
    unfolding patchBucket_def Let_def
    by (intro walk) (auto simp: assms(1) sat_same a intro!: sat_pair transition.SetBucket)
qed

lemma empty_page:
  assumes "consistent (view s)" "is_listing (view s) n [] [] 1 []"
  shows "v_objects (view s) (n, k) = None"
proof (rule ccontr)
  assume "v_objects (view s) (n, k) \<noteq> None"
  moreover from this have "k \<noteq> []"
    using consistentD(2) [OF assms(1), of n k] by (auto simp: ValidateObjectKey_def)
  ultimately have "k \<in> listing_keys (view s) n [] []"
    by (auto simp: listing_keys_def neq_Nil_conv)
  moreover have "take 1 (sorted_list_of_set (listing_keys (view s) n [] [])) = []"
    "finite (listing_keys (view s) n [] [])"
    using assms(2) by (simp_all add: is_listing_def)
  ultimately show False by (auto simp: take_Cons')
qed

lemma ok_deleteBucket:
  assumes "inv s" "consistent (view s)" "k_Admin (caller_key r)"
  shows "ok r s (deleteBucket h w r s)"
proof -
  obtain a where a: "rq_caller r = Some a" "k_Admin a" using admin_caller [OF assms(3)] by blast
  show ?thesis
    unfolding deleteBucket_def Let_def
    using empty_page [OF assms(2)] list_all_keys
    by (intro walk) (auto simp: assms(1) sat_same a intro!: sat_pair transition.DropBucket)
qed

section \<open>Keys\<close>

lemma ok_createKey:
  assumes "inv s" "k_Admin (caller_key r)"
  shows "ok r s (createKey h ev w r s)"
proof -
  obtain a where a: "rq_caller r = Some a" "k_Admin a" using admin_caller [OF assms(2)] by blast
  show ?thesis
    unfolding createKey_def Let_def
    by (intro walk) (auto simp: assms(1) sat_same a intro!: sat_pair transition.NewKey)
qed

lemma ok_patchKey:
  assumes "inv s" "k_Admin (caller_key r)"
  shows "ok r s (patchKey h w r s)"
proof -
  obtain a where a: "rq_caller r = Some a" "k_Admin a" using admin_caller [OF assms(2)] by blast
  show ?thesis
    unfolding patchKey_def Let_def
    by (intro walk) (auto simp: assms(1) sat_same a intro!: sat_pair transition.SetKey)
qed

lemma ok_rotateKey:
  assumes "inv s" "k_Admin (caller_key r)"
  shows "ok r s (rotateKey h ev w r s)"
proof -
  obtain a where a: "rq_caller r = Some a" "k_Admin a" using admin_caller [OF assms(2)] by blast
  show ?thesis
    unfolding rotateKey_def Let_def
    by (intro walk) (auto simp: assms(1) sat_same a intro!: sat_pair transition.SetKey)
qed

lemma ok_deleteKey:
  assumes "inv s" "k_Admin (caller_key r)"
  shows "ok r s (deleteKey h w r s)"
proof -
  obtain a where a: "rq_caller r = Some a" "k_Admin a" using admin_caller [OF assms(2)] by blast
  show ?thesis
    unfolding deleteKey_def Let_def
    by (intro walk) (auto simp: assms(1) sat_same a intro!: sat_pair transition.DropKey)
qed

section \<open>Objects\<close>

lemma sat_readableBucket [walk]:
  assumes "inv s" "\<And>e s1. inv s1 \<Longrightarrow> view s1 = view s \<Longrightarrow> refusal e \<Longrightarrow> sat Q (A e s1)"
    "\<And>b s1. inv s1 \<Longrightarrow> view s1 = view s \<Longrightarrow> v_buckets (view s) n = Some b \<Longrightarrow> sat Q (B b s1)"
  shows "sat Q (case readableBucket h w r n s of (v, s1) \<Rightarrow> (case v of Inl e \<Rightarrow> A e s1 | Inr b \<Rightarrow> B b s1))"
proof (cases "bs_GetBucket (h_buckets h) n s")
  case (Pair v s1)
  with get_bucket [OF assms(1) Pair] assms(2,3) show ?thesis
    by (cases v) (auto simp: readableBucket_def split: option.split)
qed

lemma ok_getObject: "inv s \<Longrightarrow> ok r s (getObject h ev w r s)"
  unfolding getObject_def Let_def
  by (intro walk) (simp_all add: sat_same)

lemma ok_listObjects: "inv s \<Longrightarrow> ok r s (listObjects h w r s)"
  unfolding listObjects_def Let_def
  by (intro walk) (simp_all add: sat_same)

lemma writer: "Allows (caller_key r) Write b \<Longrightarrow> \<exists>a. rq_caller r = Some a \<and> Allows a Write b"
  by (cases "rq_caller r") (simp_all add: caller_key_def zero_key_def Allows_def scope_of_def Write_def covers_def)

lemma quiet_removed:
  assumes "v_objects v (b, k) = Some ob" "consistent v" "\<forall>j. j \<noteq> o_BlobID ob \<longrightarrow> B j = v_blobs v j"
  shows "keeps_blobs v B {ObjectAt b k}"
proof -
  have "blob_of v (ObjectAt b k) = Some (o_BlobID ob)" using assms(1) by simp
  then have "i \<noteq> o_BlobID ob" if "x \<noteq> ObjectAt b k" "blob_of v x = Some i" for x i
    using that consistentD(5) [OF assms(2), of x i "ObjectAt b k"] by auto
  with assms(3) show ?thesis unfolding keeps_blobs_def by auto
qed

lemma ok_deleteObject:
  assumes "inv s" "consistent (view s)" "Allows (caller_key r) Write (PathValue r ''bucket'')"
  shows "ok r s (deleteObject h w r s)"
proof -
  obtain a where a: "rq_caller r = Some a" "Allows a Write (PathValue r ''bucket'')"
    using writer [OF assms(3)] by blast
  let ?b = "PathValue r ''bucket''" and ?k = "PathValue r ''key''"
  have drop: "ok r s (writeHeader w 204, snd (bl_Remove (h_blobs h) (o_BlobID ob) s2))"
    if s2: "inv s2" and row: "v_objects (view s) (?b, ?k) = Some ob"
      and v2: "view s2 = (view s)\<lparr>v_objects := (v_objects (view s))((?b, ?k) := None)\<rparr>" for s2 ob
  proof -
    obtain B where rm: "inv (snd (bl_Remove (h_blobs h) (o_BlobID ob) s2))"
      "view (snd (bl_Remove (h_blobs h) (o_BlobID ob) s2)) = (view s2)\<lparr>v_blobs := B\<rparr>"
      "\<forall>j. j \<noteq> o_BlobID ob \<longrightarrow> B j = v_blobs (view s2) j"
      using removed [OF s2, of "o_BlobID ob"] by auto
    then have "keeps_blobs (view s) B {ObjectAt ?b ?k}"
      using v2 by (intro quiet_removed [OF row assms(2)]) simp
    then show ?thesis
      using transition.DropObject [OF a(2) row] rm(1,2) v2
      by (intro sat_pair) (simp_all add: a(1))
  qed
  show ?thesis
    unfolding deleteObject_def Let_def
    by (intro walk) (simp_all add: assms(1) sat_same drop)
qed

section \<open>putObject\<close>

text \<open>The result of removing the blob being written: at most that blob differs.\<close>

lemma undone:
  assumes "inv s2" "view s2 = v\<lparr>v_blobs := B2\<rparr>" "\<And>j. j \<noteq> i \<Longrightarrow> B2 j = v_blobs v j"
  shows "\<exists>B. inv (snd (bl_Remove (h_blobs h) i s2)) \<and>
    view (snd (bl_Remove (h_blobs h) i s2)) = v\<lparr>v_blobs := B\<rparr> \<and> (\<forall>j. j \<noteq> i \<longrightarrow> B j = v_blobs v j)"
proof -
  obtain B where "inv (snd (bl_Remove (h_blobs h) i s2))"
    "view (snd (bl_Remove (h_blobs h) i s2)) = (view s2)\<lparr>v_blobs := B\<rparr>"
    "\<forall>j. j \<noteq> i \<longrightarrow> B j = v_blobs (view s2) j"
    using removed [OF assms(1), of i] by auto
  with assms(2,3) show ?thesis by (intro exI [of _ B]) simp
qed

lemma sat_storeBody:
  assumes "inv s" "v_blobs (view s) i = Some []"
    "\<And>e s1 B. inv s1 \<Longrightarrow> view s1 = (view s)\<lparr>v_blobs := B\<rparr> \<Longrightarrow>
       \<forall>j. j \<noteq> i \<longrightarrow> B j = v_blobs (view s) j \<Longrightarrow> refusal e \<Longrightarrow> sat Q (E e s1)"
    "\<And>s1. inv s1 \<Longrightarrow> view s1 = (view s)\<lparr>v_blobs := (v_blobs (view s))(i \<mapsto> rd_bytes (rq_Body r))\<rparr> \<Longrightarrow>
       int (length (rd_bytes (rq_Body r))) = rq_ContentLength r \<Longrightarrow>
       want = None \<or> want = Some (crc32c (rd_bytes (rq_Body r))) \<Longrightarrow>
       sat Q (K (crc32c (rd_bytes (rq_Body r))) s1)"
  shows "sat Q (case storeBody h w r i want s of (v, s1) \<Rightarrow> (case v of Inl e \<Rightarrow> E e s1 | Inr crc \<Rightarrow> K crc s1))"
proof -
  obtain n err s1 where w: "bl_Write (h_blobs h) i 0 (rq_Body r) s = ((n, err), s1)"
    by (metis surj_pair)
  let ?bytes = "rd_bytes (rq_Body r)"
  from write_blob [OF assms(1) w] assms(2) obtain k where
    k: "inv s1" "n = int k" "view s1 = (view s)\<lparr>v_blobs := (v_blobs (view s))(i \<mapsto> take k ?bytes)\<rparr>"
      "err = None \<longrightarrow> k = length ?bytes"
    by auto
  have undo: "sat Q (E e (snd (bl_Remove (h_blobs h) i s2)))"
    if s2: "inv s2" "view s2 = (view s)\<lparr>v_blobs := (v_blobs (view s))(i \<mapsto> take k ?bytes)\<rparr>"
      and e: "refusal e" for e s2
    using undone [where v = "view s" and i = i, OF s2] assms(3) [OF _ _ _ e] by fastforce
  show ?thesis
  proof (cases err)
    case (Some x)
    with w undo [OF k(1,3)] show ?thesis by (simp add: storeBody_def)
  next
    case None
    with k have n: "n = int (length ?bytes)" "take k ?bytes = ?bytes" by simp_all
    obtain y s2 where sy: "bl_Sync (h_blobs h) i s1 = (y, s2)" by (metis surj_pair)
    from sync_blob [OF k(1) sy] k(3) have s2: "inv s2" "view s2 = view s1" by simp_all
    with undo [of s2] undo [OF k(1,3)] k(3) w None sy n assms(4) [OF s2(1)] show ?thesis
      by (cases y) (auto simp: storeBody_def Let_def)
  qed
qed

lemma ok_recordObject:
  assumes "inv s" "consistent v" "view s = v\<lparr>v_blobs := (v_blobs v)(o_BlobID ob \<mapsto> bytes)\<rparr>"
    "v_blobs v (o_BlobID ob) = None" "o_Size ob = int (length bytes)" "o_Checksum ob = EncodeCRC32C (crc32c bytes)"
    "Allows a Write (o_Bucket ob)" "v_buckets v (o_Bucket ob) \<noteq> None" "ValidateObjectKey (o_Key ob) = None"
  shows "sat (post view inv (Some a) v) (recordObject h w ob s)"
proof -
  let ?i = "o_BlobID ob" and ?x = "ObjectAt (o_Bucket ob) (o_Key ob)"
  have un: "blob_of v x \<noteq> Some ?i" for x
    using consistentD(4) [OF assms(2), of x ?i] assms(4) by auto
  have others: "j \<noteq> blob_previous v ob" if "x \<noteq> ?x" "blob_of v x = Some j" "blob_previous v ob \<noteq> []" for x j
    using that consistentD(5) [OF assms(2) that(2), of ?x]
    by (auto simp: blob_previous_def split: option.splits)
  have new: "?i \<noteq> blob_previous v ob" if "blob_previous v ob \<noteq> []"
    using un [of ?x] that by (auto simp: blob_previous_def split: option.splits)
  have store: "transition (Some a) True v (view s2)"
    if v2: "view s2 = v\<lparr>v_objects := (v_objects v)((o_Bucket ob, o_Key ob) \<mapsto> ocell ob), v_blobs := B\<rparr>"
      and B: "\<And>j. j = blob_previous v ob \<and> j \<noteq> [] \<or> B j = ((v_blobs v)(?i \<mapsto> bytes)) j" for s2 B
  proof -
    have "B ?i = Some bytes" using B [of ?i] new by auto
    moreover have "keeps_blobs v B {?x}"
      unfolding keeps_blobs_def
    proof (intro allI impI)
      fix x j assume "x \<notin> {?x}" "blob_of v x = Some j"
      then show "B j = v_blobs v j" using B [of j] others [of x j] un [of x] by auto
    qed
    ultimately show ?thesis
      using transition.StoreObject [of a "ocell ob" v B] assms(5-9) un cell_keys [of ob] v2
      by (simp add: unowned_def intact_def)
  qed
  have prev: "blob_previous (view s) ob = blob_previous v ob"
    by (simp add: assms(3) blob_previous_def)
  show ?thesis
    unfolding recordObject_def Let_def
  proof (intro walk)
    fix u s1 assume s1: "inv s1" "u = blob_previous (view s) ob"
      "view s1 = (view s)\<lparr>v_objects := (v_objects (view s))((o_Bucket ob, o_Key ob) \<mapsto> ocell ob)\<rparr>"
    let ?B = "(v_blobs v)(?i \<mapsto> bytes)"
    have v1: "view s1 = v\<lparr>v_objects := (v_objects v)((o_Bucket ob, o_Key ob) \<mapsto> ocell ob), v_blobs := ?B\<rparr>"
      by (rule view.equality) (simp_all add: s1(3) assms(3))
    show "sat (post view inv (Some a) v)
       (writeJSON (Header_Add (Header_Add w ''ETag'' (quoted (o_Checksum ob))) ''X-Tunna-Checksum'' (o_Checksum ob))
         201 (toObjectRecord ob), if u \<noteq> [] then snd (bl_Remove (h_blobs h) u s1) else s1)"
    proof (cases "u = []")
      case True
      with s1(1) store [OF v1] show ?thesis by (auto intro!: sat_pair)
    next
      case False
      obtain B where B: "inv (snd (bl_Remove (h_blobs h) u s1))"
        "view (snd (bl_Remove (h_blobs h) u s1)) = (view s1)\<lparr>v_blobs := B\<rparr>"
        "\<forall>j. j \<noteq> u \<longrightarrow> B j = v_blobs (view s1) j"
        using removed [OF s1(1), of u] by auto
      have "transition (Some a) True v (view (snd (bl_Remove (h_blobs h) u s1)))"
        using B(2,3) False s1(2) prev by (intro store) (auto simp: v1)
      with B(1) False show ?thesis by (auto intro!: sat_pair)
    qed
  next
    fix e s1 assume "inv s1" "view s1 = view s"
    moreover have "keeps_blobs v ((v_blobs v)(?i \<mapsto> bytes)) {}"
      using un unfolding keeps_blobs_def by auto
    ultimately show "sat (post view inv (Some a) v) (writeError w codeInternal ''recording object failed'' [], s1)"
      using assms(3) by (intro sat_pair) (simp_all add: transition.Quiet)
  qed (rule assms(1))
qed

lemma quiet_new:
  assumes "consistent v" "v_blobs v i = None" "\<forall>j. j \<noteq> i \<longrightarrow> B j = v_blobs v j"
  shows "keeps_blobs v B {}"
  using assms consistentD(4) [OF assms(1)] unfolding keeps_blobs_def by metis

lemma quiet_kept:
  assumes "consistent v" "\<And>i. v_blobs v i \<noteq> None \<Longrightarrow> B i = v_blobs v i"
  shows "keeps_blobs v B {}"
  using assms consistentD(4) [OF assms(1)] unfolding keeps_blobs_def by metis

lemma ok_putObject:
  assumes "inv s" "consistent (view s)" "Allows (caller_key r) Write (PathValue r ''bucket'')"
  shows "ok r s (putObject h ev w r s)"
proof -
  obtain a where a: "rq_caller r = Some a" "Allows a Write (PathValue r ''bucket'')"
    using writer [OF assms(3)] by blast
  show ?thesis
    unfolding putObject_def Let_def
  proof (intro walk sat_storeBody, goal_cases)
    case (8 want metadata b s1 e s2 B1)
    then show ?case
      using quiet_kept [OF assms(2), of B1] by (auto intro!: sat_pair transition.Quiet)
  next
    case (11 want metadata b s1 i s2 e s3 B)
    then have "keeps_blobs (view s) B {}"
      by (intro quiet_new [OF assms(2), of i]) auto
    with 11 show ?case by (auto intro!: sat_pair transition.Quiet)
  next
    case (12 want metadata b s1 i s2 s3)
    then have "b_Name b = PathValue r ''bucket''"
      using consistentD(1) [OF assms(2)] by auto
    with 12 a show ?case
      by (auto intro!: ok_recordObject [OF _ assms(2)])
  qed (simp_all add: assms(1) sat_same)
qed

section \<open>Uploads\<close>

lemma sessionWritable_None: "sessionWritable w r b = None \<longleftrightarrow> Allows (caller_key r) Write b"
  by (simp add: sessionWritable_def)

lemma sat_activeSession [walk]:
  assumes "inv s" "\<And>e s1. inv s1 \<Longrightarrow> view s1 = view s \<Longrightarrow> refusal e \<Longrightarrow> sat Q (E e s1)"
    "\<And>se s1. inv s1 \<Longrightarrow> view s1 = view s \<Longrightarrow> v_uploads (view s) (PathValue r ''id'') = Some se \<Longrightarrow>
       u_ID se = PathValue r ''id'' \<Longrightarrow> Allows (caller_key r) Write (u_Bucket se) \<Longrightarrow> sat Q (K se s1)"
  shows "sat Q (case activeSession h ev w r s of (v, s1) \<Rightarrow> (case v of Inl e \<Rightarrow> E e s1 | Inr se \<Rightarrow> K se s1))"
proof (cases "us_GetUpload (h_uploads h) (PathValue r ''id'') s")
  case (Pair v s1)
  with get_upload [OF assms(1) Pair] assms(2,3) show ?thesis
    by (cases v) (auto simp: activeSession_def sessionWritable_None refusals split: option.split)
qed

lemma ok_getUpload: "inv s \<Longrightarrow> ok r s (getUpload h ev w r s)"
  unfolding getUpload_def by (intro walk) (simp_all add: sat_same)

lemma session_others:
  assumes "v_uploads v i = Some se" "consistent v" "\<forall>j. j \<noteq> u_BlobID se \<longrightarrow> B j = v_blobs v j"
  shows "keeps_blobs v B {SessionOf i}"
proof -
  have "blob_of v (SessionOf i) = Some (u_BlobID se)" using assms(1) by simp
  then have "j \<noteq> u_BlobID se" if "x \<noteq> SessionOf i" "blob_of v x = Some j" for x j
    using that consistentD(5) [OF assms(2), of x j "SessionOf i"] by auto
  with assms(3) show ?thesis unfolding keeps_blobs_def by auto
qed

lemma ok_deleteUpload:
  assumes "inv s" "consistent (view s)"
  shows "ok r s (deleteUpload h ev w r s)"
  unfolding deleteUpload_def Let_def
proof (intro walk, goal_cases)
  case (5 se s1 se2 s2)
  then obtain a where a: "rq_caller r = Some a" "Allows a Write (u_Bucket se)"
    using writer by blast
  have se: "se2 = se" using 5 by simp
  obtain B where rm: "inv (snd (bl_Remove (h_blobs h) (u_BlobID se2) s2))"
    "view (snd (bl_Remove (h_blobs h) (u_BlobID se2) s2)) = (view s2)\<lparr>v_blobs := B\<rparr>"
    "\<forall>j. j \<noteq> u_BlobID se2 \<longrightarrow> B j = v_blobs (view s2) j"
    using removed [of s2 "u_BlobID se2"] 5 by auto
  have "keeps_blobs (view s) B {SessionOf (PathValue r ''id'')}"
    using 5 rm(3) se by (intro session_others [OF _ assms(2)]) auto
  with transition.DropSession [OF a(2), of "view s" "PathValue r ''id''" B] 5 rm(1,2) a(1) show ?case
    by (intro sat_pair) simp_all
qed (simp_all add: assms(1) sat_same)

lemma ok_createUpload:
  assumes "inv s" "consistent (view s)"
  shows "ok r s (createUpload h ev w r s)"
  unfolding createUpload_def Let_def
proof (intro walk, goal_cases)
  case (6 body sz x s1 e s2 B1)
  then show ?case
    using quiet_kept [OF assms(2), of B1] by (auto intro!: sat_pair transition.Quiet)
next
  case (8 body sz x s1 i s2 e s3)
  let ?B2 = "(v_blobs (view s))(i \<mapsto> [])"
  have "inv s3" "view s3 = (view s)\<lparr>v_blobs := ?B2\<rparr>" "v_blobs (view s) i = None"
    using 8 by simp_all
  then obtain B where B: "inv (snd (bl_Remove (h_blobs h) i s3))"
    "view (snd (bl_Remove (h_blobs h) i s3)) = (view s)\<lparr>v_blobs := B\<rparr>"
    "\<forall>j. j \<noteq> i \<longrightarrow> B j = v_blobs (view s) j"
    using undone [where ?s2.0 = s3 and v = "view s" and ?B2.0 = ?B2 and i = i] by auto
  have "keeps_blobs (view s) B {}"
    by (rule quiet_new [OF assms(2) \<open>v_blobs (view s) i = None\<close> B(3)])
  with B(1,2) show ?case
    by (intro sat_pair) (simp_all add: newSession_def transition.Quiet)
next
  case (9 body sz x s1 i s2 u s3)
  let ?se = "ucell (newSession h ev body sz i)"
  obtain a where a: "rq_caller r = Some a" "Allows a Write (cu_Bucket body)"
    using 9 writer sessionWritable_None by blast
  have se: "u_ID ?se = u_ID (newSession h ev body sz i)" "u_Bucket ?se = cu_Bucket body"
    "u_Key ?se = cu_Key body" "u_BlobID ?se = i" "u_Parts ?se = []" "u_PartSize ?se = sz"
    by (simp_all add: cell_upload) (simp_all add: newSession_def)
  have "v_blobs (view s) i = None" using 9 by simp
  then have "unowned (view s) i"
    using consistentD(4) [OF assms(2)] unfolding unowned_def by metis
  moreover have "keeps_blobs (view s) ((v_blobs (view s))(i \<mapsto> [])) {}"
    using 9 by (intro quiet_new [OF assms(2), of i]) auto
  ultimately have "transition (Some a) True (view s) ((view s)\<lparr>v_uploads := (v_uploads (view s))(u_ID ?se \<mapsto> ?se),
      v_blobs := (v_blobs (view s))(i \<mapsto> [])\<rparr>)"
    using 9 a se part_limits(1,2) by (intro transition.NewSession) auto
  moreover have "view s3 = (view s)\<lparr>v_uploads := (v_uploads (view s))(u_ID ?se \<mapsto> ?se),
      v_blobs := (v_blobs (view s))(i \<mapsto> [])\<rparr>"
    by (rule view.equality) (simp_all add: 9 se)
  ultimately show ?case using 9 a by (intro sat_pair) simp_all
qed (simp_all add: assms(1) sat_same)

lemma sat_sync_blob [walk]:
  assumes "inv s" "\<And>e s1. inv s1 \<Longrightarrow> view s1 = view s \<Longrightarrow> sat Q (E e s1)"
    "\<And>u s1. inv s1 \<Longrightarrow> view s1 = view s \<Longrightarrow> sat Q (K u s1)"
  shows "sat Q (case bl_Sync (h_blobs h) i s of (v, s1) \<Rightarrow> (case v of Inl e \<Rightarrow> E e s1 | Inr u \<Rightarrow> K u s1))"
proof (cases "bl_Sync (h_blobs h) i s")
  case (Pair v s1)
  with sync_blob [OF assms(1) Pair] assms(2,3) show ?thesis by (cases v) auto
qed

text \<open>A write to the blob of a session puts the bytes that arrived at the place of the part, or nothing.\<close>

lemma written_part:
  assumes "inv s" "consistent (view s)" "v_uploads (view s) (u_ID se) = Some se" "1 \<le> n" "n \<le> h_maxParts h"
    "int (length (rd_bytes rd)) \<le> u_PartSize se"
    and w: "bl_Write (h_blobs h) (u_BlobID se) (part_offset se n) rd s = ((m, err), s1)"
  obtains B k where "inv s1" "view s1 = (view s)\<lparr>v_blobs := B\<rparr>" "keeps_blobs (view s) B {SessionOf (u_ID se)}"
    "B = v_blobs (view s) \<or> places_part (view s) B se n (take k (rd_bytes rd))"
    "err = None \<Longrightarrow> rd_end rd = BodyEOF"
    "err = None \<Longrightarrow> rd_bytes rd \<noteq> [] \<Longrightarrow> m = int (length (rd_bytes rd)) \<and> places_part (view s) B se n (rd_bytes rd)"
proof -
  obtain old where old: "v_blobs (view s) (u_BlobID se) = Some old"
    using consistentD(4) [OF assms(2), of "SessionOf (u_ID se)" "u_BlobID se"] assms(3) by auto
  note law = write_blob [OF assms(1) w, unfolded old option.case]
  show ?thesis
  proof (cases "0 \<le> part_offset se n")
    case True
    with law obtain k where k: "inv s1" "k \<le> length (rd_bytes rd)" "m = int k"
      "view s1 = (view s)\<lparr>v_blobs := (v_blobs (view s))(u_BlobID se \<mapsto>
         write_at old (nat (part_offset se n)) (take k (rd_bytes rd)))\<rparr>"
      "err = None \<longrightarrow> k = length (rd_bytes rd) \<and> rd_end rd = BodyEOF" by auto
    let ?B = "(v_blobs (view s))(u_BlobID se \<mapsto> write_at old (nat (part_offset se n)) (take k (rd_bytes rd)))"
    have "keeps_blobs (view s) ?B {SessionOf (u_ID se)}"
      by (rule session_others [OF assms(3,2)]) simp
    moreover have "places_part (view s) ?B se n (take k (rd_bytes rd))"
      using True assms(4-6) part_limits(3) old k(2) by (auto simp: places_part_def)
    ultimately show ?thesis using that [of ?B k] k by auto
  next
    case False
    with law have "inv s1" "view s1 = (view s)\<lparr>v_blobs := v_blobs (view s)\<rparr>" "err = None \<longrightarrow> rd_bytes rd = [] \<and> rd_end rd = BodyEOF" by simp_all
    then show ?thesis using that [of "v_blobs (view s)" 0] by auto
  qed
qed

lemma ok_storePart:
  assumes "inv s" "consistent (view s)" "v_uploads (view s) (u_ID se) = Some se" "1 \<le> n" "n \<le> h_maxParts h"
    "rq_caller r = Some a" "Allows a Write (u_Bucket se)" "framed r" "1 \<le> rq_ContentLength r"
    "rq_ContentLength r \<le> u_PartSize se"
  shows "ok r s (storePart h w r se n want s)"
proof -
  obtain m err s1 where w: "bl_Write (h_blobs h) (u_BlobID se) (part_offset se n) (rq_Body r) s = ((m, err), s1)"
    by (metis surj_pair)
  have "int (length (rd_bytes (rq_Body r))) \<le> u_PartSize se" using assms(8-10) by (auto simp: framed_def)
  from written_part [OF assms(1-5) this w] obtain B k where B: "inv s1" "view s1 = (view s)\<lparr>v_blobs := B\<rparr>"
    "keeps_blobs (view s) B {SessionOf (u_ID se)}"
    "B = v_blobs (view s) \<or> places_part (view s) B se n (take k (rd_bytes (rq_Body r)))"
    "err = None \<Longrightarrow> rd_end (rq_Body r) = BodyEOF"
    "err = None \<Longrightarrow> rd_bytes (rq_Body r) \<noteq> [] \<Longrightarrow> m = int (length (rd_bytes (rq_Body r))) \<and>
       places_part (view s) B se n (rd_bytes (rq_Body r))"
    by blast
  have wrote: "ok r s (rs, s2)" if "inv s2" "view s2 = view s1" "\<not> accepted rs" for rs s2
    using B(4)
  proof
    assume "B = v_blobs (view s)"
    with that B(2) show ?thesis by (intro sat_same) simp_all
  next
    assume "places_part (view s) B se n (take k (rd_bytes (rq_Body r)))"
    from transition.WritePart [OF assms(7,3) this B(3)] that B(2) assms(6) show ?thesis
      by (intro sat_pair) simp_all
  qed
  show ?thesis
    unfolding storePart_def Let_def w [unfolded part_offset_def] prod.case
  proof (intro walk, goal_cases)
    case (6 u s2 u2 s3 se2)
    have ne: "rd_bytes (rq_Body r) \<noteq> []" using 6 B(5) assms(8,9) by (auto simp: framed_def)
    with 6 B(6) have put: "m = int (length (rd_bytes (rq_Body r)))" "places_part (view s) B se n (rd_bytes (rq_Body r))"
      by simp_all
    have "se2 = se" using 6 B(2) assms(3) by simp
    with put(1) have "view s3 = (view s)\<lparr>v_uploads := (v_uploads (view s))(u_ID se \<mapsto> with_part se n (rd_bytes (rq_Body r))),
        v_blobs := B\<rparr>"
      by (intro view.equality) (simp_all add: 6 B(2) with_part_def)
    with transition.RecordPart [OF assms(7,3) put(2) ne B(3)] 6 assms(6) show ?case
      by (intro sat_pair) simp_all
  qed (simp_all add: B(1) wrote)
qed

lemma ok_putUploadPart:
  assumes "inv s" "consistent (view s)" "framed r"
  shows "ok r s (putUploadPart h ev w r s)"
  unfolding putUploadPart_def Let_def
proof (intro walk, goal_cases)
  case (9 n se s1 want)
  then obtain a where "rq_caller r = Some a" "Allows a Write (u_Bucket se)"
    using writer by blast
  moreover have "1 \<le> rq_ContentLength r" using 9 assms(3) by (auto simp: framed_def)
  ultimately show ?case using ok_storePart [of s1 se n r a w want] 9 assms(2,3) by simp
qed (simp_all add: assms(1) sat_same)

lemma ok_finishUpload:
  assumes "inv s" "consistent (view s)" "v_uploads (view s) (u_ID se) = Some se"
    "rq_caller r = Some a" "Allows a Write (u_Bucket se)"
    "o_Bucket ob = u_Bucket se" "o_Key ob = u_Key se" "o_BlobID ob = u_BlobID se"
    "assembled (view s) se n ob"
  shows "ok r s (finishUpload h w r se ob s)"
proof -
  let ?v = "view s" and ?x = "ObjectAt (u_Bucket se) (u_Key se)"
  have own: "blob_of ?v (SessionOf (u_ID se)) = Some (u_BlobID se)" using assms(3) by simp
  have others: "j \<noteq> blob_previous ?v ob" if "x \<noteq> ?x" "blob_of ?v x = Some j" "blob_previous ?v ob \<noteq> []" for x j
    using that consistentD(5) [OF assms(2) that(2), of ?x] assms(6,7)
    by (auto simp: blob_previous_def split: option.splits)
  have finish: "transition (Some a) True ?v (view s2)"
    if v2: "view s2 = ?v\<lparr>v_objects := (v_objects ?v)((u_Bucket se, u_Key se) \<mapsto> ocell ob),
        v_uploads := (v_uploads ?v)(u_ID se := None), v_blobs := B\<rparr>"
      and B: "\<And>j. j = blob_previous ?v ob \<and> j \<noteq> [] \<or> B j = v_blobs ?v j" for s2 B
  proof -
    have "keeps_blobs ?v B {?x}"
      unfolding keeps_blobs_def
    proof (intro allI impI)
      fix x j assume "x \<notin> {?x}" "blob_of ?v x = Some j"
      then show "B j = v_blobs ?v j" using B [of j] others [of x j] by auto
    qed
    moreover have "assembled ?v se n (ocell ob)" using assms(9) cell_keys [of ob] by (simp add: assembled_def)
    ultimately show ?thesis
      using transition.FinishSession [OF assms(5,3), of "ocell ob" n B] cell_keys [of ob] assms(6-8) v2 by simp
  qed
  show ?thesis
    unfolding finishUpload_def Let_def
  proof (intro walk, goal_cases)
    case (3 u s1)
    let ?w = "Header_Add (Header_Add w ''ETag'' (quoted (o_Checksum ob))) ''X-Tunna-Checksum'' (o_Checksum ob)"
    have v1: "view s1 = ?v\<lparr>v_objects := (v_objects ?v)((u_Bucket se, u_Key se) \<mapsto> ocell ob),
        v_uploads := (v_uploads ?v)(u_ID se := None), v_blobs := v_blobs ?v\<rparr>"
      by (rule view.equality) (simp_all add: 3 assms(6,7))
    show ?case
    proof (cases "u = []")
      case True
      with 3(1) finish [OF v1] assms(4) show ?thesis by (auto intro!: sat_pair)
    next
      case False
      obtain B where B: "inv (snd (bl_Remove (h_blobs h) u s1))"
        "view (snd (bl_Remove (h_blobs h) u s1)) = (view s1)\<lparr>v_blobs := B\<rparr>"
        "\<forall>j. j \<noteq> u \<longrightarrow> B j = v_blobs (view s1) j"
        using removed [OF 3(1), of u] by auto
      have "transition (Some a) True ?v (view (snd (bl_Remove (h_blobs h) u s1)))"
        using B(2,3) False 3(3) by (intro finish) (auto simp: v1)
      with B(1) False assms(4) show ?thesis by (auto intro!: sat_pair)
    qed
  qed (simp_all add: assms(1) sat_same)
qed

lemma ok_completeUpload:
  assumes "inv s" "consistent (view s)"
  shows "ok r s (completeUpload h ev w r s)"
  unfolding completeUpload_def Let_def
proof (intro walk, goal_cases)
  case (6 body se s1 y)
  obtain acc sz where y: "y = (acc, sz)" by (cases y)
  have "whole se (cm_Parts body)" using 6 complete_error_None by blast
  with fold_upload_slices [OF _ this] 6 y
  have "assembled (view s1) se (cm_Parts body) (upload_object se acc sz (ev_now ev 2))"
    by (auto simp: assembled_def upload_object_def)
  moreover from 6 obtain a where "rq_caller r = Some a" "Allows a Write (u_Bucket se)"
    using writer by blast
  ultimately show ?case
    using ok_finishUpload [of s1 se r a "upload_object se acc sz (ev_now ev 2)" "cm_Parts body" w] 6 assms(2) y
    by (simp add: upload_object_def)
qed (simp_all add: assms(1) sat_same)

section \<open>The rules around the routes\<close>

lemma ok_requireAuth: "inv s \<Longrightarrow> (rq_caller r \<noteq> None \<Longrightarrow> ok r s (f w r s)) \<Longrightarrow> ok r s (requireAuth f w r s)"
  by (simp add: requireAuth_def sat_same)

lemma ok_requireAdmin:
  "inv s \<Longrightarrow> (k_Admin (caller_key r) \<Longrightarrow> ok r s (f w r s)) \<Longrightarrow> ok r s (requireAdmin f w r s)"
  by (simp add: requireAdmin_def sat_same)

lemma ok_requireAccess:
  "inv s \<Longrightarrow> (Allows (caller_key r) level (PathValue r ''bucket'') \<Longrightarrow> ok r s (f w r s)) \<Longrightarrow>
     ok r s (requireAccess level f w r s)"
  by (simp add: requireAccess_def sat_same Let_def)

lemma ok_reserved: "inv s \<Longrightarrow> ok r s (f w r s) \<Longrightarrow> ok r s (reserved f w r s)"
  by (simp add: reserved_def sat_same)

lemma ok_headerFormOnly: "inv s \<Longrightarrow> ok r s (f w r s) \<Longrightarrow> ok r s (headerFormOnly f w r s)"
  by (simp add: headerFormOnly_def sat_same)

lemmas ok_rules = ok_requireAuth ok_requireAdmin ok_requireAccess ok_reserved ok_headerFormOnly

lemmas ok_handlers = ok_getBucket ok_listBuckets ok_getKey ok_listKeys ok_getSelfKey ok_createBucket
  ok_patchBucket ok_deleteBucket ok_createKey ok_patchKey ok_rotateKey ok_deleteKey ok_getObject
  ok_listObjects ok_deleteObject ok_putObject ok_getUpload ok_deleteUpload ok_createUpload
  ok_putUploadPart ok_completeUpload

lemma ok_control: "inv s \<Longrightarrow> ok r s (health w r s)" "inv s \<Longrightarrow> ok r s (version h w r s)"
  "inv s \<Longrightarrow> ok r s (limits h w r s)"
  by (simp_all add: health_def version_def limits_def sat_same)

lemma ok_routes:
  "list_all (\<lambda>(t, f). \<forall>w r s. inv s \<longrightarrow> consistent (view s) \<longrightarrow> framed r \<longrightarrow> ok r s (f w r s)) (routes h ev)"
  unfolding routes_def list.pred_inject prod.case chain.simps
  by (intro conjI allI impI ok_rules ok_control ok_handlers list.pred_inject(1); assumption)

lemma ok_ServeMux:
  assumes "inv s" "consistent (view s)" "framed r"
  shows "ok r s (ServeMux h ev w r s)"
proof -
  have route: "ok r s (f w (r\<lparr>rq_PathValues := vs\<rparr>) s)" if "map_of (routes h ev) t = Some f" for t f vs
  proof -
    have "ok (r\<lparr>rq_PathValues := vs\<rparr>) s (f w (r\<lparr>rq_PathValues := vs\<rparr>) s)"
      using map_of_SomeD [OF that] ok_routes [of ev] assms framed_caller(2) [where r = r and vs = vs]
      unfolding list_all_iff by blast
    then show ?thesis by simp
  qed
  show ?thesis
    using assms(1) route
    by (auto simp: ServeMux_def Let_def notFound_def sat_same split: mux_result.split option.split)
qed

end

end
