(* ===== verification/Http_Data.thy ===== *)
theory Http_Data
  imports Http_Handlers
begin

text \<open>
  What becomes of the bytes, over any stores that keep their contracts: an accepted PUT stores
  the body it was sent, a GET that is answered serves the bytes of the blob, an accepted part
  lies at its place in the blob of the session, and a completed upload is the parts in order.
\<close>

section \<open>Header fields\<close>

lemma Header_Get_Set [simp]:
  "Header_Get (Header_Set w a v) b =
     (if CanonicalHeaderKey a = CanonicalHeaderKey b then v else Header_Get w b)"
  by (auto simp: Header_Get_def Header_Set_def Values_Get_def Values_Set_def)

lemma canonical_meta: "hd (CanonicalHeaderKey (''X-Tunna-Meta-'' @ name)) = CHR ''X''"
  by (simp add: CanonicalHeaderKey_def upper_char_def)

lemma meta_not_etag: "CanonicalHeaderKey (''X-Tunna-Meta-'' @ name) \<noteq> CanonicalHeaderKey ''ETag''"
proof
  assume "CanonicalHeaderKey (''X-Tunna-Meta-'' @ name) = CanonicalHeaderKey ''ETag''"
  moreover have "hd (CanonicalHeaderKey ''ETag'') = CHR ''E''" by code_simp
  ultimately have "CHR ''E'' = CHR ''X''" using canonical_meta [of name] by (simp only:)
  then show False by simp
qed

lemma Header_Get_fold_meta:
  "Header_Get (fold (\<lambda>(name, v) w. Header_Set w (''X-Tunna-Meta-'' @ name) v) md w) ''ETag'' = Header_Get w ''ETag''"
  using meta_not_etag by (induction md arbitrary: w) auto

lemma object_headers_etag: "Header_Get (object_headers w ob) ''ETag'' = quoted (o_Checksum ob)"
proof -
  have "CanonicalHeaderKey ''X-Tunna-Checksum'' \<noteq> CanonicalHeaderKey ''ETag''" by code_simp
  then show ?thesis unfolding object_headers_def Header_Get_fold_meta by simp
qed

lemma ServeContent_plain:
  assumes "\<forall>n \<in> set conditional_headers. Header_Get (rq_Header r) n = []" "rq_Method r \<noteq> ''HEAD''"
  shows "rs_status (ServeContent pt bd w r t bytes) = 200"
    "rs_body (ServeContent pt bd w r t bytes) = BlobBody bytes"
    "Header_Get (rs_headers (ServeContent pt bd w r t bytes)) ''ETag'' = Header_Get w ''ETag''"
proof -
  have ne: "CanonicalHeaderKey ''Last-Modified'' \<noteq> CanonicalHeaderKey ''ETag''"
    "CanonicalHeaderKey ''Accept-Ranges'' \<noteq> CanonicalHeaderKey ''ETag''"
    "CanonicalHeaderKey ''Content-Length'' \<noteq> CanonicalHeaderKey ''ETag''" by code_simp+
  then show "Header_Get (rs_headers (ServeContent pt bd w r t bytes)) ''ETag'' = Header_Get w ''ETag''"
    "rs_status (ServeContent pt bd w r t bytes) = 200" "rs_body (ServeContent pt bd w r t bytes) = BlobBody bytes"
    using assms(2) by (simp_all add: ServeContent_whole [OF assms(1)] answer_content_def dated_def)
qed

section \<open>Objects\<close>

text \<open>The object of a key and the bytes of its blob.\<close>

definition stored :: "view \<Rightarrow> gostring \<Rightarrow> gostring \<Rightarrow> object \<Rightarrow> byte list \<Rightarrow> bool" where
  "stored v b k ob bytes \<longleftrightarrow> v_objects v (b, k) = Some ob \<and> v_blobs v (o_BlobID ob) = Some bytes"

context service begin

lemma recordObject_stores:
  assumes "inv s" "consistent v" "view s = v\<lparr>v_blobs := (v_blobs v)(o_BlobID ob \<mapsto> bytes)\<rparr>"
    "v_blobs v (o_BlobID ob) = None"
  shows "sat (\<lambda>rs s'. inv s' \<and> (accepted rs \<longrightarrow> stored (view s') (o_Bucket ob) (o_Key ob) (ocell ob) bytes))
    (recordObject h w ob s)"
proof -
  have new: "blob_previous (view s) ob \<noteq> o_BlobID ob" if "blob_previous (view s) ob \<noteq> []"
    using that assms(3,4) consistentD(4) [OF assms(2), of "ObjectAt (o_Bucket ob) (o_Key ob)" "o_BlobID ob"]
    by (auto simp: blob_previous_def split: option.splits)
  show ?thesis
    unfolding recordObject_def Let_def
  proof (intro walk, goal_cases)
    case (3 u s1)
    have s1: "stored (view s1) (o_Bucket ob) (o_Key ob) (ocell ob) bytes"
      using 3(3) assms(3) cell_keys by (simp add: stored_def)
    show ?case
    proof (cases "u = []")
      case True
      with s1 3(1) show ?thesis by (simp add: sat_def)
    next
      case False
      obtain B where "inv (snd (bl_Remove (h_blobs h) u s1))"
        "view (snd (bl_Remove (h_blobs h) u s1)) = (view s1)\<lparr>v_blobs := B\<rparr>"
        "\<forall>j. j \<noteq> u \<longrightarrow> B j = v_blobs (view s1) j"
        using removed [OF 3(1), of u] by auto
      with False new 3(2) s1 cell_keys [of ob] show ?thesis by (auto simp: sat_def stored_def)
    qed
  qed (simp_all add: assms(1) sat_def)
qed

text \<open>An accepted PUT leaves the body it was sent under its key, with its length and checksum.\<close>

lemma putObject_stores:
  assumes "inv s" "consistent (view s)"
  shows "sat (\<lambda>rs s'. inv s' \<and> (accepted rs \<longrightarrow>
      (\<exists>ob. stored (view s') (PathValue r ''bucket'') (PathValue r ''key'') ob (rd_bytes (rq_Body r)) \<and>
         intact (view s') ob \<and> int (length (rd_bytes (rq_Body r))) = rq_ContentLength r)))
    (putObject h ev w r s)"
  (is "sat ?Q _")
proof -
  show ?thesis
    unfolding putObject_def Let_def
  proof (intro walk sat_storeBody, goal_cases)
    case (12 want metadata b s1 i s2 s3)
    then have b: "b_Name b = PathValue r ''bucket''"
      using consistentD(1) [OF assms(2)] by auto
    define ob where "ob = \<lparr>o_Bucket = b_Name b, o_Key = PathValue r ''key'', o_BlobID = i,
       o_Size = rq_ContentLength r,
       o_ContentType = (if Header_Get (rq_Header r) ''Content-Type'' = [] then ''application/octet-stream''
         else Header_Get (rq_Header r) ''Content-Type''),
       o_Checksum = EncodeCRC32C (crc32c (rd_bytes (rq_Body r))), o_Metadata = metadata,
       o_CreatedAt = ev_now ev 1\<rparr>"
    from 12 have "sat (\<lambda>rs s'. inv s' \<and> (accepted rs \<longrightarrow>
        stored (view s') (o_Bucket ob) (o_Key ob) (ocell ob) (rd_bytes (rq_Body r)))) (recordObject h w ob s3)"
      by (intro recordObject_stores [of s3 "view s"]) (auto simp: ob_def assms(2))
    with 12 b cell_keys [of ob] show ?case
      unfolding sat_def by (fold ob_def) (auto simp: ob_def intact_def stored_def)
  qed (auto simp: assms(1) sat_def refusals dest: refusal_not_accepted)
qed

text \<open>A GET that is answered serves the bytes of the blob, with the checksum of the row.\<close>

lemma getObject_serves:
  assumes "inv s" "stored (view s) (PathValue r ''bucket'') (PathValue r ''key'') ob bytes"
    "\<forall>n \<in> set conditional_headers. Header_Get (rq_Header r) n = []" "rq_Method r \<noteq> ''HEAD''"
  shows "sat (\<lambda>rs s'. inv s' \<and> (accepted rs \<longrightarrow> rs_status rs = 200 \<and> rs_body rs = BlobBody bytes \<and>
      Header_Get (rs_headers rs) ''ETag'' = quoted (o_Checksum ob))) (getObject h ev w r s)"
  using assms(2)
  unfolding getObject_def Let_def
  by (intro walk) (auto simp: assms(1) sat_def stored_def ServeContent_plain [OF assms(3,4)] object_headers_etag)

end

section \<open>The upload handlers\<close>

text \<open>The body of a completion; a run of part requests, every one accepted; what they sent.\<close>

definition completion :: "request \<Rightarrow> complete_body decoded" where
  "completion r = decode_body complete_fields \<lparr>cm_Parts = 0, cm_Checksums = None\<rparr> (rq_json r)"

fun send_parts :: "'s handler \<Rightarrow> (env \<times> header \<times> request) list \<Rightarrow> 's \<Rightarrow> 's option" where
  "send_parts h [] s = Some s"
| "send_parts h ((ev, w, r) # reqs) s =
     (case putUploadPart h ev w r s of (rs, s1) \<Rightarrow> if accepted rs then send_parts h reqs s1 else None)"

definition part_number :: "env \<times> header \<times> request \<Rightarrow> int option" where
  "part_number x = ParseInt (PathValue (snd (snd x)) ''n'')"

fun sent :: "(env \<times> header \<times> request) list \<Rightarrow> (int \<Rightarrow> byte list option) \<Rightarrow> int \<Rightarrow> byte list option" where
  "sent [] c = c"
| "sent (x # reqs) c =
     sent reqs (case part_number x of None \<Rightarrow> c | Some n \<Rightarrow> c(n \<mapsto> rd_bytes (rq_Body (snd (snd x)))))"

lemma dom_sent: "dom (sent reqs c) \<subseteq> dom c \<union> the ` part_number ` set reqs"
proof (induction reqs arbitrary: c)
  case (Cons x reqs)
  have "dom (sent reqs (case part_number x of None \<Rightarrow> c | Some n \<Rightarrow> c(n \<mapsto> b))) \<subseteq>
      dom c \<union> the ` part_number ` set (x # reqs)" for b
    using Cons.IH [of "case part_number x of None \<Rightarrow> c | Some n \<Rightarrow> c(n \<mapsto> b)"]
    by (auto split: option.splits)
  then show ?case by simp
qed simp

text \<open>As many numbers as requests, the first ones all among them: no others.\<close>

lemma sent_numbers:
  assumes "\<forall>i. 1 \<le> i \<longrightarrow> i \<le> int (length reqs) \<longrightarrow> sent reqs Map.empty i \<noteq> None" "sent reqs Map.empty m \<noteq> None"
  shows "m \<le> int (length reqs)"
proof -
  let ?D = "the ` part_number ` set reqs"
  have sub: "dom (sent reqs Map.empty) \<subseteq> ?D" using dom_sent [of reqs Map.empty] by simp
  have "card ?D \<le> card (set reqs)" by (metis card_image_le finite_set finite_imageI le_trans)
  then have "card ?D \<le> card {1..int (length reqs)}" using card_length [of reqs] by simp
  moreover have "{1..int (length reqs)} \<subseteq> ?D" using assms(1) sub by auto
  ultimately have D: "{1..int (length reqs)} = ?D" by (intro card_seteq) auto
  have "m \<in> dom (sent reqs Map.empty)" using assms(2) by (simp add: domIff)
  then have "m \<in> {1..int (length reqs)}" unfolding D using sub by blast
  then show ?thesis by simp
qed

context service begin

lemma storePart_records:
  assumes "inv s" "v_uploads (view s) (u_ID se) = Some se" "v_blobs (view s) (u_BlobID se) = Some old"
    "0 \<le> (n - 1) * u_PartSize se" "(n - 1) * u_PartSize se < 2 ^ 63" "1 \<le> n" "n \<le> 2 ^ 62"
  shows "sat (\<lambda>rs s'. inv s' \<and> (accepted rs \<longrightarrow> rd_end (rq_Body r) = BodyEOF \<and>
      v_uploads (view s') (u_ID se) = Some (with_part se n (rd_bytes (rq_Body r))) \<and>
      v_blobs (view s') (u_BlobID se) =
        Some (write_at old (nat ((n - 1) * u_PartSize se)) (rd_bytes (rq_Body r)))))
    (storePart h w r se n want s)"
proof -
  have off: "int64 (int64 (n - 1) * u_PartSize se) = (n - 1) * u_PartSize se"
    using assms(4-7) by (simp add: int64_small)
  obtain m err s1 where w: "bl_Write (h_blobs h) (u_BlobID se) ((n - 1) * u_PartSize se) (rq_Body r) s
      = ((m, err), s1)"
    by (metis surj_pair)
  from write_blob [OF assms(1) w] assms(3,4) obtain k where k: "inv s1" "m = int k"
    "view s1 = (view s)\<lparr>v_blobs := (v_blobs (view s))(u_BlobID se \<mapsto>
       write_at old (nat ((n - 1) * u_PartSize se)) (take k (rd_bytes (rq_Body r))))\<rparr>"
    "err = None \<longrightarrow> k = length (rd_bytes (rq_Body r)) \<and> rd_end (rq_Body r) = BodyEOF"
    by auto
  show ?thesis
    unfolding storePart_def Let_def off w prod.case
  proof (intro walk, goal_cases)
    case (6 u s2 u2 s3 se2)
    then have "se2 = se" using k(3) assms(2) by simp
    with 6 k show ?case by (simp add: sat_def with_part_def)
  qed (simp_all add: k(1) sat_def)
qed

text \<open>
  An accepted part lies in the blob where it belongs, is recorded with its length and checksum,
  and disturbs no other recorded part.
\<close>

lemma putUploadPart_records:
  assumes "inv s" "v_uploads (view s) (PathValue r ''id'') = Some se"
    "v_blobs (view s) (u_BlobID se) = Some old" "recorded se old" "framed r"
    "0 \<le> u_PartSize se" "h_maxParts h * u_PartSize se < 2 ^ 63" "h_maxParts h \<le> 2 ^ 62"
  shows "sat (\<lambda>rs s'. inv s' \<and> (accepted rs \<longrightarrow> (\<exists>n. ParseInt (PathValue r ''n'') = Some n \<and>
      1 \<le> n \<and> n \<le> h_maxParts h \<and> rd_bytes (rq_Body r) \<noteq> [] \<and>
      int (length (rd_bytes (rq_Body r))) \<le> u_PartSize se \<and>
      v_uploads (view s') (PathValue r ''id'') = Some (with_part se n (rd_bytes (rq_Body r))) \<and>
      v_blobs (view s') (u_BlobID se) =
        Some (write_at old (nat ((n - 1) * u_PartSize se)) (rd_bytes (rq_Body r))))))
    (putUploadPart h ev w r s)"
  unfolding putUploadPart_def Let_def
proof (intro walk, goal_cases)
  case (9 n se1 s1 want)
  then have se: "se1 = se" "u_ID se = PathValue r ''id''" using assms(2) by simp_all
  have "(n - 1) * u_PartSize se \<le> h_maxParts h * u_PartSize se"
    using 9 assms(6) by (intro mult_right_mono) auto
  with 9 assms have "sat (\<lambda>rs s'. inv s' \<and> (accepted rs \<longrightarrow> rd_end (rq_Body r) = BodyEOF \<and>
      v_uploads (view s') (u_ID se) = Some (with_part se n (rd_bytes (rq_Body r))) \<and>
      v_blobs (view s') (u_BlobID se) =
        Some (write_at old (nat ((n - 1) * u_PartSize se)) (rd_bytes (rq_Body r)))))
    (storePart h w r se n want s1)"
    by (intro storePart_records) (auto simp: se)
  moreover have "rd_bytes (rq_Body r) \<noteq> [] \<and> int (length (rd_bytes (rq_Body r))) \<le> u_PartSize se"
    if "rd_end (rq_Body r) = BodyEOF"
    using that 9 assms(5) se(1) by (auto simp: framed_def)
  ultimately show ?case
    using 9 se by (auto simp: sat_def)
qed (auto simp: assms(1) sat_def refusals dest: refusal_not_accepted)

lemma finishUpload_stores:
  assumes "inv s" "consistent (view s)" "v_uploads (view s) (u_ID se) = Some se"
    "v_blobs (view s) (u_BlobID se) = Some blob" "o_BlobID ob = u_BlobID se"
  shows "sat (\<lambda>rs s'. inv s' \<and> (accepted rs \<longrightarrow> stored (view s') (o_Bucket ob) (o_Key ob) (ocell ob) blob \<and>
      v_uploads (view s') (u_ID se) = None)) (finishUpload h w r se ob s)"
proof -
  have new: "blob_previous (view s) ob \<noteq> u_BlobID se" if "blob_previous (view s) ob \<noteq> []"
    using that assms(3) consistentD(5) [OF assms(2), of "ObjectAt (o_Bucket ob) (o_Key ob)" "u_BlobID se" "SessionOf (u_ID se)"]
    by (auto simp: blob_previous_def split: option.splits)
  show ?thesis
    unfolding finishUpload_def Let_def
  proof (intro walk, goal_cases)
    case (3 u s1)
    have s1: "stored (view s1) (o_Bucket ob) (o_Key ob) (ocell ob) blob" "v_uploads (view s1) (u_ID se) = None"
      using 3(4) assms(4,5) cell_keys by (simp_all add: stored_def)
    show ?case
    proof (cases "u = []")
      case True
      with s1 3(1) show ?thesis by (simp add: sat_def)
    next
      case False
      obtain B where "inv (snd (bl_Remove (h_blobs h) u s1))"
        "view (snd (bl_Remove (h_blobs h) u s1)) = (view s1)\<lparr>v_blobs := B\<rparr>"
        "\<forall>j. j \<noteq> u \<longrightarrow> B j = v_blobs (view s1) j"
        using removed [OF 3(1), of u] by auto
      with False new 3(3) s1 cell_keys [of ob] assms(5) show ?thesis by (auto simp: sat_def stored_def)
    qed
  qed (simp_all add: assms(1) sat_def)
qed

text \<open>A completed upload is the object of the parts in order, with the checksum of their bytes.\<close>

lemma completeUpload_concatenates:
  assumes "inv s" "consistent (view s)" "v_uploads (view s) (PathValue r ''id'') = Some se"
    "v_blobs (view s) (u_BlobID se) = Some blob" "recorded se blob" "int (length blob) < 2 ^ 63"
  shows "sat (\<lambda>rs s'. inv s' \<and> (accepted rs \<longrightarrow> (\<exists>body ob. completion r = Decoded body \<and> 1 \<le> cm_Parts body \<and>
      whole se (cm_Parts body) \<and> stored (view s') (u_Bucket se) (u_Key se) ob blob \<and>
      o_Size ob = part_end se (cm_Parts body) \<and>
      o_Checksum ob = EncodeCRC32C (crc32c (take (nat (part_end se (cm_Parts body))) blob)) \<and>
      v_uploads (view s') (PathValue r ''id'') = None)))
    (completeUpload h ev w r s)"
  unfolding completeUpload_def Let_def
proof (intro walk, goal_cases)
  case (6 body se1 s1 y)
  then have se: "se1 = se" "u_ID se = PathValue r ''id''" using assms(3) by simp_all
  obtain acc sz where y: "y = (acc, sz)" by (cases y)
  let ?ob = "upload_object se acc sz (ev_now ev 2)"
  have wh: "whole se (cm_Parts body)" using 6 complete_error_None se(1) by blast
  with fold_upload_slices [OF assms(5) _ assms(6), of "cm_Parts body"] 6 y se(1)
  have val: "acc = crc32c (take (nat (part_end se (cm_Parts body))) blob)" "sz = part_end se (cm_Parts body)"
    by auto
  have "sat (\<lambda>rs s'. inv s' \<and> (accepted rs \<longrightarrow> stored (view s') (o_Bucket ?ob) (o_Key ?ob) (ocell ?ob) blob \<and>
      v_uploads (view s') (u_ID se) = None)) (finishUpload h w r se ?ob s1)"
    using 6 assms se by (intro finishUpload_stores) (auto simp: upload_object_def)
  with 6 wh se y show ?case
    using cell_keys [of ?ob]
    by (auto simp: sat_def val upload_object_def not_less completion_def)
qed (auto simp: assms(1) sat_def refusals dest: refusal_not_accepted)

lemma send_parts_keeps:
  "send_parts h reqs s = Some s' \<Longrightarrow> \<forall>(ev, w, r) \<in> set reqs. framed r \<Longrightarrow> inv s \<Longrightarrow> consistent (view s) \<Longrightarrow>
     inv s' \<and> consistent (view s')"
proof (induction reqs arbitrary: s)
  case (Cons x reqs)
  obtain ev w r rs s1 where x: "x = (ev, w, r)" "putUploadPart h ev w r s = (rs, s1)"
    by (metis surj_pair)
  with Cons.prems(1) have "send_parts h reqs s1 = Some s'" by (simp split: if_splits)
  moreover have "inv s1" "consistent (view s1)"
    using ok_putUploadPart [OF Cons.prems(3,4), of r ev w] x Cons.prems(2) transition_consistent [OF _ Cons.prems(4)]
    by (auto simp: sat_def post_def)
  ultimately show ?case using Cons.IH [of s1] Cons.prems(2) by simp
qed simp

text \<open>A run of accepted parts, each with its own number, fills the blob of the session piece by piece.\<close>

lemma send_parts_pieces:
  assumes "send_parts h reqs s = Some s'" "inv s" "consistent (view s)" "v_uploads (view s) i = Some se"
    "v_blobs (view s) (u_BlobID se) = Some old" "pieces se old c" "distinct (map part_number reqs)"
    "\<forall>(ev, w, r) \<in> set reqs. PathValue r ''id'' = i \<and> framed r"
    "\<forall>n. Some n \<in> part_number ` set reqs \<longrightarrow> c n = None" "\<forall>n. c n \<noteq> None \<longrightarrow> n \<le> h_maxParts h"
    "0 \<le> u_PartSize se" "h_maxParts h * u_PartSize se < 2 ^ 63" "h_maxParts h \<le> 2 ^ 62"
  shows "\<exists>se' blob. inv s' \<and> consistent (view s') \<and> v_uploads (view s') i = Some se' \<and>
    v_blobs (view s') (u_BlobID se') = Some blob \<and> pieces se' blob (sent reqs c) \<and>
    (\<forall>n. sent reqs c n \<noteq> None \<longrightarrow> n \<le> h_maxParts h) \<and>
    u_Bucket se' = u_Bucket se \<and> u_Key se' = u_Key se \<and> u_PartSize se' = u_PartSize se"
  using assms
proof (induction reqs arbitrary: s se old c)
  case Nil
  then show ?case by auto
next
  case (Cons x reqs)
  obtain ev w r where x: "x = (ev, w, r)" by (cases x)
  obtain rs s1 where put: "putUploadPart h ev w r s = (rs, s1)" "accepted rs" "send_parts h reqs s1 = Some s'"
    using Cons.prems(1) x by (auto split: prod.splits if_splits)
  have r: "PathValue r ''id'' = i" "framed r" using Cons.prems(8) x by auto
  have "recorded se old" using Cons.prems(6) by (simp add: pieces_def)
  from putUploadPart_records [OF Cons.prems(2) _ Cons.prems(5) this r(2) Cons.prems(11-13), of ev w] put(1,2) Cons.prems(4) r(1)
  obtain n where n: "inv s1" "ParseInt (PathValue r ''n'') = Some n" "1 \<le> n" "n \<le> h_maxParts h"
    "rd_bytes (rq_Body r) \<noteq> []" "int (length (rd_bytes (rq_Body r))) \<le> u_PartSize se"
    "v_uploads (view s1) i = Some (with_part se n (rd_bytes (rq_Body r)))"
    "v_blobs (view s1) (u_BlobID se) = Some (write_at old (nat ((n - 1) * u_PartSize se)) (rd_bytes (rq_Body r)))"
    by (auto simp: sat_def)
  have cons: "consistent (view s1)"
    using ok_putUploadPart [OF Cons.prems(2,3) r(2), of ev w] put(1) transition_consistent [OF _ Cons.prems(3)]
    by (auto simp: sat_def post_def)
  have num: "part_number x = Some n" using n(2) x by (simp add: part_number_def)
  then have new: "c n = None" using Cons.prems(9) by (metis image_eqI list.set_intros(1))
  note pc = pieces_write [OF Cons.prems(6) new n(3,5,6)]
  let ?c = "c(n \<mapsto> rd_bytes (rq_Body r))"
  have d: "\<forall>m. Some m \<in> part_number ` set reqs \<longrightarrow> ?c m = None"
    using Cons.prems(7,9) num by force
  have le: "\<forall>m. ?c m \<noteq> None \<longrightarrow> m \<le> h_maxParts h" using Cons.prems(10) n(4) by simp
  have step: "sent (x # reqs) c = sent reqs ?c" using num x by simp
  show ?case
    unfolding step
    using Cons.IH [OF put(3) n(1) cons n(7) _ pc _ _ d le, unfolded with_part_simps, OF n(8) _ _ Cons.prems(11-13)]
      Cons.prems(7,8) by (metis (no_types, lifting) distinct.simps(2) list.set_intros(2) list.simps(9))
qed

lemma pieces_length:
  assumes "pieces se blob c" "\<forall>n. c n \<noteq> None \<longrightarrow> n \<le> b" "0 \<le> u_PartSize se" "b * u_PartSize se < 2 ^ 63"
  shows "int (length blob) < 2 ^ 63"
proof (cases "blob = []")
  case False
  then obtain n p where p: "map_of (u_Parts se) n = Some p" "int (length blob) = (n - 1) * u_PartSize se + p_Size p"
    using assms(1) by (auto simp: pieces_def trimmed_def)
  have "n \<le> b" using piecesD [OF assms(1) p(1)] assms(2) by auto
  then have "n * u_PartSize se \<le> b * u_PartSize se" using assms(3) by (rule mult_right_mono)
  moreover have "p_Size p \<le> u_PartSize se" using assms(1) p(1) by (auto simp: pieces_def recorded_def)
  then have "int (length blob) \<le> n * u_PartSize se" using p(2) by (simp add: algebra_simps)
  ultimately show ?thesis using assms(4) by linarith
qed simp

text \<open>The whole upload: parts in any order, then a completion that counts them.\<close>

lemma upload_of_parts:
  assumes "inv s" "consistent (view s)" "v_uploads (view s) i = Some se" "u_Parts se = []"
    "v_blobs (view s) (u_BlobID se) = Some []" "distinct (map part_number reqs)"
    "\<forall>(ev, w, r) \<in> set reqs. PathValue r ''id'' = i \<and> framed r" "send_parts h reqs s = Some s1"
    "completeUpload h ev w r s1 = (rs, s2)" "accepted rs" "PathValue r ''id'' = i"
    "completion r = Decoded body" "cm_Parts body = int (length reqs)"
    "0 \<le> u_PartSize se" "h_maxParts h * u_PartSize se < 2 ^ 63" "h_maxParts h \<le> 2 ^ 62"
  shows "\<exists>ob. stored (view s2) (u_Bucket se) (u_Key se) ob
      (concat (map (\<lambda>n. the (sent reqs Map.empty n)) [1..int (length reqs)])) \<and> intact (view s2) ob"
proof -
  have "pieces se [] Map.empty" using assms(4) by (simp add: pieces_def recorded_def trimmed_def)
  from send_parts_pieces [OF assms(8,1-3,5) this assms(6,7)] assms(14-16)
  obtain se' blob where se': "inv s1" "consistent (view s1)" "v_uploads (view s1) i = Some se'"
    "v_blobs (view s1) (u_BlobID se') = Some blob" "pieces se' blob (sent reqs Map.empty)"
    "\<forall>n. sent reqs Map.empty n \<noteq> None \<longrightarrow> n \<le> h_maxParts h"
    "u_Bucket se' = u_Bucket se" "u_Key se' = u_Key se" "u_PartSize se' = u_PartSize se"
    by (auto simp: sat_def)
  let ?n = "int (length reqs)"
  have len: "int (length blob) < 2 ^ 63" using pieces_length [OF se'(5,6)] se'(9) assms(14,15) by simp
  have rec: "recorded se' blob" "trimmed se' blob" using se'(5) by (simp_all add: pieces_def)
  from completeUpload_concatenates [OF se'(1,2) _ se'(4) rec(1) len, of r ev w] assms(9-13) se'(3)
  obtain ob where ob: "1 \<le> ?n" "whole se' ?n" "stored (view s2) (u_Bucket se) (u_Key se) ob blob"
    "o_Size ob = part_end se' ?n" "o_Checksum ob = EncodeCRC32C (crc32c (take (nat (part_end se' ?n)) blob))"
    by (auto simp: sat_def se'(7,8))
  have parts: "(map_of (u_Parts se') m = None) = (sent reqs Map.empty m = None)" for m
    using se'(5) unfolding pieces_def by blast
  have "m \<le> ?n" if "map_of (u_Parts se') m \<noteq> None" for m
    using that ob(2) parts sent_numbers [of reqs m] unfolding whole_def by simp
  then have "int (length blob) = part_end se' ?n"
    using trimmed_whole [OF rec(1) ob(2) rec(2) ob(1)] by blast
  then have full: "take (nat (part_end se' ?n)) blob = blob" "o_Size ob = int (length blob)" using ob(4) by simp_all
  have "blob = concat (map (\<lambda>n. the (sent reqs Map.empty n)) [1..?n])"
    using concat_pieces [OF se'(5) ob(2) ob(1)] full(1) by simp
  with ob(3,5) full show ?thesis by (auto simp: intact_def stored_def)
qed

end

end
