(* ===== verification/Auth_Roundtrip.thy ===== *)
theory Auth_Roundtrip
  imports Http_Auth
begin

text \<open>
  The two ends of the signature scheme against each other: what \<open>sig.Authorization\<close> and
  \<open>sig.PresignQuery\<close> produce for a request is what \<open>authenticate\<close> accepts, for every method,
  path, query, set of signed headers, key and time within the window; and what \<open>authenticate\<close>
  accepts carries a signature made with the secret of the key it names.
\<close>

section \<open>Queries read back\<close>

abbreviation add_pairs :: "(gostring \<times> gostring) list \<Rightarrow> url_values \<Rightarrow> url_values" where
  "add_pairs ps q \<equiv> fold (\<lambda>(n, v) q. Values_Add q n v) ps q"

definition wire_pairs :: "url_values \<Rightarrow> (gostring \<times> gostring) list" where
  "wire_pairs q = map (map_prod (the \<circ> unescape False) (the \<circ> unescape False)) (sort (encoded_params q))"

lemma mset_wire_pairs: "mset (wire_pairs q) = mset (query_list q)"
  by (metis mset_map mset_sort query_list_decode wire_pairs_def)

lemma sort_encoded_wire: "sort (encoded_params q) = map (map_prod EncodeSegment EncodeSegment) (wire_pairs q)"
proof -
  have "\<exists>n v. p = (EncodeSegment n, EncodeSegment v)" if "p \<in> set (sort (encoded_params q))" for p
    using that by (auto simp: encoded_params_query_list)
  then have "map_prod EncodeSegment EncodeSegment (map_prod (the \<circ> unescape False) (the \<circ> unescape False) p) = p"
    if "p \<in> set (sort (encoded_params q))" for p
    using that by (fastforce simp: unescape_EncodeSegment)
  then show ?thesis
    unfolding wire_pairs_def map_map by (intro map_idI [symmetric]) simp
qed

lemma split_EncodeQuery:
  "split_on CHR ''&'' (EncodeQuery q) =
     (if wire_pairs q = [] then [[]]
      else map (\<lambda>(n, v). EncodeSegment n @ ''='' @ EncodeSegment v) (wire_pairs q))"
proof -
  let ?ls = "map (\<lambda>(n, v). EncodeSegment n @ ''='' @ EncodeSegment v) (wire_pairs q)"
  have e: "EncodeQuery q = join_with ''&'' ?ls"
    by (simp add: EncodeQuery_def sort_encoded_wire comp_def map_prod_def split_def)
  have "split_on CHR ''&'' (join_with ''&'' ?ls) = ?ls" if "wire_pairs q \<noteq> []"
    using that by (intro split_on_join) auto
  then show ?thesis by (simp add: e)
qed

lemma raw_pairs_wire:
  "raw_pairs (map (\<lambda>(n, v). EncodeSegment n @ ''='' @ EncodeSegment v) ps @ rest) q =
     raw_pairs rest (add_pairs ps q)"
  by (induction ps arbitrary: q)
    (auto simp: Cut_append PathUnescape_def unescape_EncodeSegment)

lemma query_pairs_wire:
  "query_pairs (map (\<lambda>(n, v). EncodeSegment n @ ''='' @ EncodeSegment v) ps @ rest) q =
     query_pairs rest (add_pairs ps q)"
  by (induction ps arbitrary: q)
    (auto simp: Cut_append QueryUnescape_def unescape_EncodeSegment)

lemma query_list_add: "mset (query_list (Values_Add q n v)) = add_mset (n, v) (mset (query_list q))"
proof (induction q)
  case (Cons e q)
  obtain m vs where e: "e = (m, vs)" by (cases e)
  show ?case
  proof (cases "m = n")
    case True
    then show ?thesis by (simp add: e Values_Add_def map_put_def query_list_def)
  next
    case False
    then show ?thesis using Cons.IH
      by (simp add: e Values_Add_def map_put_def query_list_def)
  qed
qed (simp add: Values_Add_def map_put_def query_list_def)

lemma query_list_add_pairs: "mset (query_list (add_pairs ps q)) = mset ps + mset (query_list q)"
  by (induction ps arbitrary: q) (auto simp: query_list_add)

lemma is_map_add_pairs: "is_map q \<Longrightarrow> is_map (add_pairs ps q)"
  by (induction ps arbitrary: q) auto

lemma map_of_add_pairs:
  "map_of (add_pairs ps q) n =
     (case map snd (filter (\<lambda>(m, v). m = n) ps) of
        [] \<Rightarrow> map_of q n
      | vs \<Rightarrow> Some ((case map_of q n of None \<Rightarrow> [] | Some us \<Rightarrow> us) @ vs))"
proof (induction ps arbitrary: q)
  case (Cons p ps)
  obtain a b where p: "p = (a, b)" by (cases p)
  have step: "map_of (Values_Add q a' b) n =
      (if n = a' then Some ((case map_of q n of None \<Rightarrow> [] | Some us \<Rightarrow> us) @ [b]) else map_of q n)" for a'
    by (simp add: Values_Add_def)
  show ?case
    by (cases "a = n") (simp_all add: p Cons.IH step split: list.split)
qed simp

lemma query_list_del: "query_list (Values_Del q n) = filter (\<lambda>(m, v). m \<noteq> n) (query_list q)"
  by (induction q) (auto simp: Values_Del_def map_del_def AList.delete_eq query_list_def filter_empty_conv)

lemma query_list_Nil: "query_list [] = []"
  by (simp add: query_list_def)

lemma rawQuery_EncodeQuery:
  "rq_RawQuery r = EncodeQuery q \<Longrightarrow> rawQuery r = Some (add_pairs (wire_pairs q) [])"
  using raw_pairs_wire [of "wire_pairs q" "[]" "[]"]
  by (simp add: rawQuery_def split_EncodeQuery)

lemma URL_Query_EncodeQuery: "URL_Query (EncodeQuery q) = add_pairs (wire_pairs q) []"
  using query_pairs_wire [of "wire_pairs q" "[]" "[]"]
  by (simp add: URL_Query_def split_EncodeQuery)

lemma EncodeQuery_back: "EncodeQuery (add_pairs (wire_pairs q) []) = EncodeQuery q"
  by (rule EncodeQuery_cong) (simp add: query_list_add_pairs mset_wire_pairs query_list_Nil)

lemma in_query_list: "n \<notin> fst ` set q \<Longrightarrow> (n, v) \<notin> set (query_list q)"
  by (force simp: query_list_def)

lemma filter_wire_pairs: "n \<notin> fst ` set q \<Longrightarrow> filter (\<lambda>(m, v). m = n) (wire_pairs q) = []"
  using in_query_list [of n q] mset_eq_setD [OF mset_wire_pairs [of q]]
  by (auto simp: filter_empty_conv)

lemma add_pairs_absent: "n \<notin> fst ` set q \<Longrightarrow> map_of (add_pairs (wire_pairs q) []) n = None"
  by (simp add: map_of_add_pairs filter_wire_pairs)

lemma Values_Del_absent: "map_of q n = None \<Longrightarrow> Values_Del q n = q"
  by (induction q) (auto simp: Values_Del_def map_del_def AList.delete_eq split: if_splits)

section \<open>Paths read back\<close>

lemma path_segments_encoded: "path_segments (map EncodeSegment segs) = Some segs"
  by (induction segs) (simp_all add: PathUnescape_def unescape_EncodeSegment)

lemma path_read_back:
  assumes "raw = TrimPrefix (EncodePath segs) ''/''"
  shows "\<exists>segs'. (if raw = [] then Some [] else path_segments (split_on (CHR ''/'') raw)) = Some segs' \<and>
    EncodePath segs' = EncodePath segs"
proof -
  have raw: "raw = join_with ''/'' (map EncodeSegment segs)"
    using assms by (simp add: EncodePath_def TrimPrefix_def CutPrefix_def)
  show ?thesis
  proof (cases "raw = []")
    case True
    with raw show ?thesis by (simp add: EncodePath_def)
  next
    case False
    with raw have "segs \<noteq> []" by auto
    then have "split_on (CHR ''/'') raw = map EncodeSegment segs"
      unfolding raw by (intro split_on_join) auto
    with False show ?thesis by (simp add: path_segments_encoded)
  qed
qed

section \<open>Header names\<close>

lemma lower_char_cases: "lower_char c = c \<or> (65 \<le> code_of c \<and> code_of c \<le> 90 \<and> code_of (lower_char c) = code_of c + 32)"
  by (auto simp: lower_char_def)

lemma token_lower: "token_char (lower_char c) \<longleftrightarrow> token_char c"
proof (cases "lower_char c = c")
  case False
  with lower_char_cases [of c] have "65 \<le> code_of c" "code_of c \<le> 90" "code_of (lower_char c) = code_of c + 32"
    by auto
  then show ?thesis by (simp add: token_char_def)
qed simp

lemma upper_lower: "upper_char (lower_char c) = upper_char c"
proof (cases "lower_char c = c")
  case False
  with lower_char_cases [of c] have c: "65 \<le> code_of c" "code_of c \<le> 90" "code_of (lower_char c) = code_of c + 32"
    by auto
  then have "upper_char (lower_char c) = char_of (code_of c)"
    by (simp add: upper_char_def)
  also have "\<dots> = upper_char c" using c by (simp add: upper_char_def)
  finally show ?thesis .
qed simp

lemma lower_dash: "lower_char c = CHR ''-'' \<longleftrightarrow> c = CHR ''-''"
  by (rule lower_char_eq_small) simp

lemma canonical_ToLower: "canonical_chars up (ToLower s) = canonical_chars up s"
  by (induction s arbitrary: up) (simp_all add: ToLower_def upper_lower lower_dash)

lemma list_all_token_ToLower: "list_all token_char (ToLower s) \<longleftrightarrow> list_all token_char s"
  by (induction s) (simp_all add: ToLower_def token_lower)

lemma CanonicalHeaderKey_fold:
  assumes "ToLower k = ToLower n" "CanonicalHeaderKey k = k" "list_all token_char n"
  shows "k = CanonicalHeaderKey n"
proof -
  have "list_all token_char k"
    using assms(1,3) by (metis list_all_token_ToLower)
  with assms show ?thesis
    by (metis CanonicalHeaderKey_def canonical_ToLower)
qed

lemma ToLower_canonical: "ToLower (canonical_chars up s) = ToLower s"
proof (induction s arbitrary: up)
  case (Cons c s)
  have "lower_char (upper_char c) = lower_char c"
  proof (cases "97 \<le> code_of c \<and> code_of c \<le> 122")
    case True
    then have "code_of c - 32 < 256" by linarith
    with True have u: "code_of (upper_char c) = code_of c - 32" by (simp add: upper_char_def)
    with True have "65 \<le> code_of (upper_char c)" "code_of (upper_char c) \<le> 90" by auto
    then have "lower_char (upper_char c) = char_of (code_of (upper_char c) + 32)"
      by (simp add: lower_char_def)
    also have "\<dots> = c" using u True by simp
    finally show ?thesis using True by (simp add: lower_char_def)
  qed (auto simp: upper_char_def)
  with Cons show ?case by (simp add: ToLower_def)
qed (simp add: ToLower_def)

lemma ToLower_CanonicalHeaderKey: "ToLower (CanonicalHeaderKey n) = ToLower n"
  by (simp add: CanonicalHeaderKey_def ToLower_canonical)

text \<open>On canonical headers the scan of \<open>headerValue\<close> finds what the map lookup finds.\<close>

lemma headerValue_canonical:
  assumes "\<And>k. k \<in> fst ` set h \<Longrightarrow> CanonicalHeaderKey k = k" "list_all token_char n"
  shows "headerValue (map (\<lambda>(name, vs). (name, join_with '', '' vs)) h) n =
    map_option (join_with '', '') (map_of h (CanonicalHeaderKey n))"
  using assms(1)
proof (induction h)
  case (Cons e h)
  obtain k vs where e: "e = (k, vs)" by (cases e)
  have "EqualFold k n \<longleftrightarrow> k = CanonicalHeaderKey n"
    using CanonicalHeaderKey_fold [of k n] assms(2) Cons.prems [of k] ToLower_CanonicalHeaderKey [of n]
    by (auto simp: EqualFold_def e)
  with Cons show ?case by (auto simp: e)
qed simp

section \<open>What the client sends\<close>

text \<open>
  The request carries the signed headers: canonical names, each signed header once and with the
  value the client signed; the names are HTTP tokens.
\<close>

definition carries :: "sig_request \<Rightarrow> header \<Rightarrow> bool" where
  "carries req hdr \<longleftrightarrow>
     (\<forall>k \<in> fst ` set hdr. CanonicalHeaderKey k = k) \<and>
     (\<forall>n \<in> set (sr_SignedHeaders req). n \<noteq> [] \<and> list_all token_char n \<and>
        (case map_of hdr (CanonicalHeaderKey n) of
           Some [v] \<Rightarrow> headerValue (sr_Headers req) (ToLower n) = Some v
         | _ \<Rightarrow> False))"

definition same_target :: "sig_request \<Rightarrow> request \<Rightarrow> bool" where
  "same_target req r \<longleftrightarrow>
     rq_Method r = sr_Method req \<and> rq_EscapedPath r = EncodePath (sr_Path req) \<and>
     carries req (rq_Header r)"

lemma token_free: "list_all token_char n \<Longrightarrow> CHR '';'' \<notin> set n \<and> CHR '','' \<notin> set n"
  by (induction n) (auto simp: token_char_def is_digit_def)

lemma signed_names:
  assumes "carries req hdr" "n \<in> set (signedHeaderNames req)"
  shows "n \<noteq> [] \<and> list_all token_char n \<and> CHR '';'' \<notin> set n \<and> CHR '','' \<notin> set n \<and> ToLower n = n \<and>
    (\<exists>v. map_of hdr (CanonicalHeaderKey n) = Some [v] \<and> headerValue (sr_Headers req) n = Some v)"
proof -
  from assms(2) obtain m where m: "m \<in> set (sr_SignedHeaders req)" "n = ToLower m"
    by (auto simp: signedHeaderNames_def)
  with assms(1) have c: "m \<noteq> []" "list_all token_char m"
    "case map_of hdr (CanonicalHeaderKey m) of Some [v] \<Rightarrow> headerValue (sr_Headers req) (ToLower m) = Some v | _ \<Rightarrow> False"
    by (auto simp: carries_def)
  then have "CanonicalHeaderKey n = CanonicalHeaderKey m" "list_all token_char n"
    by (simp_all add: m(2) CanonicalHeaderKey_def canonical_ToLower list_all_token_ToLower)
  with c m(2) token_free [of n] show ?thesis
    by (auto split: option.splits list.splits)
qed

lemma signed_back:
  assumes "carries req hdr"
  shows "(let hs = join_with '';'' (signedHeaderNames req) in
    if hs \<noteq> [] then split_on (CHR '';'') hs else []) = signedHeaderNames req"
proof (cases "signedHeaderNames req = []")
  case False
  have "split_on (CHR '';'') (join_with '';'' (signedHeaderNames req)) = signedHeaderNames req"
    using signed_names [OF assms] False by (intro split_on_join) auto
  moreover have "join_with '';'' (signedHeaderNames req) \<noteq> []"
    using signed_names [OF assms] False by (auto simp: join_with_eq_Nil)
  ultimately show ?thesis by (simp add: Let_def)
qed simp

lemma signedHeaderNames_again:
  assumes "carries req hdr" "sr_SignedHeaders req' = signedHeaderNames req"
  shows "signedHeaderNames req' = signedHeaderNames req"
proof -
  have "map ToLower (signedHeaderNames req) = signedHeaderNames req"
    using signed_names [OF assms(1)] by (intro map_idI) auto
  then show ?thesis
    using assms(2) by (simp add: signedHeaderNames_def sorted_sort_id)
qed

lemma header_block_cong_on:
  "(\<And>n. n \<in> set ns \<Longrightarrow> headerValue hs n = headerValue hs' n) \<Longrightarrow> header_block hs ns = header_block hs' ns"
  by (induction ns) (auto split: option.splits)

lemma missing_header_none: "carries req (rq_Header r) \<Longrightarrow> missing_header r (signedHeaderNames req) = None"
  using signed_names [of req "rq_Header r"] by (fastforce simp: missing_header_def find_None_iff)

text \<open>The server's view of the request has the client's canonical form.\<close>

lemma sigRequest_back:
  assumes "same_target req r" "rawQuery r = Some q"
  obtains req' where "sigRequest r (signedHeaderNames req) = Some req'"
    "sr_Method req' = sr_Method req" "EncodePath (sr_Path req') = EncodePath (sr_Path req)"
    "sr_Query req' = Values_Del q ParamSig" "signedHeaderNames req' = signedHeaderNames req"
    "header_block (sr_Headers req') (signedHeaderNames req) = header_block (sr_Headers req) (signedHeaderNames req)"
proof -
  let ?hs = "map (\<lambda>(name, values). (name, join_with '', '' values)) (rq_Header r)"
  have c: "carries req (rq_Header r)" using assms(1) by (simp add: same_target_def)
  have ep: "rq_EscapedPath r = EncodePath (sr_Path req)" using assms(1) by (simp add: same_target_def)
  obtain segs where segs: "(if TrimPrefix (rq_EscapedPath r) ''/'' = [] then Some []
      else path_segments (split_on (CHR ''/'') (TrimPrefix (rq_EscapedPath r) ''/''))) = Some segs"
    "EncodePath segs = EncodePath (sr_Path req)"
    using path_read_back [OF refl, of "sr_Path req"] unfolding ep by blast
  let ?req' = "\<lparr>sr_Method = rq_Method r, sr_Path = segs, sr_Query = Values_Del q ParamSig,
    sr_Headers = ?hs, sr_SignedHeaders = signedHeaderNames req\<rparr>"
  have "sigRequest r (signedHeaderNames req) = Some ?req'"
    unfolding sigRequest_def Let_def segs(1) using assms(2) by simp
  moreover have "header_block ?hs (signedHeaderNames req) = header_block (sr_Headers req) (signedHeaderNames req)"
  proof (rule header_block_cong_on)
    fix n assume n: "n \<in> set (signedHeaderNames req)"
    have canon: "\<And>k. k \<in> fst ` set (rq_Header r) \<Longrightarrow> CanonicalHeaderKey k = k"
      using c unfolding carries_def by blast
    show "headerValue ?hs n = headerValue (sr_Headers req) n"
      using headerValue_canonical [where h = "rq_Header r" and n = n] canon signed_names [OF c n] by auto
  qed
  ultimately show thesis
    using that [of ?req'] segs(2) assms(1) signedHeaderNames_again [OF c, of ?req']
    by (simp add: same_target_def)
qed

section \<open>The header form\<close>

lemma canonical_names: "CanonicalHeaderKey ''Authorization'' = ''Authorization''"
  "CanonicalHeaderKey ''X-Tunna-Date'' = ''X-Tunna-Date''"
  by code_simp+

lemma no_comma_lower_hex: "CHR '','' \<notin> set (Signature sec m)"
  using Signature_chars [of "CHR '',''" sec m] by (auto simp: is_lower_hex_def is_digit_def)

lemma split_three:
  assumes "CHR '','' \<notin> set a" "CHR '','' \<notin> set b" "CHR '','' \<notin> set c"
  shows "split_str '', '' (a @ '', '' @ b @ '', '' @ c) = [a, b, c]"
  using assms split_str_append [of "'', ''" a "b @ '', '' @ c"] split_str_append [of "'', ''" b c]
    split_str_notin [of "'', ''" c]
  by simp

lemma parse_three:
  assumes "Cut f1 (CHR ''='') = (''key'', a, True)" "Cut f2 (CHR ''='') = (''headers'', b, True)"
    "Cut f3 (CHR ''='') = (''sig'', c, True)"
  shows "parse_fields [f1, f2, f3] no_credentials [] =
    Some \<lparr>cr_keyID = a, cr_signed = (if b \<noteq> [] then split_on (CHR '';'') b else []), cr_signature = c\<rparr>"
  using assms by (simp add: no_credentials_def)

lemma parse_back:
  assumes "carries req hdr" "sk_ID key \<noteq> []" "CHR '','' \<notin> set (sk_ID key)"
  shows "parseAuthorization (Authorization req key ts) =
    Some \<lparr>cr_keyID = sk_ID key, cr_signed = signedHeaderNames req,
      cr_signature = Signature (sk_Secret key) (Canonical req key ts Header)\<rparr>"
proof -
  let ?names = "signedHeaderNames req" and ?sig = "Signature (sk_Secret key) (Canonical req key ts Header)"
  have "CHR '','' \<notin> set (join_with '';'' ?names)"
    using set_join_with [of "'';''" ?names] signed_names [OF assms(1)] by fastforce
  then have "split_str '', '' ((''key='' @ sk_ID key) @ '', '' @ (''headers='' @ join_with '';'' ?names) @ '', '' @ ''sig='' @ ?sig)
      = [''key='' @ sk_ID key, ''headers='' @ join_with '';'' ?names, ''sig='' @ ?sig]"
    using assms(3) no_comma_lower_hex by (intro split_three) simp_all
  moreover have "Authorization req key ts = (Algorithm @ '' '') @ (''key='' @ sk_ID key) @ '', '' @
      (''headers='' @ join_with '';'' ?names) @ '', '' @ ''sig='' @ ?sig"
    by (simp add: Authorization_def)
  moreover have "parse_fields [''key='' @ sk_ID key, ''headers='' @ join_with '';'' ?names, ''sig='' @ ?sig] no_credentials [] =
      Some \<lparr>cr_keyID = sk_ID key, cr_signed = ?names, cr_signature = ?sig\<rparr>"
    using signed_back [OF assms(1)]
    by (subst parse_three [where a = "sk_ID key" and b = "join_with '';'' ?names" and c = ?sig])
      (simp_all add: Let_def)
  ultimately show ?thesis
    using assms(2) by (simp only: parseAuthorization_def CutPrefix_append) simp
qed

text \<open>What the server's verification says once the credentials are the client's.\<close>

lemma verify_client:
  assumes "same_target req r" "rawQuery r = Some q"
    and "EncodeQuery (if mode = Header then Values_Del q ParamSig
      else Values_Set (Values_Set (Values_Set (Values_Del q ParamSig) ParamKey (sk_ID key)) ParamExpires (FormatInt ts))
        ParamHeaders (join_with '';'' (signedHeaderNames req))) = EncodeQuery (canonical_query req key ts mode)"
    and "ks_GetKey (h_keys h) (sk_ID key) s = (Inr k, s1)" "k_ID k = sk_ID key"
    and "k_Secret k = sk_Secret key" "\<not> k_Disabled k"
  shows "verify h w r mode ts \<lparr>cr_keyID = sk_ID key, cr_signed = signedHeaderNames req,
      cr_signature = Signature (sk_Secret key) (Canonical req key ts mode)\<rparr> s = (Inr k, s1)"
proof -
  from sigRequest_back [OF assms(1,2)] obtain req' where req': "sigRequest r (signedHeaderNames req) = Some req'"
    "sr_Method req' = sr_Method req" "EncodePath (sr_Path req') = EncodePath (sr_Path req)"
    "sr_Query req' = Values_Del q ParamSig" "signedHeaderNames req' = signedHeaderNames req"
    "header_block (sr_Headers req') (signedHeaderNames req) = header_block (sr_Headers req) (signedHeaderNames req)"
    by blast
  have "EncodeQuery (canonical_query req' \<lparr>sk_ID = k_ID k, sk_Secret = k_Secret k\<rparr> ts mode) =
      EncodeQuery (canonical_query req key ts mode)"
    using assms(3,5) req'(4,5) by (cases mode) (simp_all add: canonical_query_def presignValues_def)
  then have "Canonical req' \<lparr>sk_ID = k_ID k, sk_Secret = k_Secret k\<rparr> ts mode = Canonical req key ts mode"
    using req' by (simp add: Canonical_def Let_def)
  then show ?thesis
    using assms(4-7) req'(1) missing_header_none [of req r] assms(1)
    by (simp add: verify_def same_target_def)
qed

text \<open>
  C39. Header form: the request that a client signs with \<open>sig.Authorization\<close> and sends with its
  time, query and signed headers reaches the route with the client's key as the caller, whatever
  the route, when the key is stored and enabled and the clocks differ by no more than the skew.
\<close>

theorem signed_request_accepted:
  assumes "same_target req r" "rq_RawQuery r = EncodeQuery (sr_Query req)"
    and "map_of (rq_Header r) ''Authorization'' = Some [Authorization req key ts]"
    and "map_of (rq_Header r) ''X-Tunna-Date'' = Some [FormatInt ts]"
    and "ParamSig \<notin> fst ` set (sr_Query req)" "sk_ID key \<noteq> []" "CHR '','' \<notin> set (sk_ID key)" "int64_range ts"
    and "ks_GetKey (h_keys h) (sk_ID key) s = (Inr k, s1)" "k_ID k = sk_ID key"
    and "k_Secret k = sk_Secret key" "\<not> k_Disabled k"
    and "\<bar>time_Unix ts - ev_now ev 0\<bar> \<le> h_skew h"
  shows "authenticate h ev nxt w r s = nxt w (r\<lparr>rq_caller := Some k\<rparr>) s1"
proof -
  let ?q = "add_pairs (wire_pairs (sr_Query req)) []"
  have q: "rawQuery r = Some ?q"
    using rawQuery_EncodeQuery assms(2) by blast
  have absent: "map_of ?q ParamSig = None"
    by (rule add_pairs_absent [OF assms(5)])
  then have "\<not> Values_Has (url_query r) ParamSig"
    by (simp add: url_query_def assms(2) URL_Query_EncodeQuery Values_Has_def)
  moreover have "EncodeQuery (Values_Del ?q ParamSig) = EncodeQuery (canonical_query req key ts Header)"
    using absent by (simp add: Values_Del_absent EncodeQuery_back canonical_query_def)
  then have "verify h w r Header ts \<lparr>cr_keyID = sk_ID key, cr_signed = signedHeaderNames req,
      cr_signature = Signature (sk_Secret key) (Canonical req key ts Header)\<rparr> s = (Inr k, s1)"
    using verify_client [OF assms(1) q, of Header key ts h s k s1 w] assms(9-12) by simp
  moreover have "carries req (rq_Header r)" using assms(1) by (simp add: same_target_def)
  ultimately show ?thesis
    using parse_back [of req "rq_Header r" key ts] assms(3,4,6,7,8,13)
    by (simp add: authenticate_def read_credentials_def canonical_names Header_Get_def Values_Get_def
        ParseInt_FormatInt Let_def abs_le_iff)
qed

section \<open>The presigned form\<close>

lemma filter_query_list:
  "is_map q \<Longrightarrow> map_of q n = Some vs \<Longrightarrow> filter (\<lambda>(m, v). m = n) (query_list q) = map (Pair n) vs"
proof (induction q)
  case (Cons e q)
  obtain m us where e: "e = (m, us)" by (cases e)
  have rest: "filter (\<lambda>(k, v). k = n) (query_list q) = []" if "m = n"
    using that Cons.prems(1) in_query_list [of n q] by (auto simp: e filter_empty_conv)
  have "query_list (e # q) = map (Pair m) us @ query_list q"
    by (simp add: e query_list_def)
  with Cons rest show ?case
    by (cases "m = n") (simp_all add: e filter_map comp_def)
qed simp

lemma wire_single:
  assumes "is_map q" "map_of q n = Some [v]"
  shows "filter (\<lambda>(m, v). m = n) (wire_pairs q) = [(n, v)]"
proof -
  have "mset (filter (\<lambda>(m, v). m = n) (wire_pairs q)) = mset (filter (\<lambda>(m, v). m = n) (query_list q))"
    by (simp only: mset_filter mset_wire_pairs)
  also have "\<dots> = {#(n, v)#}"
    by (simp add: filter_query_list [OF assms])
  finally show ?thesis
    by (metis mset_single_iff mset.simps)
qed

lemma add_pairs_single: "is_map q \<Longrightarrow> map_of q n = Some [v] \<Longrightarrow> map_of (add_pairs (wire_pairs q) []) n = Some [v]"
  by (simp add: map_of_add_pairs wire_single)

lemma Values_Del_Add: "map_of q n = None \<Longrightarrow> Values_Del (Values_Add q n v) n = q"
proof -
  assume "map_of q n = None"
  then have "AList.update n [v] q = q @ [(n, [v])]" and "filter (\<lambda>(k, _). n \<noteq> k) q = q"
    by (induction q) (auto split: if_splits)
  then show ?thesis
    using \<open>map_of q n = None\<close> by (simp add: Values_Del_def Values_Add_def map_put_def map_del_def AList.delete_eq)
qed

lemma Values_Set_same: "map_of q n = Some [v] \<Longrightarrow> Values_Set q n v = q"
  by (simp add: Values_Set_def map_put_def AList.update_triv)

lemma param_names: "distinct [ParamKey, ParamExpires, ParamSig, ParamHeaders]"
  by (simp add: param_defs)

lemma presign_values:
  assumes "ParamSig \<notin> fst ` set (sr_Query req)"
  shows "map_of (presignValues req key ts) ParamKey = Some [sk_ID key]"
    "map_of (presignValues req key ts) ParamExpires = Some [FormatInt ts]"
    "map_of (presignValues req key ts) ParamHeaders = Some [join_with '';'' (signedHeaderNames req)]"
    "ParamSig \<notin> fst ` set (presignValues req key ts)"
proof -
  have none: "map_of (sr_Query req) ParamSig = None"
    using assms by (simp add: map_of_eq_None_iff)
  show "map_of (presignValues req key ts) ParamKey = Some [sk_ID key]"
    "map_of (presignValues req key ts) ParamExpires = Some [FormatInt ts]"
    "map_of (presignValues req key ts) ParamHeaders = Some [join_with '';'' (signedHeaderNames req)]"
    using param_names by (auto simp: presignValues_def Values_Set_def)
  have "map_of (presignValues req key ts) ParamSig = None"
    using param_names none by (auto simp: presignValues_def Values_Set_def)
  then show "ParamSig \<notin> fst ` set (presignValues req key ts)"
    by (simp add: map_of_eq_None_iff)
qed

lemma sig_pair:
  assumes "sg = Signature sec m"
  shows "Cut (ParamSig @ ''='' @ sg) (CHR ''='') = (ParamSig, sg, True)" "CHR ''&'' \<notin> set (ParamSig @ ''='' @ sg)"
    "CHR '';'' \<notin> set (ParamSig @ ''='' @ sg)" "unescape pl ParamSig = Some ParamSig" "unescape pl sg = Some sg"
proof -
  have hex: "c \<in> set sg \<Longrightarrow> is_lower_hex c" for c
    using assms Signature_chars by blast
  then have free: "CHR ''&'' \<notin> set sg" "CHR '';'' \<notin> set sg" "CHR ''%'' \<notin> set sg" "CHR ''+'' \<notin> set sg"
    by (auto dest!: hex simp: is_lower_hex_def is_digit_def)
  show "unescape pl sg = Some sg" by (rule unescape_plain [OF free(3,4)])
  show "unescape pl ParamSig = Some ParamSig" by (rule unescape_plain) (simp_all add: ParamSig_def)
  show "CHR ''&'' \<notin> set (ParamSig @ ''='' @ sg)" "CHR '';'' \<notin> set (ParamSig @ ''='' @ sg)"
    using free by (simp_all add: ParamSig_def)
  show "Cut (ParamSig @ ''='' @ sg) (CHR ''='') = (ParamSig, sg, True)"
    by (simp add: Cut_append ParamSig_def)
qed

text \<open>
  C40. Presigned form: the URL a client makes with \<open>sig.PresignQuery\<close>, sent without an
  Authorization header and with the signed headers, reaches the route with the client's key as
  the caller until it expires, when its lifetime is within the bound.
\<close>

theorem presigned_request_accepted:
  assumes "same_target req r" "rq_RawQuery r = PresignQuery req key ts"
    and "map_of (rq_Header r) ''Authorization'' = None"
    and "is_map (sr_Query req)" "ParamSig \<notin> fst ` set (sr_Query req)" "sk_ID key \<noteq> []" "int64_range ts"
    and "ks_GetKey (h_keys h) (sk_ID key) s = (Inr k, s1)" "k_ID k = sk_ID key"
    and "k_Secret k = sk_Secret key" "\<not> k_Disabled k"
    and "Unix (ev_now ev 0) \<le> ts" "ts - Unix (ev_now ev 0) \<le> dur_seconds (h_maxPresign h)"
  shows "authenticate h ev nxt w r s = nxt w (r\<lparr>rq_caller := Some k\<rparr>) s1"
proof -
  let ?pv = "presignValues req key ts" and ?sg = "Signature (sk_Secret key) (Canonical req key ts Presign)"
  let ?Q = "add_pairs (wire_pairs ?pv) []"
  let ?q = "Values_Add ?Q ParamSig ?sg"
  note sp = sig_pair [OF refl [of ?sg]]
  note pv = presign_values [OF assms(5), of key ts]
  have m: "is_map ?pv" using assms(4) by (simp add: presignValues_def)
  have "wire_pairs ?pv \<noteq> []"
    using wire_single [OF m pv(1)] by auto
  then have pieces: "split_on CHR ''&'' (rq_RawQuery r) =
      map (\<lambda>(n, v). EncodeSegment n @ ''='' @ EncodeSegment v) (wire_pairs ?pv) @ [ParamSig @ ''='' @ ?sg]"
    using split_on_append_any [of "CHR ''&''" "EncodeQuery ?pv" "ParamSig @ ''='' @ ?sg"]
      split_on_notin [OF sp(2)] split_EncodeQuery [of ?pv]
    by (simp add: assms(2) PresignQuery_def)
  have q: "rawQuery r = Some ?q"
    unfolding rawQuery_def pieces raw_pairs_wire
    using sp by (simp add: PathUnescape_def)
  have u: "url_query r = ?q"
    unfolding url_query_def URL_Query_def pieces query_pairs_wire
    using sp by (simp add: QueryUnescape_def)
  have absent: "map_of ?Q ParamSig = None"
    by (rule add_pairs_absent [OF pv(4)])
  have undone: "Values_Del ?q ParamSig = ?Q"
    by (rule Values_Del_Add [OF absent])
  have got: "map_of ?Q ParamKey = Some [sk_ID key]" "map_of ?Q ParamExpires = Some [FormatInt ts]"
    "map_of ?Q ParamHeaders = Some [join_with '';'' (signedHeaderNames req)]"
    using add_pairs_single [OF m] pv by blast+
  then have "Values_Set (Values_Set (Values_Set (Values_Del ?q ParamSig) ParamKey (sk_ID key)) ParamExpires (FormatInt ts))
        ParamHeaders (join_with '';'' (signedHeaderNames req)) = ?Q"
    by (simp add: undone Values_Set_same)
  then have v: "verify h w r Presign ts \<lparr>cr_keyID = sk_ID key, cr_signed = signedHeaderNames req,
      cr_signature = ?sg\<rparr> s = (Inr k, s1)"
    using verify_client [OF assms(1) q, of Presign key ts h s k s1 w] assms(8-11)
    by (simp add: canonical_query_def EncodeQuery_back)
  have gets: "Values_Get ?q ParamKey = sk_ID key" "Values_Get ?q ParamExpires = FormatInt ts"
    "Values_Get ?q ParamHeaders = join_with '';'' (signedHeaderNames req)" "Values_Get ?q ParamSig = ?sg"
    "Values_Has ?q ParamSig"
    using got absent param_names by (auto simp: Values_Get_def Values_Add_def Values_Has_def)
  have "carries req (rq_Header r)" using assms(1) by (simp add: same_target_def)
  from signed_back [OF this] have "parsePresign ?q = Some \<lparr>cr_keyID = sk_ID key, cr_signed = signedHeaderNames req,
      cr_signature = ?sg\<rparr>"
    using assms(6) by (simp add: parsePresign_def gets Let_def split: if_splits)
  then show ?thesis
    using v assms(3,7,12,13)
    by (simp add: authenticate_def read_credentials_def canonical_names u gets ParseInt_FormatInt Let_def)
qed

section \<open>Soundness\<close>

lemma error_code_writeAuthError [simp]: "error_code (writeAuthError w c m d) = Some (code_text c)"
  by (simp add: writeAuthError_def)

lemma read_credentials_error: "read_credentials h now w r mode = Inl e \<Longrightarrow> error_code e \<noteq> None"
  by (auto simp: read_credentials_def Let_def split: if_splits option.splits)

lemma read_credentials_window:
  assumes "read_credentials h now w r mode = Inr (ts, c)"
  shows "if mode = Header then \<bar>time_Unix ts - now\<bar> \<le> h_skew h
    else Unix now \<le> ts \<and> ts \<le> Unix now + dur_seconds (h_maxPresign h)"
  using assms by (auto simp: read_credentials_def Let_def split: if_splits option.splits)

definition signed_by :: "request \<Rightarrow> sig_mode \<Rightarrow> int \<Rightarrow> credentials \<Rightarrow> apikey \<Rightarrow> bool" where
  "signed_by r mode ts c k \<longleftrightarrow>
     (case sigRequest r (cr_signed c) of
        None \<Rightarrow> False
      | Some req \<Rightarrow>
          cr_signature c = Signature (k_Secret k)
            (Canonical req \<lparr>sk_ID = k_ID k, sk_Secret = k_Secret k\<rparr> ts mode)) \<and>
     list_all (\<lambda>n. map_of (rq_Header r) (CanonicalHeaderKey n) \<noteq> None) (cr_signed c)"

lemma verify_cases:
  assumes "verify h w r mode ts c s = (v, s1)"
  shows "case v of Inl e \<Rightarrow> error_code e \<noteq> None
    | Inr k \<Rightarrow> ks_GetKey (h_keys h) (cr_keyID c) s = (Inr k, s1) \<and> \<not> k_Disabled k \<and> signed_by r mode ts c k"
  using assms
  by (auto simp: verify_def signed_by_def missing_header_def find_None_iff list_all_iff
      split: prod.splits sum.splits if_splits option.splits)

lemma verify_state: "verify h w r mode ts c s = (v, s1) \<Longrightarrow> \<exists>u. ks_GetKey (h_keys h) (cr_keyID c) s = (u, s1)"
  by (auto simp: verify_def split: prod.splits sum.splits if_splits option.splits)

lemma authenticate_cases:
  "(\<exists>e s1. (\<forall>nxt. authenticate h ev nxt w r s = (e, s1)) \<and> error_code e \<noteq> None \<and>
      (s1 = s \<or> (\<exists>i v. ks_GetKey (h_keys h) i s = (v, s1)))) \<or>
   ((\<forall>nxt. authenticate h ev nxt w r s = nxt w r s) \<and>
    map_of (rq_Header r) ''Authorization'' = None \<and> \<not> Values_Has (url_query r) ParamSig) \<or>
   (\<exists>k s1 c ts mode. (\<forall>nxt. authenticate h ev nxt w r s = nxt w (r\<lparr>rq_caller := Some k\<rparr>) s1) \<and>
      ks_GetKey (h_keys h) (cr_keyID c) s = (Inr k, s1) \<and> \<not> k_Disabled k \<and> signed_by r mode ts c k \<and>
      (if mode = Header
       then map_of (rq_Header r) ''Authorization'' \<noteq> None \<and> \<bar>time_Unix ts - ev_now ev 0\<bar> \<le> h_skew h
       else Values_Has (url_query r) ParamSig \<and> Unix (ev_now ev 0) \<le> ts \<and>
            ts \<le> Unix (ev_now ev 0) + dur_seconds (h_maxPresign h)))"
proof -
  let ?auth = "map_of (rq_Header r) ''Authorization'' \<noteq> None" and ?sig = "Values_Has (url_query r) ParamSig"
  let ?mode = "if ?auth then Header else Presign" and ?now = "ev_now ev 0"
  consider "\<not> ?auth" "\<not> ?sig" | "?auth" "?sig" | "?auth \<noteq> ?sig" by blast
  then show ?thesis
  proof cases
    case 1
    then show ?thesis by (simp add: authenticate_def canonical_names Let_def)
  next
    case 2
    then show ?thesis by (simp add: authenticate_def canonical_names Let_def)
  next
    case 3
    have run: "authenticate h ev nxt w r s =
        (case read_credentials h ?now w r ?mode of Inl e \<Rightarrow> (e, s)
         | Inr (ts, c) \<Rightarrow> (case verify h w r ?mode ts c s of (Inl e, s1) \<Rightarrow> (e, s1)
              | (Inr k, s1) \<Rightarrow> nxt w (r\<lparr>rq_caller := Some k\<rparr>) s1))" for nxt
      using 3 by (auto simp: authenticate_def canonical_names Let_def)
    show ?thesis
    proof (cases "read_credentials h ?now w r ?mode")
      case (Inl e)
      with run read_credentials_error [OF Inl] show ?thesis by simp
    next
      case (Inr tc)
      obtain ts c where tc: "tc = (ts, c)" by (cases tc)
      obtain v s1 where v: "verify h w r ?mode ts c s = (v, s1)" by (cases "verify h w r ?mode ts c s")
      show ?thesis
      proof (cases v)
        case (Inl e)
        with v Inr tc verify_cases [OF v] have "(\<forall>nxt. authenticate h ev nxt w r s = (e, s1)) \<and> error_code e \<noteq> None"
          by (simp add: run)
        moreover have "\<exists>i u. ks_GetKey (h_keys h) i s = (u, s1)"
          using verify_state [OF v] by blast
        ultimately show ?thesis by blast
      next
        case (Inr k)
        from v Inr \<open>read_credentials h ?now w r ?mode = Inr tc\<close> tc
        have "\<forall>nxt. authenticate h ev nxt w r s = nxt w (r\<lparr>rq_caller := Some k\<rparr>) s1"
          by (simp add: run)
        moreover have "if ?mode = Header then \<bar>time_Unix ts - ?now\<bar> \<le> h_skew h
            else Unix ?now \<le> ts \<and> ts \<le> Unix ?now + dur_seconds (h_maxPresign h)"
          by (rule read_credentials_window [of h ?now w r ?mode ts c])
            (use \<open>read_credentials h ?now w r ?mode = Inr tc\<close> tc in simp)
        moreover have "ks_GetKey (h_keys h) (cr_keyID c) s = (Inr k, s1)" "\<not> k_Disabled k" "signed_by r ?mode ts c k"
          using verify_cases [OF v] Inr by simp_all
        ultimately show ?thesis using 3
          by (intro disjI2 exI [of _ k] exI [of _ s1] exI [of _ c] exI [of _ ts] exI [of _ ?mode]) auto
      qed
    qed
  qed
qed


end
