(* ===== verification/Http_Listing.thy ===== *)
theory Http_Listing
  imports Http_Data Auth_Roundtrip
begin

text \<open>
  Listing a bucket page by page: a client that follows \<open>next\<close> sees every object of the prefix
  exactly once, in key order, over any stores that keep their contracts, and comes to an end.
\<close>

section \<open>A client of the listing route\<close>

definition page_query :: "gostring \<Rightarrow> gostring \<Rightarrow> int \<Rightarrow> url_values" where
  "page_query pre aft limit = [(''prefix'', [pre]), (''after'', [aft]), (''limit'', [FormatInt limit])]"

definition page_request :: "request \<Rightarrow> gostring \<Rightarrow> gostring \<Rightarrow> int \<Rightarrow> request" where
  "page_request r pre aft limit = r\<lparr>rq_RawQuery := EncodeQuery (page_query pre aft limit)\<rparr>"

text \<open>The records of a page and its \<open>next\<close>, empty when absent.\<close>

definition read_page :: "response \<Rightarrow> (json list \<times> gostring) option" where
  "read_page rs =
     (case rs_body rs of
        JsonBody (JObj es) \<Rightarrow>
          (case map_of es ''objects'' of
             Some (JArr js) \<Rightarrow> Some (js, case map_of es ''next'' of Some (JStr n) \<Rightarrow> n | _ \<Rightarrow> [])
           | _ \<Rightarrow> None)
      | _ \<Rightarrow> None)"

text \<open>At most \<open>n\<close> pages; \<open>None\<close> when one is refused or they do not suffice.\<close>

fun list_pages :: "nat \<Rightarrow> 's handler \<Rightarrow> request \<Rightarrow> gostring \<Rightarrow> int \<Rightarrow> gostring \<Rightarrow> 's \<Rightarrow> json list option" where
  "list_pages 0 h r pre limit aft s = None"
| "list_pages (Suc n) h r pre limit aft s =
     (case listObjects h [] (page_request r pre aft limit) s of
        (rs, s1) \<Rightarrow>
          if \<not> accepted rs then None
          else (case read_page rs of
            None \<Rightarrow> None
          | Some (js, nxt) \<Rightarrow>
              if nxt = [] then Some js
              else map_option (\<lambda>rest. js @ rest) (list_pages n h r pre limit nxt s1)))"

lemma read_page_listResponse [simp]:
  "read_page (writeJSON w st (listResponse js nxt)) = Some (js, nxt)"
  by (simp add: read_page_def writeJSON_def listResponse_def)

section \<open>The query that is read back\<close>

lemma page_request_simps [simp]:
  "PathValue (page_request r pre aft limit) n = PathValue r n"
  "rq_caller (page_request r pre aft limit) = rq_caller r"
  by (simp_all add: page_request_def PathValue_def)

lemma page_query_read:
  "map_of (page_query pre aft limit) n = Some [v] \<Longrightarrow>
     map_of (url_query (page_request r pre aft limit)) n = Some [v]"
  by (simp add: url_query_def page_request_def URL_Query_EncodeQuery add_pairs_single page_query_def)

lemma page_query_values:
  "Values_Get (url_query (page_request r pre aft limit)) ''prefix'' = pre"
  "Values_Get (url_query (page_request r pre aft limit)) ''after'' = aft"
  "\<not> Values_Has (url_query (page_request r pre aft limit)) ''delimiter''"
  using page_query_read [of pre aft limit "''prefix''" pre r] page_query_read [of pre aft limit "''after''" aft r]
    add_pairs_absent [of "''delimiter''" "page_query pre aft limit"]
  by (simp_all add: page_query_def Values_Get_def Values_Has_def url_query_def page_request_def URL_Query_EncodeQuery)

lemma page_limit:
  assumes "1 \<le> limit" "limit \<le> 1000"
  shows "listLimit (url_query (page_request r pre aft limit)) = Inr limit"
proof -
  have "map_of (url_query (page_request r pre aft limit)) ''limit'' = Some [FormatInt limit]"
    by (rule page_query_read) (simp add: page_query_def)
  moreover have "ParseInt (FormatInt limit) = Some limit"
    using assms by (intro ParseInt_FormatInt) (simp add: int64_range_def)
  ultimately show ?thesis
    using assms by (simp add: listLimit_def Values_Has_def Values_Get_def maxListLimit_def)
qed

section \<open>Cutting a sorted set at a cursor\<close>

lemma sorted_list_above:
  assumes "finite K"
  shows "sorted_list_of_set {k \<in> K. x < k} = filter (\<lambda>k. x < k) (sorted_list_of_set (K :: 'a :: linorder set))"
proof (rule sorted_distinct_set_unique)
  show "set (sorted_list_of_set {k \<in> K. x < k}) = set (filter (\<lambda>k. x < k) (sorted_list_of_set K))"
    using assms by auto
qed (simp_all add: sorted_wrt_filter)

lemma sorted_last: "sorted xs \<Longrightarrow> k \<in> set xs \<Longrightarrow> k \<le> last xs" for k :: "'a :: linorder"
  by (induction xs rule: rev_induct) (auto simp: sorted_append)

lemma filter_above_last:
  assumes "sorted xs" "distinct xs" "0 < n" "n \<le> length xs"
  shows "filter (\<lambda>k. last (take n xs) < k) xs = drop n (xs :: 'a :: linorder list)"
proof -
  let ?x = "last (take n xs)"
  have xs: "xs = take n xs @ drop n xs" by simp
  have ne: "take n xs \<noteq> []" using assms(3,4) by auto
  have "sorted (take n xs)" using assms(1) by simp
  then have "k \<le> ?x" if "k \<in> set (take n xs)" for k using that by (rule sorted_last)
  then have "filter (\<lambda>k. ?x < k) (take n xs) = []" by (auto simp: filter_empty_conv not_less)
  moreover have "?x < k" if "k \<in> set (drop n xs)" for k
  proof -
    have "?x \<in> set (take n xs)" using ne by simp
    moreover have "sorted (take n xs @ drop n xs)" "distinct (take n xs @ drop n xs)" using assms(1,2) by simp_all
    ultimately show ?thesis using that unfolding sorted_append distinct_append by fastforce
  qed
  then have "filter (\<lambda>k. ?x < k) (drop n xs) = drop n xs" by (simp add: filter_id_conv)
  ultimately show ?thesis by (subst xs) (simp only: filter_append, simp)
qed

section \<open>Pages over any stores\<close>

lemma listing_keys_above:
  assumes "aft \<le> x"
  shows "listing_keys v b pre x = {k \<in> listing_keys v b pre aft. x < k}"
  using assms by (auto simp: listing_keys_def)

text \<open>The records of the objects of a bucket after a cursor, in key order.\<close>

definition listed :: "view \<Rightarrow> gostring \<Rightarrow> gostring \<Rightarrow> gostring \<Rightarrow> json list" where
  "listed v b pre aft =
     map (\<lambda>k. toObjectRecord (the (v_objects v (b, k)))) (sorted_list_of_set (listing_keys v b pre aft))"

lemma page_records:
  assumes "is_listing v b pre aft n list"
  shows "map toObjectRecord list = take n (listed v b pre aft)"
proof -
  have "\<forall>ob \<in> set list. v_objects v (b, o_Key ob) = Some ob" using assms by (simp add: is_listing_def)
  then have "map toObjectRecord list = map (\<lambda>k. toObjectRecord (the (v_objects v (b, k)))) (map o_Key list)"
    by simp
  also have "map o_Key list = take n (sorted_list_of_set (listing_keys v b pre aft))"
    using assms by (simp add: is_listing_def)
  finally show ?thesis by (simp add: listed_def take_map)
qed

text \<open>A page that is full ends at a cursor after which the rest is listed; another page is the rest.\<close>

lemma page_rest:
  assumes "is_listing v b pre aft n list" "1 \<le> n" "length list = n"
  shows "listed v b pre (o_Key (last list)) = drop n (listed v b pre aft)"
    "card (listing_keys v b pre (o_Key (last list))) < card (listing_keys v b pre aft)"
    "o_Key (last list) \<noteq> []"
proof -
  let ?K = "listing_keys v b pre aft" and ?x = "o_Key (last list)"
  have fin: "finite ?K" and keys: "map o_Key list = take n (sorted_list_of_set ?K)"
    using assms(1) by (simp_all add: is_listing_def)
  have "length (take n (sorted_list_of_set ?K)) = n" unfolding keys [symmetric] by (simp add: assms(3))
  then have len: "n \<le> length (sorted_list_of_set ?K)" by (simp add: min_def split: if_splits)
  have "list \<noteq> []" using assms(2,3) by auto
  then have x: "?x = last (take n (sorted_list_of_set ?K))" using keys by (metis last_map)
  have "take n (sorted_list_of_set ?K) \<noteq> []" using \<open>list \<noteq> []\<close> keys by (metis list.map_disc_iff)
  then have "?x \<in> set (take n (sorted_list_of_set ?K))" using x by simp
  then have mem: "?x \<in> ?K" using fin by (metis in_set_takeD set_sorted_list_of_set)
  then have "aft < ?x" by (simp add: listing_keys_def)
  then show "?x \<noteq> []" by auto
  from \<open>aft < ?x\<close> have rest: "listing_keys v b pre ?x = {k \<in> ?K. ?x < k}" by (intro listing_keys_above) simp
  then have "sorted_list_of_set (listing_keys v b pre ?x) = drop n (sorted_list_of_set ?K)"
    using sorted_list_above [OF fin, of ?x] filter_above_last [of "sorted_list_of_set ?K" n] assms(2) len x by simp
  then show "listed v b pre ?x = drop n (listed v b pre aft)" by (simp add: listed_def drop_map)
  show "card (listing_keys v b pre ?x) < card ?K"
    unfolding rest using fin mem by (intro psubset_card_mono) auto
qed

lemma page_last:
  assumes "is_listing v b pre aft n list" "length list \<noteq> n"
  shows "map toObjectRecord list = listed v b pre aft"
proof -
  have "length list = min n (length (listed v b pre aft))"
    using arg_cong [OF page_records [OF assms(1)], of length] by simp
  with assms(2) page_records [OF assms(1)] show ?thesis by simp
qed

context service begin

lemma listObjects_page:
  assumes "inv s" "listable pre" "1 \<le> limit" "limit \<le> 1000"
  shows "sat (\<lambda>rs s'. inv s' \<and> view s' = view s \<and> (accepted rs \<longrightarrow> (\<exists>list.
      is_listing (view s) (PathValue r ''bucket'') pre aft (nat limit) list \<and>
      read_page rs = Some (map toObjectRecord list, if int (length list) = limit then o_Key (last list) else []))))
    (listObjects h w (page_request r pre aft limit) s)"
  unfolding listObjects_def Let_def page_query_values page_limit [OF assms(3,4)] page_request_simps sum.case
  using assms(2,3)
  by (intro walk) (auto simp: assms(1) sat_def dest: refusal_not_accepted)

lemma list_pages_complete:
  assumes "inv s" "P s" "listable pre" "1 \<le> limit" "limit \<le> 1000"
    and ok: "\<And>aft s1. inv s1 \<Longrightarrow> view s1 = view s \<Longrightarrow> P s1 \<Longrightarrow>
      accepted (fst (listObjects h [] (page_request r pre aft limit) s1)) \<and>
      P (snd (listObjects h [] (page_request r pre aft limit) s1))"
    and "card (listing_keys (view s) (PathValue r ''bucket'') pre aft) < n"
  shows "list_pages n h r pre limit aft s = Some (listed (view s) (PathValue r ''bucket'') pre aft)"
proof -
  let ?b = "PathValue r ''bucket''"
  have "list_pages n h r pre limit aft s1 = Some (listed (view s) ?b pre aft)"
    if "inv s1" "view s1 = view s" "P s1" "card (listing_keys (view s) ?b pre aft) < n" for s1
    using that
  proof (induction n arbitrary: aft s1)
    case (Suc n)
    obtain rs s2 where page: "listObjects h [] (page_request r pre aft limit) s1 = (rs, s2)" by (metis surj_pair)
    with ok [OF Suc.prems(1-3), of aft] have acc: "accepted rs" "P s2" by simp_all
    from listObjects_page [OF Suc.prems(1) assms(3-5), where r = r and aft = aft and w = "[]"] page acc(1)
    obtain list where l: "inv s2" "view s2 = view s" "is_listing (view s) ?b pre aft (nat limit) list"
      "read_page rs = Some (map toObjectRecord list, if int (length list) = limit then o_Key (last list) else [])"
      using Suc.prems(2) by (auto simp: sat_def)
    show ?case
    proof (cases "int (length list) = limit")
      case True
      then have n: "1 \<le> nat limit" "length list = nat limit" using assms(4) by auto
      note rest = page_rest [OF l(3) n]
      from Suc.IH [OF l(1,2) acc(2), of "o_Key (last list)"] rest(2) Suc.prems(4)
      have "list_pages n h r pre limit (o_Key (last list)) s2 = Some (listed (view s) ?b pre (o_Key (last list)))"
        by simp
      with page acc(1) l(4) True rest(1,3) page_records [OF l(3)] show ?thesis by simp
    next
      case False
      then have "length list \<noteq> nat limit" using assms(4) by auto
      with page_last [OF l(3)] page acc(1) l(4) False show ?thesis by simp
    qed
  qed simp
  with assms(1,2,7) show ?thesis by simp
qed

end

end
