(* ===== verification/Store_Disk.thy ===== *)
theory Store_Disk
  imports Store_Spec
begin

text \<open>
  The blob store on disk (\<open>internal/disk/disk.go\<close>): one file per blob under
  \<open>objects/<id[0:2]>/<id>\<close>.  The file system is a map from relative paths to contents; the
  operating system may fail any call, which a list of faults in the state decides, one entry
  per operation (none left means no fault).  The operations work on every state that extends
  \<open>disk_world\<close>.
\<close>

section \<open>State\<close>

datatype io_fault = NoFault | Fails | FailsAfter nat

record disk_world =
  dk_files :: "(gostring list, byte list) gomap"
  dk_faults :: "io_fault list"

definition next_fault :: "'a disk_world_scheme \<Rightarrow> io_fault" where
  "next_fault s = (case dk_faults s of [] \<Rightarrow> NoFault | f # _ \<Rightarrow> f)"

definition pop_fault :: "'a disk_world_scheme \<Rightarrow> 'a disk_world_scheme" where
  "pop_fault s = s\<lparr>dk_faults := tl (dk_faults s)\<rparr>"

section \<open>Blob ids and paths\<close>

definition validID :: "gostring \<Rightarrow> bool" where
  "validID i =
     (length i = 32 \<and>
      list_all (\<lambda>c. (97 \<le> code_of c \<and> code_of c \<le> 102) \<or> (48 \<le> code_of c \<and> code_of c \<le> 57)) i)"

definition blob_path :: "gostring \<Rightarrow> gostring list option" where
  "blob_path i = (if validID i then Some [''objects'', take 2 i, i] else None)"

section \<open>Operations\<close>

text \<open>
  \<open>FailsAfter\<close> on \<open>Create\<close> is a failing \<open>Close\<close>: the file has been made, the id is returned with
  an error.
\<close>

definition disk_Create :: "byte list \<Rightarrow> 'a disk_world_scheme \<Rightarrow> (store_err + gostring) \<times> 'a disk_world_scheme" where
  "disk_Create raw s =
     (let i = hex_encode raw; f = next_fault s; s1 = pop_fault s
      in case blob_path i of
           None \<Rightarrow> (Inl ErrNotFound, s)
         | Some p \<Rightarrow>
             if f = Fails then (Inl ErrOther, s1)
             else if map_of (dk_files s) p \<noteq> None then (Inl ErrOther, s1)
             else let s2 = s1\<lparr>dk_files := map_put (dk_files s) p []\<rparr>
                  in if f = NoFault then (Inr i, s2) else (Inl ErrOther, s2))"

definition end_error :: "body_end \<Rightarrow> store_err option" where
  "end_error e =
     (case e of BodyEOF \<Rightarrow> None | BodyUnexpectedEOF \<Rightarrow> Some ErrUnexpectedEOF | BodyErr \<Rightarrow> Some ErrOther)"

text \<open>
  \<open>Write\<close>: a malformed id answers \<open>0, nil\<close>, without an error.  \<open>io.Copy\<close> writes what arrives at
  the offset until the reader or the file fails; a negative offset fails before the first byte.
\<close>

definition disk_Write ::
  "gostring \<Rightarrow> int \<Rightarrow> reader \<Rightarrow> 'a disk_world_scheme \<Rightarrow> (int \<times> store_err option) \<times> 'a disk_world_scheme" where
  "disk_Write i off rd s =
     (let f = next_fault s; s1 = pop_fault s
      in case blob_path i of
           None \<Rightarrow> ((0, None), s)
         | Some p \<Rightarrow>
             (case map_of (dk_files s) p of
                None \<Rightarrow> ((0, Some ErrNotFound), s1)
              | Some old \<Rightarrow>
                  if f = Fails then ((0, Some ErrOther), s1)
                  else if off < 0 \<and> rd_bytes rd \<noteq> [] then ((0, Some ErrOther), s1)
                  else let n = (case f of FailsAfter k \<Rightarrow> min k (length (rd_bytes rd))
                                | _ \<Rightarrow> length (rd_bytes rd));
                           e = (case f of FailsAfter k \<Rightarrow> Some ErrOther | _ \<Rightarrow> end_error (rd_end rd))
                       in ((int n, e),
                           s1\<lparr>dk_files := map_put (dk_files s) p
                                (write_at old (nat off) (take n (rd_bytes rd)))\<rparr>)))"

definition disk_Sync :: "gostring \<Rightarrow> 'a disk_world_scheme \<Rightarrow> (store_err + unit) \<times> 'a disk_world_scheme" where
  "disk_Sync i s =
     (case blob_path i of
        None \<Rightarrow> (Inl ErrNotFound, s)
      | Some p \<Rightarrow>
          if map_of (dk_files s) p = None then (Inl ErrNotFound, pop_fault s)
          else if next_fault s \<noteq> NoFault then (Inl ErrOther, pop_fault s)
          else (Inr (), pop_fault s))"

definition disk_Remove :: "gostring \<Rightarrow> 'a disk_world_scheme \<Rightarrow> (store_err + unit) \<times> 'a disk_world_scheme" where
  "disk_Remove i s =
     (case blob_path i of
        None \<Rightarrow> (Inl ErrNotFound, s)
      | Some p \<Rightarrow>
          if next_fault s \<noteq> NoFault then (Inl ErrOther, pop_fault s)
          else (Inr (), (pop_fault s)\<lparr>dk_files := map_del (dk_files s) p\<rparr>))"

definition disk_Open :: "gostring \<Rightarrow> 'a disk_world_scheme \<Rightarrow> (store_err + byte list) \<times> 'a disk_world_scheme" where
  "disk_Open i s =
     (case blob_path i of
        None \<Rightarrow> (Inl ErrNotFound, s)
      | Some p \<Rightarrow>
          (case map_of (dk_files s) p of
             None \<Rightarrow> (Inl ErrNotFound, pop_fault s)
           | Some bytes \<Rightarrow>
               if next_fault s \<noteq> NoFault then (Inl ErrOther, pop_fault s)
               else (Inr bytes, pop_fault s)))"

definition disk_store :: "'a disk_world_scheme blob_store" where
  "disk_store =
     \<lparr>bl_Create = disk_Create, bl_Write = disk_Write, bl_Sync = disk_Sync, bl_Open = disk_Open,
      bl_Remove = disk_Remove\<rparr>"

section \<open>The blobs a file system holds\<close>

definition blobs_of :: "(gostring list, byte list) gomap \<Rightarrow> gostring \<Rightarrow> byte list option" where
  "blobs_of fs i = (case blob_path i of None \<Rightarrow> None | Some p \<Rightarrow> map_of fs p)"

lemma blob_path_inj: "blob_path i = Some p \<Longrightarrow> blob_path j = Some p \<Longrightarrow> i = j"
  by (auto simp: blob_path_def split: if_splits)

lemma blobs_of_put: "blob_path i = Some p \<Longrightarrow> blobs_of (map_put fs p x) = (blobs_of fs)(i \<mapsto> x)"
  using blob_path_inj by (fastforce simp: blobs_of_def fun_eq_iff split: option.splits)

lemma blobs_of_del: "blob_path i = Some p \<Longrightarrow> blobs_of (map_del fs p) = (blobs_of fs)(i := None)"
  using blob_path_inj by (fastforce simp: blobs_of_def fun_eq_iff split: option.splits)

lemma blobs_of_path: "blob_path i = Some p \<Longrightarrow> blobs_of fs i = map_of fs p"
  by (simp add: blobs_of_def)

lemma blobs_of_invalid: "blob_path i = None \<Longrightarrow> blobs_of fs i = None"
  by (simp add: blobs_of_def)

lemma is_lower_hex_iff:
  "is_lower_hex c \<longleftrightarrow> (97 \<le> code_of c \<and> code_of c \<le> 102) \<or> (48 \<le> code_of c \<and> code_of c \<le> 57)"
  by (simp add: is_lower_hex_def is_digit_def)

lemma validID_hex: "length raw = 16 \<Longrightarrow> validID (hex_encode raw)"
  by (auto simp: validID_def list_all_iff dest: hex_encode_chars simp flip: is_lower_hex_iff)

lemma validID_path: "validID i \<longleftrightarrow> blob_path i \<noteq> None"
  by (simp add: blob_path_def)

text \<open>
  Any view that reads its blobs from the files, and whose other components and invariant ignore
  the disk fields, gets the blob contract from these operations.
\<close>

locale disk_view =
  fixes view :: "'a disk_world_scheme \<Rightarrow> view" and inv :: "'a disk_world_scheme \<Rightarrow> bool"
  assumes view_files: "view (s\<lparr>dk_files := fs\<rparr>) = (view s)\<lparr>v_blobs := blobs_of fs\<rparr>"
    and view_faults: "view (s\<lparr>dk_faults := ft\<rparr>) = view s"
    and view_blobs: "v_blobs (view s) = blobs_of (dk_files s)"
    and inv_files: "inv s \<Longrightarrow> inv (s\<lparr>dk_files := fs\<rparr>)"
    and inv_faults: "inv s \<Longrightarrow> inv (s\<lparr>dk_faults := ft\<rparr>)"
begin

lemma view_pop [simp]: "view (pop_fault s) = view s"
  by (simp add: pop_fault_def view_faults)

lemma inv_pop [simp]: "inv s \<Longrightarrow> inv (pop_fault s)"
  by (simp add: pop_fault_def inv_faults)

lemma view_pop_files [simp]: "view ((pop_fault s)\<lparr>dk_files := fs\<rparr>) = (view s)\<lparr>v_blobs := blobs_of fs\<rparr>"
  by (simp add: view_files)

lemma files_same: "(view s)\<lparr>v_blobs := blobs_of (dk_files s)\<rparr> = view s"
  using view_files [where s = s and fs = "dk_files s"] by simp

lemmas disk_simps = Let_def view_blobs blobs_of_path blobs_of_invalid blobs_of_put blobs_of_del
  inv_files validID_path

lemma laws_create: "inv s \<Longrightarrow> disk_Create raw s = (r, s') \<Longrightarrow> inv s' \<and>
    (case r of Inr i \<Rightarrow> v_blobs (view s) i = None \<and> (length raw = 16 \<longrightarrow> validID i) \<and>
         view s' = (view s)\<lparr>v_blobs := (v_blobs (view s))(i \<mapsto> [])\<rparr>
     | Inl e \<Rightarrow> view s' = view s \<or> (\<exists>i. v_blobs (view s) i = None \<and>
         view s' = (view s)\<lparr>v_blobs := (v_blobs (view s))(i \<mapsto> [])\<rparr>))"
proof -
  assume inv: "inv s" and c: "disk_Create raw s = (r, s')"
  show ?thesis
  proof (cases "blob_path (hex_encode raw)")
    case None
    with inv c show ?thesis by (auto simp: disk_Create_def disk_simps)
  next
    case (Some p)
    note put = blobs_of_put [OF Some]
    show ?thesis
    proof (cases "map_of (dk_files s) p = None \<and> next_fault s \<noteq> Fails")
      case False
      with inv c Some show ?thesis
        by (auto simp: disk_Create_def Let_def split: if_splits)
    next
      case True
      then have v: "view s' = (view s)\<lparr>v_blobs := (v_blobs (view s))(hex_encode raw \<mapsto> [])\<rparr>"
        "v_blobs (view s) (hex_encode raw) = None" "inv s'"
        "r = Inr (hex_encode raw) \<or> r = Inl ErrOther"
        using inv c Some by (auto simp: disk_Create_def disk_simps put split: if_splits)
      from v(4) show ?thesis
      proof
        assume "r = Inr (hex_encode raw)"
        with v show ?thesis by (simp add: validID_hex)
      next
        assume "r = Inl ErrOther"
        with v(1,2,3) show ?thesis by auto
      qed
    qed
  qed
qed

lemma laws_write: "inv s \<Longrightarrow> disk_Write i off rd s = ((n, e), s') \<Longrightarrow> inv s' \<and>
    (case v_blobs (view s) i of
       None \<Rightarrow> view s' = view s \<and> n = 0 \<and> (validID i \<longrightarrow> e \<noteq> None)
     | Some old \<Rightarrow>
       (\<exists>x. view s' = (view s)\<lparr>v_blobs := (v_blobs (view s))(i \<mapsto> x)\<rparr>) \<and>
       (0 \<le> off \<longrightarrow> (\<exists>k \<le> length (rd_bytes rd). n = int k \<and>
         view s' = (view s)\<lparr>v_blobs := (v_blobs (view s))(i \<mapsto>
           write_at old (nat off) (take k (rd_bytes rd)))\<rparr> \<and>
         (e = None \<longrightarrow> k = length (rd_bytes rd) \<and> rd_end rd = BodyEOF))) \<and>
       (off < 0 \<longrightarrow> view s' = view s \<and> (e = None \<longrightarrow> rd_bytes rd = [] \<and> rd_end rd = BodyEOF)))"
proof -
  assume inv: "inv s" and w: "disk_Write i off rd s = ((n, e), s')"
  show ?thesis
  proof (cases "blob_path i")
    case None
    with inv w show ?thesis by (simp add: disk_Write_def disk_simps)
  next
    case (Some p)
    show ?thesis
    proof (cases "map_of (dk_files s) p")
      case None
      with Some inv w show ?thesis by (auto simp: disk_Write_def disk_simps)
    next
      case (Some old)
      have same: "(view s)\<lparr>v_blobs := (blobs_of (dk_files s))(i \<mapsto> old)\<rparr> = view s"
        using Some \<open>blob_path i = Some p\<close> files_same [of s]
        by (simp add: blobs_of_path [symmetric] fun_upd_idem)
      have zero: "\<exists>k \<le> length (rd_bytes rd). (0::int) = int k \<and>
          view s = (view s)\<lparr>v_blobs := (blobs_of (dk_files s))(i \<mapsto>
            write_at old (nat off) (take k (rd_bytes rd)))\<rparr>"
        by (rule exI [of _ 0]) (simp add: write_at_def same)
      have path: "blob_path i = Some p" by fact
      show ?thesis
      proof (cases "next_fault s = Fails \<or> off < 0")
        case True
        show ?thesis
        proof (cases "next_fault s = Fails")
          case True
          then have "n = 0" "e = Some ErrOther" "s' = pop_fault s"
            using Some path w by (simp_all add: disk_Write_def Let_def)
          moreover have "\<exists>x. view s = (view s)\<lparr>v_blobs := (blobs_of (dk_files s))(i \<mapsto> x)\<rparr>"
            using same by metis
          ultimately show ?thesis using zero Some path inv by (simp add: view_blobs blobs_of_path)
        next
          case False
          with True have off: "off < 0" by simp
          then have s': "s' = pop_fault s \<or> s' = (pop_fault s)\<lparr>dk_files := map_put (dk_files s) p old\<rparr>"
            and e: "e = None \<longrightarrow> rd_bytes rd = [] \<and> rd_end rd = BodyEOF"
            using False Some path w by (auto simp: disk_Write_def Let_def write_at_def end_error_def
              split: if_splits io_fault.splits body_end.splits)
          from s' have "inv s'" "view s' = (view s)\<lparr>v_blobs := (blobs_of (dk_files s))(i \<mapsto> old)\<rparr>"
            using inv same by (auto simp: inv_files blobs_of_put [OF path])
          with off e show ?thesis using Some path same
            by (simp add: view_blobs blobs_of_path) (rule exI [of _ old], simp)
        qed
      next
        case False
        define k where "k = (case next_fault s of FailsAfter m \<Rightarrow> min m (length (rd_bytes rd))
            | _ \<Rightarrow> length (rd_bytes rd))"
        have "n = int k" "e = (case next_fault s of FailsAfter m \<Rightarrow> Some ErrOther | _ \<Rightarrow> end_error (rd_end rd))"
          "s' = (pop_fault s)\<lparr>dk_files := map_put (dk_files s) p
            (write_at old (nat off) (take k (rd_bytes rd)))\<rparr>"
          using False Some path w by (simp_all add: disk_Write_def Let_def k_def)
        moreover have "k \<le> length (rd_bytes rd)"
          by (cases "next_fault s") (simp_all add: k_def)
        moreover have "e = None \<longrightarrow> k = length (rd_bytes rd) \<and> rd_end rd = BodyEOF"
          using calculation(2) False
          by (cases "next_fault s"; cases "rd_end rd") (simp_all add: k_def end_error_def)
        ultimately show ?thesis
          using False Some \<open>blob_path i = Some p\<close> inv by (simp add: disk_simps) (rule exI, rule refl)
      qed
    qed
  qed
qed

end

sublocale disk_view \<subseteq> blob_store_laws disk_store view inv validID
proof (unfold_locales, goal_cases)
  case (1 s raw s' r) then show ?case using laws_create by (simp add: disk_store_def)
next
  case (2 s ident off rd n e s') then show ?case using laws_write by (simp add: disk_store_def)
next
  case (3 s ident s' r) then show ?case
    by (auto simp: disk_store_def disk_Sync_def disk_simps split: option.splits if_splits)
next
  case (4 s ident s' r) then show ?case
    by (auto simp: disk_store_def disk_Open_def disk_simps split: option.splits if_splits)
next
  case (5 s ident s' r) then show ?case
    by (auto simp: disk_store_def disk_Remove_def disk_simps split: option.splits if_splits)
qed

section \<open>Properties\<close>

lemma malformed_id:
  assumes "blob_path i = None"
  shows "disk_Write i off rd s = ((0, None), s)" "disk_Open i s = (Inl ErrNotFound, s)"
    "disk_Sync i s = (Inl ErrNotFound, s)" "disk_Remove i s = (Inl ErrNotFound, s)"
  using assms by (simp_all add: disk_Write_def disk_Open_def disk_Sync_def disk_Remove_def)

text \<open>
  C31. Blob ids never become other paths: a path exists only for an id of 32 lowercase
  hexadecimal characters, it stays below \<open>objects\<close>, no component holds a slash or a dot, two
  ids never share a path, and every id \<open>Create\<close> makes from 16 random bytes is of that shape.  With
  any other id no operation touches the disk: \<open>Open\<close>, \<open>Sync\<close> and \<open>Remove\<close> answer \<open>ErrNotFound\<close>, but
  \<open>Write\<close> reports zero bytes and no error, although the interface says a missing blob is \<open>ErrNotFound\<close>.
\<close>

theorem blob_paths_are_confined:
  "(\<forall>i p. blob_path i = Some p \<longleftrightarrow>
      (length i = 32 \<and> list_all is_lower_hex i \<and> p = [''objects'', take 2 i, i])) \<and>
   (\<nexists>i j p. i \<noteq> j \<and> blob_path i = Some p \<and> blob_path j = Some p) \<and>
   (\<nexists>i p w. blob_path i = Some p \<and> w \<in> set p \<and> (CHR ''/'' \<in> set w \<or> CHR ''.'' \<in> set w)) \<and>
   blob_path (hex_encode [r0, r1, r2, r3, r4, r5, r6, r7, r8, r9, r10, r11, r12, r13, r14, r15]) \<noteq> None \<and>
   (\<nexists>i off rd. blob_path i = None \<and> (disk_Write i off rd s, disk_Open i s, disk_Sync i s, disk_Remove i s)
      \<noteq> (((0, None), s), (Inl ErrNotFound, s), (Inl ErrNotFound, s), (Inl ErrNotFound, s)))"
proof (intro conjI)
  show first: "\<forall>i p. blob_path i = Some p \<longleftrightarrow>
      (length i = 32 \<and> list_all is_lower_hex i \<and> p = [''objects'', take 2 i, i])"
    by (auto simp: blob_path_def validID_def list_all_iff is_lower_hex_iff)
  show "\<nexists>i j p. i \<noteq> j \<and> blob_path i = Some p \<and> blob_path j = Some p"
    using blob_path_inj by blast
  show "\<nexists>i p w. blob_path i = Some p \<and> w \<in> set p \<and> (CHR ''/'' \<in> set w \<or> CHR ''.'' \<in> set w)"
    by (auto simp: blob_path_def validID_def list_all_iff split: if_splits dest!: in_set_takeD)
  show "blob_path (hex_encode [r0, r1, r2, r3, r4, r5, r6, r7, r8, r9, r10, r11, r12, r13, r14, r15]) \<noteq> None"
    using validID_hex by (simp only: validID_path [symmetric]) simp
  show "\<nexists>i off rd. blob_path i = None \<and> (disk_Write i off rd s, disk_Open i s, disk_Sync i s, disk_Remove i s)
      \<noteq> (((0, None), s), (Inl ErrNotFound, s), (Inl ErrNotFound, s), (Inl ErrNotFound, s))"
    using malformed_id by blast
qed

end
