(* ===== verification/Store_Memory.thy ===== *)
theory Store_Memory
  imports Store_Disk
begin

text \<open>
  The in-memory stores (\<open>internal/memory\<close>), used by the conformance runner and the fixture
  server, beside a disk blob store.  Each is a Go map; \<open>maps.Clone\<close> is the identity on values.
  The upload store completes into the object store, in two steps that one process cannot
  observe.  The four interface contracts are proved for these definitions.
\<close>

record mem_world = disk_world +
  mm_keys :: "(gostring, apikey) gomap"
  mm_buckets :: "(gostring, bucket) gomap"
  mm_objects :: "(gostring, (gostring, object) gomap) gomap"
  mm_sessions :: "(gostring, upload_session) gomap"

section \<open>KeyStore\<close>

definition mem_NewKeyStore :: "apikey list \<Rightarrow> (gostring, apikey) gomap" where
  "mem_NewKeyStore ks = fold (\<lambda>k m. map_put m (k_ID k) k) ks []"

definition mem_GetKey :: "gostring \<Rightarrow> mem_world \<Rightarrow> (store_err + apikey) \<times> mem_world" where
  "mem_GetKey i s =
     (case map_of (mm_keys s) i of None \<Rightarrow> (Inl ErrNotFound, s) | Some k \<Rightarrow> (Inr k, s))"

definition mem_CreateKey :: "apikey \<Rightarrow> mem_world \<Rightarrow> (store_err + unit) \<times> mem_world" where
  "mem_CreateKey k s =
     (if map_of (mm_keys s) (k_ID k) \<noteq> None then (Inl ErrConflict, s)
      else (Inr (), s\<lparr>mm_keys := map_put (mm_keys s) (k_ID k) k\<rparr>))"

definition mem_ListKeys :: "mem_world \<Rightarrow> (store_err + apikey list) \<times> mem_world" where
  "mem_ListKeys s = (Inr (sort_key k_ID (map_values (mm_keys s))), s)"

definition mem_UpdateKey :: "apikey \<Rightarrow> mem_world \<Rightarrow> (store_err + unit) \<times> mem_world" where
  "mem_UpdateKey k s =
     (case map_of (mm_keys s) (k_ID k) of
        None \<Rightarrow> (Inl ErrNotFound, s)
      | Some stored \<Rightarrow>
          (Inr (), s\<lparr>mm_keys := map_put (mm_keys s) (k_ID k) (k\<lparr>k_CreatedAt := k_CreatedAt stored\<rparr>)\<rparr>))"

definition mem_DeleteKey :: "gostring \<Rightarrow> mem_world \<Rightarrow> (store_err + unit) \<times> mem_world" where
  "mem_DeleteKey i s =
     (if map_of (mm_keys s) i = None then (Inl ErrNotFound, s)
      else (Inr (), s\<lparr>mm_keys := map_del (mm_keys s) i\<rparr>))"

definition mem_key_store :: "mem_world key_store" where
  "mem_key_store =
     \<lparr>ks_GetKey = mem_GetKey, ks_CreateKey = mem_CreateKey, ks_UpdateKey = mem_UpdateKey,
      ks_DeleteKey = mem_DeleteKey, ks_ListKeys = mem_ListKeys\<rparr>"

section \<open>BucketStore\<close>

definition mem_NewBucketStore :: "bucket list \<Rightarrow> (gostring, bucket) gomap" where
  "mem_NewBucketStore bs = fold (\<lambda>b m. map_put m (b_Name b) b) bs []"

definition mem_GetBucket :: "gostring \<Rightarrow> mem_world \<Rightarrow> (store_err + bucket) \<times> mem_world" where
  "mem_GetBucket name s =
     (case map_of (mm_buckets s) name of None \<Rightarrow> (Inl ErrNotFound, s) | Some b \<Rightarrow> (Inr b, s))"

definition mem_CreateBucket :: "bucket \<Rightarrow> mem_world \<Rightarrow> (store_err + unit) \<times> mem_world" where
  "mem_CreateBucket b s =
     (if map_of (mm_buckets s) (b_Name b) \<noteq> None then (Inl ErrConflict, s)
      else (Inr (), s\<lparr>mm_buckets := map_put (mm_buckets s) (b_Name b) b\<rparr>))"

definition mem_ListBuckets :: "mem_world \<Rightarrow> (store_err + bucket list) \<times> mem_world" where
  "mem_ListBuckets s = (Inr (sort_key b_Name (map_values (mm_buckets s))), s)"

definition mem_DeleteBucket :: "gostring \<Rightarrow> mem_world \<Rightarrow> (store_err + unit) \<times> mem_world" where
  "mem_DeleteBucket name s =
     (if map_of (mm_buckets s) name = None then (Inl ErrNotFound, s)
      else (Inr (), s\<lparr>mm_buckets := map_del (mm_buckets s) name\<rparr>))"

definition mem_UpdateBucket :: "bucket \<Rightarrow> mem_world \<Rightarrow> (store_err + unit) \<times> mem_world" where
  "mem_UpdateBucket b s =
     (case map_of (mm_buckets s) (b_Name b) of
        None \<Rightarrow> (Inl ErrNotFound, s)
      | Some old \<Rightarrow>
          (Inr (), s\<lparr>mm_buckets := map_put (mm_buckets s) (b_Name b) (old\<lparr>b_Public := b_Public b\<rparr>)\<rparr>))"

definition mem_bucket_store :: "mem_world bucket_store" where
  "mem_bucket_store =
     \<lparr>bs_CreateBucket = mem_CreateBucket, bs_GetBucket = mem_GetBucket,
      bs_ListBuckets = mem_ListBuckets, bs_DeleteBucket = mem_DeleteBucket,
      bs_UpdateBucket = mem_UpdateBucket\<rparr>"

section \<open>ObjectStore\<close>

definition inner_map :: "('a, ('b, 'c) gomap) gomap \<Rightarrow> 'a \<Rightarrow> ('b, 'c) gomap" where
  "inner_map m b = (case map_of m b of None \<Rightarrow> [] | Some i \<Rightarrow> i)"

definition mem_NewObjectStore :: "object list \<Rightarrow> (gostring, (gostring, object) gomap) gomap" where
  "mem_NewObjectStore obs =
     fold (\<lambda>ob m. map_put m (o_Bucket ob) (map_put (inner_map m (o_Bucket ob)) (o_Key ob) ob)) obs []"

definition mem_PutObject :: "object \<Rightarrow> mem_world \<Rightarrow> (store_err + gostring) \<times> mem_world" where
  "mem_PutObject ob s =
     (let b = inner_map (mm_objects s) (o_Bucket ob);
          prev = (case map_of b (o_Key ob) of None \<Rightarrow> [] | Some p \<Rightarrow> o_BlobID p)
      in (Inr prev, s\<lparr>mm_objects := map_put (mm_objects s) (o_Bucket ob) (map_put b (o_Key ob) ob)\<rparr>))"

definition mem_GetObject :: "gostring \<Rightarrow> gostring \<Rightarrow> mem_world \<Rightarrow> (store_err + object) \<times> mem_world" where
  "mem_GetObject b k s =
     (case map_of (inner_map (mm_objects s) b) k of
        None \<Rightarrow> (Inl ErrNotFound, s) | Some ob \<Rightarrow> (Inr ob, s))"

definition mem_DeleteObject :: "gostring \<Rightarrow> gostring \<Rightarrow> mem_world \<Rightarrow> (store_err + gostring) \<times> mem_world" where
  "mem_DeleteObject b k s =
     (case map_of (inner_map (mm_objects s) b) k of
        None \<Rightarrow> (Inl ErrNotFound, s)
      | Some ob \<Rightarrow>
          let inner = map_del (inner_map (mm_objects s) b) k
          in (Inr (o_BlobID ob),
              s\<lparr>mm_objects := (if inner = [] then map_del (mm_objects s) b
                               else map_put (mm_objects s) b inner)\<rparr>))"

definition mem_ListObjects ::
  "gostring \<Rightarrow> gostring \<Rightarrow> gostring \<Rightarrow> int \<Rightarrow> mem_world \<Rightarrow> (store_err + object list) \<times> mem_world" where
  "mem_ListObjects b pre aft limit s =
     (let matched = map snd (filter (\<lambda>(key, ob). \<not> (\<not> HasPrefix key pre \<or> key \<le> aft))
            (inner_map (mm_objects s) b));
          sorted_list = sort_key o_Key matched
      in (Inr (if limit > 0 \<and> int (length sorted_list) > limit then take (nat limit) sorted_list
               else sorted_list), s))"

definition mem_object_store :: "mem_world object_store" where
  "mem_object_store =
     \<lparr>os_PutObject = mem_PutObject, os_GetObject = mem_GetObject,
      os_DeleteObject = mem_DeleteObject, os_ListObjects = mem_ListObjects\<rparr>"

section \<open>UploadStore\<close>

definition mem_NewUploadStore :: "upload_session list \<Rightarrow> (gostring, upload_session) gomap" where
  "mem_NewUploadStore ss = fold (\<lambda>se m. map_put m (u_ID se) se) ss []"

definition mem_CreateUpload :: "upload_session \<Rightarrow> mem_world \<Rightarrow> (store_err + unit) \<times> mem_world" where
  "mem_CreateUpload se s =
     (if map_of (mm_sessions s) (u_ID se) \<noteq> None then (Inl ErrConflict, s)
      else (Inr (), s\<lparr>mm_sessions := map_put (mm_sessions s) (u_ID se) se\<rparr>))"

definition mem_GetUpload :: "gostring \<Rightarrow> mem_world \<Rightarrow> (store_err + upload_session) \<times> mem_world" where
  "mem_GetUpload i s =
     (case map_of (mm_sessions s) i of None \<Rightarrow> (Inl ErrNotFound, s) | Some se \<Rightarrow> (Inr se, s))"

definition mem_PutPart :: "gostring \<Rightarrow> int \<Rightarrow> part \<Rightarrow> mem_world \<Rightarrow> (store_err + unit) \<times> mem_world" where
  "mem_PutPart i n p s =
     (case map_of (mm_sessions s) i of
        None \<Rightarrow> (Inl ErrNotFound, s)
      | Some se \<Rightarrow>
          (Inr (), s\<lparr>mm_sessions := map_put (mm_sessions s) i (se\<lparr>u_Parts := map_put (u_Parts se) n p\<rparr>)\<rparr>))"

definition mem_CompleteUpload :: "gostring \<Rightarrow> object \<Rightarrow> mem_world \<Rightarrow> (store_err + gostring) \<times> mem_world" where
  "mem_CompleteUpload i ob s =
     (if map_of (mm_sessions s) i = None then (Inl ErrNotFound, s)
      else (case mem_PutObject ob s of
              (Inl e, s1) \<Rightarrow> (Inl e, s1)
            | (Inr prev, s1) \<Rightarrow> (Inr prev, s1\<lparr>mm_sessions := map_del (mm_sessions s1) i\<rparr>)))"

definition mem_DeleteUpload :: "gostring \<Rightarrow> mem_world \<Rightarrow> (store_err + upload_session) \<times> mem_world" where
  "mem_DeleteUpload i s =
     (case map_of (mm_sessions s) i of
        None \<Rightarrow> (Inl ErrNotFound, s)
      | Some se \<Rightarrow> (Inr se, s\<lparr>mm_sessions := map_del (mm_sessions s) i\<rparr>))"

definition mem_CountUploads :: "gostring \<Rightarrow> mem_world \<Rightarrow> (store_err + nat) \<times> mem_world" where
  "mem_CountUploads b s =
     (Inr (length (filter (\<lambda>se. u_Bucket se = b) (map_values (mm_sessions s)))), s)"

definition mem_upload_store :: "mem_world upload_store" where
  "mem_upload_store =
     \<lparr>us_CreateUpload = mem_CreateUpload, us_GetUpload = mem_GetUpload, us_PutPart = mem_PutPart,
      us_CompleteUpload = mem_CompleteUpload, us_DeleteUpload = mem_DeleteUpload,
      us_CountUploads = mem_CountUploads\<rparr>"

section \<open>Invariant and view\<close>

text \<open>The inner map of a bucket: keyed by the object's key, and holding that bucket's objects only.\<close>

definition inner_ok :: "gostring \<Rightarrow> (gostring, object) gomap \<Rightarrow> bool" where
  "inner_ok b m \<longleftrightarrow> keyed_by o_Key m \<and> (\<forall>(k, ob) \<in> set m. o_Bucket ob = b)"

definition mem_inv :: "mem_world \<Rightarrow> bool" where
  "mem_inv s \<longleftrightarrow>
     keyed_by k_ID (mm_keys s) \<and> keyed_by b_Name (mm_buckets s) \<and> keyed_by u_ID (mm_sessions s) \<and>
     is_map (mm_objects s) \<and> (\<forall>b. inner_ok b (inner_map (mm_objects s) b))"

definition mem_view :: "mem_world \<Rightarrow> view" where
  "mem_view s =
     \<lparr>v_keys = map_of (mm_keys s), v_buckets = map_of (mm_buckets s),
      v_objects = (\<lambda>(b, k). map_of (inner_map (mm_objects s) b) k),
      v_uploads = map_of (mm_sessions s), v_blobs = blobs_of (dk_files s)\<rparr>"

lemma inner_map_put: "inner_map (map_put m b i) = (inner_map m)(b := i)"
  by (simp add: inner_map_def fun_eq_iff)

lemma inner_map_del: "inner_map (map_del m b) = (inner_map m)(b := [])"
  by (simp add: inner_map_def fun_eq_iff)

lemma mem_inv_inner: "mem_inv s \<Longrightarrow> inner_ok b (inner_map (mm_objects s) b)"
  by (simp add: mem_inv_def)

lemma inner_ok_Nil [simp]: "inner_ok b []"
  by (simp add: inner_ok_def)

lemma inner_ok_put: "inner_ok b m \<Longrightarrow> o_Bucket ob = b \<Longrightarrow> inner_ok b (map_put m (o_Key ob) ob)"
proof -
  assume m: "inner_ok b m" "o_Bucket ob = b"
  then have k: "keyed_by o_Key (map_put m (o_Key ob) ob)"
    by (simp add: inner_ok_def keyed_by_put)
  have "o_Bucket v = b" if "(k', v) \<in> set (map_put m (o_Key ob) ob)" for k' v
  proof -
    have "map_of (map_put m (o_Key ob) ob) k' = Some v"
      using that k by (intro map_of_is_SomeI) (simp_all add: keyed_by_def)
    then show ?thesis
      using m by (auto simp: inner_ok_def split: if_splits dest: map_of_SomeD)
  qed
  with k show ?thesis by (auto simp: inner_ok_def)
qed

lemma inner_ok_del: "inner_ok b m \<Longrightarrow> inner_ok b (map_del m k)"
proof -
  assume m: "inner_ok b m"
  have "set (map_del m k) \<subseteq> set m"
    by (auto simp: map_del_def AList.delete_eq)
  with m keyed_by_del [of o_Key m k] show ?thesis
    unfolding inner_ok_def by blast
qed

lemma mem_inv_objects:
  assumes "mem_inv s" "is_map m" "\<And>b'. inner_ok b' (inner_map m b')"
  shows "mem_inv (s\<lparr>mm_objects := m\<rparr>)"
  using assms by (simp add: mem_inv_def)

lemma mem_inv_parts:
  assumes "mem_inv s"
  shows "keyed_by k_ID (mm_keys s)" "keyed_by b_Name (mm_buckets s)" "keyed_by u_ID (mm_sessions s)"
  using assms by (simp_all add: mem_inv_def)

lemma mem_inv_update:
  assumes "mem_inv s"
  shows "keyed_by k_ID ks \<Longrightarrow> mem_inv (s\<lparr>mm_keys := ks\<rparr>)"
    "keyed_by b_Name bs \<Longrightarrow> mem_inv (s\<lparr>mm_buckets := bs\<rparr>)"
    "keyed_by u_ID us \<Longrightarrow> mem_inv (s\<lparr>mm_sessions := us\<rparr>)"
  using assms by (simp_all add: mem_inv_def)

lemmas mem_simps = mem_view_def Let_def mem_inv_parts mem_inv_update keyed_by_put keyed_by_del

section \<open>The contracts hold\<close>

interpretation mem_keys: key_store_laws mem_key_store mem_view mem_inv "\<lambda>k. k"
proof (unfold_locales, goal_cases)
  case (5 s s' r)
  have m: "keyed_by k_ID (mm_keys s)"
    using 5(1) by (simp add: mem_inv_def)
  have "r = Inr (sort_key k_ID (map_values (mm_keys s))) \<and> s' = s"
    using 5(2) by (auto simp: mem_key_store_def mem_ListKeys_def)
  with 5(1) show ?case
    using keyed_by_sorted_values [OF m] keyed_by_values [OF m] by (simp add: mem_view_def)
qed (auto simp: mem_key_store_def mem_GetKey_def mem_CreateKey_def mem_UpdateKey_def
    mem_DeleteKey_def mem_simps split: option.splits if_splits)

interpretation mem_buckets: bucket_store_laws mem_bucket_store mem_view mem_inv "\<lambda>b. b"
proof (unfold_locales, goal_cases)
  case (3 s s' r)
  have m: "keyed_by b_Name (mm_buckets s)"
    using 3(1) by (simp add: mem_inv_def)
  have "r = Inr (sort_key b_Name (map_values (mm_buckets s))) \<and> s' = s"
    using 3(2) by (auto simp: mem_bucket_store_def mem_ListBuckets_def)
  with 3(1) show ?case
    using keyed_by_sorted_values [OF m] keyed_by_values [OF m] by (simp add: mem_view_def)
next
  case (5 s b s' r)
  show ?case
  proof (cases "map_of (mm_buckets s) (b_Name b)")
    case None
    with 5 show ?thesis by (auto simp: mem_bucket_store_def mem_UpdateBucket_def mem_view_def)
  next
    case (Some old)
    then have "b_Name old = b_Name b"
      using keyed_by_map_of [OF mem_inv_parts(2) [OF 5(1)]] by blast
    with 5 Some show ?thesis
      by (auto simp: mem_bucket_store_def mem_UpdateBucket_def mem_simps)
  qed
qed (auto simp: mem_bucket_store_def mem_GetBucket_def mem_CreateBucket_def mem_UpdateBucket_def
    mem_DeleteBucket_def mem_simps split: option.splits if_splits)

lemma mem_put_object_inv:
  assumes "mem_inv s" "mem_PutObject ob s = (r, s')"
  shows "mem_inv s'"
proof -
  have "s' = s\<lparr>mm_objects := map_put (mm_objects s) (o_Bucket ob)
      (map_put (inner_map (mm_objects s) (o_Bucket ob)) (o_Key ob) ob)\<rparr>"
    using assms(2) by (simp add: mem_PutObject_def Let_def)
  moreover have "is_map (mm_objects s)"
    using assms(1) by (simp add: mem_inv_def)
  ultimately show ?thesis
    using mem_inv_inner [OF assms(1)]
    by (simp add: mem_inv_objects [OF assms(1)] inner_map_put inner_ok_put)
qed

lemma map_del_Nil: "map_del m k = [] \<Longrightarrow> map_of m k' = (if k' = k then map_of m k else None)"
proof -
  assume "map_del m k = []"
  then have "(map_of m)(k := None) = Map.empty"
    by (metis map_of_del map_of.simps(1))
  then show ?thesis by (metis fun_upd_apply)
qed

text \<open>Dropping an emptied inner map is what replacing it by the empty one would do.\<close>

lemma mem_delete_object_cases:
  assumes "mem_DeleteObject b k s = (r, s')"
  obtains "map_of (inner_map (mm_objects s) b) k = None" "r = Inl ErrNotFound" "s' = s"
  | ob m where "map_of (inner_map (mm_objects s) b) k = Some ob" "r = Inr (o_BlobID ob)"
      "s' = s\<lparr>mm_objects := m\<rparr>" "is_map (mm_objects s) \<Longrightarrow> is_map m"
      "inner_map m = (inner_map (mm_objects s))(b := map_del (inner_map (mm_objects s) b) k)"
  using assms
  by (auto simp: mem_DeleteObject_def Let_def inner_map_put inner_map_del
      split: option.splits if_splits)

lemma mem_delete_object_inv:
  assumes "mem_inv s" "mem_DeleteObject b k s = (r, s')"
  shows "mem_inv s'"
  using assms(2)
proof (cases rule: mem_delete_object_cases)
  case 1
  with assms(1) show ?thesis by simp
next
  case (2 ob m)
  moreover have "is_map (mm_objects s)"
    using assms(1) by (simp add: mem_inv_def)
  ultimately show ?thesis
    using mem_inv_inner [OF assms(1)]
    by (simp add: mem_inv_objects [OF assms(1)] inner_ok_del)
qed

lemma mem_view_objects_put:
  "mem_PutObject ob s = (r, s') \<Longrightarrow>
   mem_view s' = (mem_view s)\<lparr>v_objects := (v_objects (mem_view s))((o_Bucket ob, o_Key ob) \<mapsto> ob)\<rparr> \<and>
   r = Inr (blob_previous (mem_view s) ob) \<and> mm_sessions s' = mm_sessions s"
  by (auto simp: mem_PutObject_def Let_def mem_view_def inner_map_put fun_eq_iff blob_previous_def)

lemma page_take:
  "0 < limit \<Longrightarrow> (if limit > 0 \<and> int (length xs) > limit then take (nat limit) xs else xs) = take (nat limit) xs"
  by simp

lemma mem_listing:
  assumes "mem_inv s" "0 < limit"
  shows "\<exists>l. mem_ListObjects b pre aft limit s = (Inr l, s) \<and>
    is_listing (mem_view s) b pre aft (nat limit) l"
proof -
  let ?in = "inner_map (mm_objects s) b"
  let ?ms = "map snd (filter (\<lambda>(key, ob). \<not> (\<not> HasPrefix key pre \<or> key \<le> aft)) ?in)"
  let ?K = "listing_keys (mem_view s) b pre aft"
  have kb: "keyed_by o_Key ?in"
    using mem_inv_inner [OF assms(1)] by (simp add: inner_ok_def)
  have entry: "map_of ?in k = Some v \<longleftrightarrow> (k, v) \<in> set ?in" for k v
    using kb by (simp add: keyed_by_def)
  have own: "o_Key v = k" if "(k, v) \<in> set ?in" for k v
    using kb that by (auto simp: keyed_by_def)
  have K: "o_Key ` set ?ms = ?K"
  proof (intro set_eqI iffI)
    fix k assume "k \<in> o_Key ` set ?ms"
    then show "k \<in> ?K"
      using own entry by (auto simp: listing_keys_def mem_view_def HasPrefix_def)
  next
    fix k assume "k \<in> ?K"
    then obtain v where "(k, v) \<in> set ?in" "prefix pre k" "aft < k"
      using entry by (auto simp: listing_keys_def mem_view_def)
    then show "k \<in> o_Key ` set ?ms"
      using own by (force simp: HasPrefix_def)
  qed
  have fk: "keyed_by o_Key (filter (\<lambda>(key, ob). \<not> (\<not> HasPrefix key pre \<or> key \<le> aft)) ?in)"
    using kb by (rule keyed_by_filter)
  have keys: "map o_Key (sort_key o_Key ?ms) = sorted_list_of_set ?K"
    using map_sort_key_distinct [OF keyed_by_distinct [OF fk]] K
    by (simp only: map_values_def)
  have rows: "v_objects (mem_view s) (b, o_Key v) = Some v" if "v \<in> set ?ms" for v
    using that own entry by (auto simp: mem_view_def)
  let ?l = "if limit > 0 \<and> int (length (sort_key o_Key ?ms)) > limit
    then take (nat limit) (sort_key o_Key ?ms) else sort_key o_Key ?ms"
  have "finite (o_Key ` set ?ms)"
    by (rule finite_imageI [OF List.finite_set])
  then have "finite ?K"
    by (simp only: K)
  moreover have "map o_Key ?l = take (nat limit) (sorted_list_of_set ?K)"
    by (simp only: page_take [OF assms(2)] take_map [symmetric] keys)
  moreover have "\<forall>v \<in> set ?l. v_objects (mem_view s) (b, o_Key v) = Some v"
    using rows by (auto dest: in_set_takeD)
  ultimately have "is_listing (mem_view s) b pre aft (nat limit) ?l"
    unfolding is_listing_def by blast
  moreover have "mem_ListObjects b pre aft limit s = (Inr ?l, s)"
    by (simp only: mem_ListObjects_def Let_def)
  ultimately show ?thesis by blast
qed

interpretation mem_objects: object_store_laws mem_object_store mem_view mem_inv "\<lambda>ob. ob" "\<lambda>_. True"
proof (unfold_locales, goal_cases)
  case (1 s ob s' r) then show ?case
    using mem_put_object_inv [of s ob r s'] mem_view_objects_put [of ob s r s']
    by (simp add: mem_object_store_def)
next
  case (2 s b k s' r) then show ?case
    by (auto simp: mem_object_store_def mem_GetObject_def mem_view_def split: option.splits)
next
  case (3 s b k s' r)
  have p: "mem_DeleteObject b k s = (r, s')"
    using 3(2) by (simp add: mem_object_store_def)
  then show ?case
  proof (cases rule: mem_delete_object_cases)
    case 1
    with 3(1) show ?thesis by (simp add: mem_view_def)
  next
    case (2 ob m)
    with mem_delete_object_inv [OF 3(1) p] show ?thesis
      by (simp add: mem_view_def fun_eq_iff)
  qed
next
  case (4 s b pre aft limit s' r)
  have p: "mem_ListObjects b pre aft limit s = (r, s')"
    using 4(2) by (simp add: mem_object_store_def)
  then obtain l where "r = Inr l" "s' = s"
    by (simp only: mem_ListObjects_def Let_def prod.inject) blast
  with p 4(1) show ?case
    using mem_listing [of s limit b pre aft] by auto
qed simp

interpretation mem_uploads: upload_store_laws mem_upload_store mem_view mem_inv "\<lambda>se. se" "\<lambda>ob. ob"
proof (unfold_locales, goal_cases)
  case (4 s i ob s' r)
  obtain r1 s1 where p: "mem_PutObject ob s = (r1, s1)" by (cases "mem_PutObject ob s")
  from mem_view_objects_put [OF p] have v: "r1 = Inr (blob_previous (mem_view s) ob)"
    "mem_view s1 = (mem_view s)\<lparr>v_objects := (v_objects (mem_view s))((o_Bucket ob, o_Key ob) \<mapsto> ob)\<rparr>"
    "mm_sessions s1 = mm_sessions s"
    by simp_all
  have inv: "mem_inv s1"
    by (rule mem_put_object_inv [OF 4(1) p])
  have del: "mem_view (s1\<lparr>mm_sessions := map_del (mm_sessions s1) i\<rparr>) =
      (mem_view s1)\<lparr>v_uploads := (v_uploads (mem_view s1))(i := None)\<rparr>"
    by (simp add: mem_view_def)
  have up: "v_uploads (mem_view s) = map_of (mm_sessions s)"
    by (simp add: mem_view_def)
  show ?case
  proof (cases "map_of (mm_sessions s) i")
    case None
    with 4(2) have "r = Inl ErrNotFound" "s' = s"
      by (auto simp: mem_upload_store_def mem_CompleteUpload_def)
    with 4(1) None show ?thesis by (simp add: up)
  next
    case (Some se)
    then have "r = r1" "s' = s1\<lparr>mm_sessions := map_del (mm_sessions s1) i\<rparr>"
      using 4(2) p v(1) by (auto simp: mem_upload_store_def mem_CompleteUpload_def)
    moreover have "mem_inv (s1\<lparr>mm_sessions := map_del (mm_sessions s1) i\<rparr>)"
      by (rule mem_inv_update(3) [OF inv keyed_by_del [OF mem_inv_parts(3) [OF inv]]])
    moreover have "mem_view (s1\<lparr>mm_sessions := map_del (mm_sessions s1) i\<rparr>) =
        (mem_view s)\<lparr>v_objects := (v_objects (mem_view s))((o_Bucket ob, o_Key ob) \<mapsto> ob),
          v_uploads := (v_uploads (mem_view s))(i := None)\<rparr>"
      by (simp only: del v(2)) simp
    ultimately show ?thesis using Some v(1) by (simp add: up)
  qed
next
  case (6 s b s' r)
  have m: "keyed_by u_ID (mm_sessions s)"
    by (rule mem_inv_parts(3) [OF 6(1)])
  have "filter (\<lambda>se. u_Bucket se = b) (map_values (mm_sessions s)) = [] \<longleftrightarrow>
      (\<forall>i se. map_of (mm_sessions s) i = Some se \<longrightarrow> u_Bucket se \<noteq> b)"
    using keyed_by_values [OF m] keyed_by_map_of [OF m] by (simp add: filter_empty_conv) metis
  moreover have "r = Inr (length (filter (\<lambda>se. u_Bucket se = b) (map_values (mm_sessions s))))" and "s' = s"
    using 6(2) by (auto simp: mem_upload_store_def mem_CountUploads_def)
  ultimately show ?case
    using 6(1) by (simp add: mem_view_def)
next
  case (3 s i n p s' r)
  show ?case
  proof (cases "map_of (mm_sessions s) i")
    case None
    with 3 show ?thesis by (auto simp: mem_upload_store_def mem_PutPart_def mem_view_def)
  next
    case (Some se)
    then have "u_ID se = i"
      using keyed_by_map_of [OF mem_inv_parts(3) [OF 3(1)]] by blast
    with 3 Some show ?thesis
      by (auto simp: mem_upload_store_def mem_PutPart_def mem_simps)
  qed
next
  case (2 s i s' r)
  then show ?case
    using keyed_by_map_of [OF mem_inv_parts(3) [OF 2(1)], of i]
    by (auto simp: mem_upload_store_def mem_GetUpload_def mem_view_def split: option.splits)
qed (auto simp: mem_upload_store_def mem_CreateUpload_def
    mem_DeleteUpload_def mem_simps split: option.splits if_splits)

interpretation mem_blobs: disk_view mem_view mem_inv
  by unfold_locales (simp_all add: mem_view_def mem_inv_def)

end
