(* ===== verification/Store_Sqlite.thy ===== *)
theory Store_Sqlite
  imports Store_Disk Go_Text
begin

text \<open>
  \<open>internal/sqlite\<close>: the metadata stores on the tables of the four migrations.  A table is an
  association list from primary key to row, and a row has the columns of the schema: times are
  whole seconds, the JSON columns are what their text parses to.  Every call of the driver may
  fail (\<open>sq_faults\<close>, one entry per call, none left: no failure); a transaction that does not
  commit leaves the tables as they were at \<open>BeginTx\<close>.  SQLite itself is modelled by what the
  adapter relies on: primary keys, \<open>INSERT OR IGNORE\<close> and upserts with their affected rows,
  immediate foreign keys to \<open>buckets\<close> (which \<open>OR IGNORE\<close> does not suppress), \<open>BINARY\<close>
  collation, \<open>substr\<close> counting characters, \<open>LIMIT\<close> with a negative bound meaning none.
\<close>

declare map_of_eq_Some_iff [simp del] Some_eq_map_of_iff [simp del]

section \<open>Tables\<close>

record key_row =
  kr_name :: gostring
  kr_secret :: gostring
  kr_admin :: bool
  kr_scopes :: "(gostring, access) gomap"
  kr_disabled :: bool
  kr_created :: int

record bucket_row =
  br_public :: bool
  br_created :: int

record object_row =
  or_blob_id :: gostring
  or_size :: int
  or_content_type :: gostring
  or_checksum :: gostring
  or_metadata :: "(gostring, gostring) gomap"
  or_created :: int

record upload_row =
  ur_bucket :: gostring
  ur_key :: gostring
  ur_blob_id :: gostring
  ur_part_size :: int
  ur_content_type :: gostring
  ur_metadata :: "(gostring, gostring) gomap"
  ur_parts :: "(int, part) gomap"
  ur_created :: int
  ur_expires :: int

record sq_world = disk_world +
  sq_faults :: "bool list"
  sq_keys :: "(gostring, key_row) gomap"
  sq_buckets :: "(gostring, bucket_row) gomap"
  sq_objects :: "(gostring \<times> gostring, object_row) gomap"
  sq_uploads :: "(gostring, upload_row) gomap"

section \<open>Driver calls and transactions\<close>

definition db_pop :: "sq_world \<Rightarrow> sq_world" where
  "db_pop s = s\<lparr>sq_faults := tl (sq_faults s)\<rparr>"

definition db_call ::
  "(sq_world \<Rightarrow> (store_err + 'a) \<times> sq_world) \<Rightarrow> sq_world \<Rightarrow> (store_err + 'a) \<times> sq_world" where
  "db_call f s = (if sq_faults s \<noteq> [] \<and> hd (sq_faults s) then (Inl ErrOther, db_pop s) else f (db_pop s))"

text \<open>\<open>defer tx.Rollback()\<close>: the tables as they were, the calls made stay made.\<close>

definition rollback :: "sq_world \<Rightarrow> sq_world \<Rightarrow> sq_world" where
  "rollback s s' = s\<lparr>sq_faults := sq_faults s'\<rparr>"

definition db_commit :: "'a \<Rightarrow> sq_world \<Rightarrow> (store_err + 'a) \<times> sq_world" where
  "db_commit x = db_call (\<lambda>s. (Inr x, s))"

text \<open>\<open>begin_err\<close> is what the caller gets when \<open>BeginTx\<close> itself fails.\<close>

definition db_tx ::
  "store_err \<Rightarrow> (sq_world \<Rightarrow> (store_err + 'a) \<times> sq_world) \<Rightarrow> sq_world \<Rightarrow> (store_err + 'a) \<times> sq_world" where
  "db_tx begin_err body s =
     (if sq_faults s \<noteq> [] \<and> hd (sq_faults s) then (Inl begin_err, db_pop s)
      else case body (db_pop s) of
             (Inl e, s1) \<Rightarrow> (Inl e, rollback s s1)
           | (Inr x, s1) \<Rightarrow>
               (case db_commit x s1 of
                  (Inl e, s2) \<Rightarrow> (Inl e, rollback s s2)
                | (Inr y, s2) \<Rightarrow> (Inr y, s2)))"

text \<open>A query with rows: the query itself and the iteration (\<open>rows.Err\<close>) may fail.\<close>

definition db_rows :: "(sq_world \<Rightarrow> 'a) \<Rightarrow> sq_world \<Rightarrow> (store_err + 'a) \<times> sq_world" where
  "db_rows f = db_call (db_call (\<lambda>s. (Inr (f s), s)))"

section \<open>JSON columns\<close>

text \<open>
  \<open>json.Marshal\<close> of a string map writes the entries sorted by key and replaces every byte that is
  not UTF-8 by the replacement character; \<open>json.Unmarshal\<close> keeps the last of equal names.
\<close>

definition json_rune :: "gostring \<Rightarrow> gostring" where
  "json_rune r = (if ValidString r then r else bytes3 239 191 189)"

definition json_string :: "gostring \<Rightarrow> gostring" where
  "json_string s = concat (map json_rune (runes s))"

definition json_map :: "(gostring, gostring) gomap \<Rightarrow> (gostring, gostring) gomap" where
  "json_map m = fold (\<lambda>(k, v) acc. map_put acc (json_string k) (json_string v)) (sort_key fst m) []"

section \<open>api_keys\<close>

definition scan_key :: "gostring \<Rightarrow> key_row \<Rightarrow> apikey" where
  "scan_key i r =
     \<lparr>k_ID = i, k_Secret = kr_secret r, k_Name = kr_name r, k_Admin = kr_admin r,
      k_Scopes = kr_scopes r, k_Disabled = kr_disabled r, k_CreatedAt = time_Unix (kr_created r)\<rparr>"

definition key_values :: "apikey \<Rightarrow> int \<Rightarrow> key_row" where
  "key_values k created =
     \<lparr>kr_name = k_Name k, kr_secret = k_Secret k, kr_admin = k_Admin k,
      kr_scopes = json_map (k_Scopes k), kr_disabled = k_Disabled k, kr_created = created\<rparr>"

definition sq_GetKey :: "gostring \<Rightarrow> sq_world \<Rightarrow> (store_err + apikey) \<times> sq_world" where
  "sq_GetKey i = db_call (\<lambda>s.
     case map_of (sq_keys s) i of None \<Rightarrow> (Inl ErrNotFound, s) | Some r \<Rightarrow> (Inr (scan_key i r), s))"

definition sq_PutKey :: "time \<Rightarrow> apikey \<Rightarrow> sq_world \<Rightarrow> (store_err + unit) \<times> sq_world" where
  "sq_PutKey now k = db_call (\<lambda>s.
     (Inr (), s\<lparr>sq_keys := map_put (sq_keys s) (k_ID k)
        (case map_of (sq_keys s) (k_ID k) of
           None \<Rightarrow> key_values k (Unix now) | Some r \<Rightarrow> key_values k (kr_created r))\<rparr>))"

definition sq_CreateKey :: "apikey \<Rightarrow> sq_world \<Rightarrow> (store_err + unit) \<times> sq_world" where
  "sq_CreateKey k = db_call (\<lambda>s.
     if map_of (sq_keys s) (k_ID k) \<noteq> None then (Inl ErrConflict, s)
     else (Inr (), s\<lparr>sq_keys := map_put (sq_keys s) (k_ID k) (key_values k (Unix (k_CreatedAt k)))\<rparr>))"

definition sq_UpdateKey :: "apikey \<Rightarrow> sq_world \<Rightarrow> (store_err + unit) \<times> sq_world" where
  "sq_UpdateKey k = db_call (\<lambda>s.
     case map_of (sq_keys s) (k_ID k) of
       None \<Rightarrow> (Inl ErrNotFound, s)
     | Some r \<Rightarrow> (Inr (), s\<lparr>sq_keys := map_put (sq_keys s) (k_ID k) (key_values k (kr_created r))\<rparr>))"

definition sq_DeleteKey :: "gostring \<Rightarrow> sq_world \<Rightarrow> (store_err + unit) \<times> sq_world" where
  "sq_DeleteKey i = db_call (\<lambda>s.
     if map_of (sq_keys s) i = None then (Inl ErrNotFound, s)
     else (Inr (), s\<lparr>sq_keys := map_del (sq_keys s) i\<rparr>))"

definition sq_ListKeys :: "sq_world \<Rightarrow> (store_err + apikey list) \<times> sq_world" where
  "sq_ListKeys = db_rows (\<lambda>s. map (\<lambda>(i, r). scan_key i r) (sort_key fst (sq_keys s)))"

section \<open>buckets\<close>

definition scan_bucket :: "gostring \<Rightarrow> bucket_row \<Rightarrow> bucket" where
  "scan_bucket name r = \<lparr>b_Name = name, b_Public = br_public r, b_CreatedAt = time_Unix (br_created r)\<rparr>"

definition sq_GetBucket :: "gostring \<Rightarrow> sq_world \<Rightarrow> (store_err + bucket) \<times> sq_world" where
  "sq_GetBucket name = db_call (\<lambda>s.
     case map_of (sq_buckets s) name of
       None \<Rightarrow> (Inl ErrNotFound, s) | Some r \<Rightarrow> (Inr (scan_bucket name r), s))"

definition sq_CreateBucket :: "bucket \<Rightarrow> sq_world \<Rightarrow> (store_err + unit) \<times> sq_world" where
  "sq_CreateBucket b = db_call (\<lambda>s.
     if map_of (sq_buckets s) (b_Name b) \<noteq> None then (Inl ErrConflict, s)
     else (Inr (), s\<lparr>sq_buckets := map_put (sq_buckets s) (b_Name b)
             \<lparr>br_public = b_Public b, br_created = Unix (b_CreatedAt b)\<rparr>\<rparr>))"

definition sq_ListBuckets :: "sq_world \<Rightarrow> (store_err + bucket list) \<times> sq_world" where
  "sq_ListBuckets = db_rows (\<lambda>s. map (\<lambda>(n, r). scan_bucket n r) (sort_key fst (sq_buckets s)))"

text \<open>A row that objects or uploads refer to cannot be deleted: the statement fails.\<close>

definition referenced :: "gostring \<Rightarrow> sq_world \<Rightarrow> bool" where
  "referenced name s \<longleftrightarrow>
     (\<exists>((b, k), r) \<in> set (sq_objects s). b = name) \<or> (\<exists>(i, r) \<in> set (sq_uploads s). ur_bucket r = name)"

definition sq_DeleteBucket :: "gostring \<Rightarrow> sq_world \<Rightarrow> (store_err + unit) \<times> sq_world" where
  "sq_DeleteBucket name = db_call (\<lambda>s.
     if map_of (sq_buckets s) name = None then (Inl ErrNotFound, s)
     else if referenced name s then (Inl ErrOther, s)
     else (Inr (), s\<lparr>sq_buckets := map_del (sq_buckets s) name\<rparr>))"

definition sq_UpdateBucket :: "bucket \<Rightarrow> sq_world \<Rightarrow> (store_err + unit) \<times> sq_world" where
  "sq_UpdateBucket b = db_call (\<lambda>s.
     case map_of (sq_buckets s) (b_Name b) of
       None \<Rightarrow> (Inl ErrNotFound, s)
     | Some r \<Rightarrow> (Inr (), s\<lparr>sq_buckets := map_put (sq_buckets s) (b_Name b) (r\<lparr>br_public := b_Public b\<rparr>)\<rparr>))"

section \<open>objects\<close>

definition scan_object :: "gostring \<Rightarrow> gostring \<Rightarrow> object_row \<Rightarrow> object" where
  "scan_object b k r =
     \<lparr>o_Bucket = b, o_Key = k, o_BlobID = or_blob_id r, o_Size = or_size r,
      o_ContentType = or_content_type r, o_Checksum = or_checksum r,
      o_Metadata = or_metadata r, o_CreatedAt = time_Unix (or_created r)\<rparr>"

definition object_values :: "object \<Rightarrow> object_row" where
  "object_values ob =
     \<lparr>or_blob_id = o_BlobID ob, or_size = o_Size ob, or_content_type = o_ContentType ob,
      or_checksum = o_Checksum ob, or_metadata = json_map (o_Metadata ob),
      or_created = Unix (o_CreatedAt ob)\<rparr>"

definition putObjectTx :: "object \<Rightarrow> sq_world \<Rightarrow> (store_err + gostring) \<times> sq_world" where
  "putObjectTx ob s0 =
     (case db_call (\<lambda>s. (Inr (case map_of (sq_objects s) (o_Bucket ob, o_Key ob) of
                              None \<Rightarrow> [] | Some r \<Rightarrow> or_blob_id r), s)) s0 of
        (Inl e, s1) \<Rightarrow> (Inl e, s1)
      | (Inr prev, s1) \<Rightarrow>
          db_call (\<lambda>s.
            if map_of (sq_objects s) (o_Bucket ob, o_Key ob) = None \<and> map_of (sq_buckets s) (o_Bucket ob) = None
            then (Inl ErrOther, s)
            else (Inr prev, s\<lparr>sq_objects := map_put (sq_objects s) (o_Bucket ob, o_Key ob) (object_values ob)\<rparr>)) s1)"

definition sq_PutObject :: "object \<Rightarrow> sq_world \<Rightarrow> (store_err + gostring) \<times> sq_world" where
  "sq_PutObject ob = db_tx ErrOther (putObjectTx ob)"

definition sq_GetObject :: "gostring \<Rightarrow> gostring \<Rightarrow> sq_world \<Rightarrow> (store_err + object) \<times> sq_world" where
  "sq_GetObject b k = db_call (\<lambda>s.
     case map_of (sq_objects s) (b, k) of
       None \<Rightarrow> (Inl ErrNotFound, s) | Some r \<Rightarrow> (Inr (scan_object b k r), s))"

definition sq_DeleteObject :: "gostring \<Rightarrow> gostring \<Rightarrow> sq_world \<Rightarrow> (store_err + gostring) \<times> sq_world" where
  "sq_DeleteObject b k = db_tx ErrOther (\<lambda>s0.
     case db_call (\<lambda>s. case map_of (sq_objects s) (b, k) of
            None \<Rightarrow> (Inl ErrNotFound, s) | Some r \<Rightarrow> (Inr (or_blob_id r), s)) s0 of
       (Inl e, s1) \<Rightarrow> (Inl e, s1)
     | (Inr blob, s1) \<Rightarrow>
         db_call (\<lambda>s. if map_of (sq_objects s) (b, k) = None then (Inl ErrNotFound, s)
                      else (Inr blob, s\<lparr>sq_objects := map_del (sq_objects s) (b, k)\<rparr>)) s1)"

text \<open>\<open>substr(key, 1, n)\<close>: the first \<open>n\<close> characters of the text.\<close>

definition sql_substr1 :: "gostring \<Rightarrow> nat \<Rightarrow> gostring" where
  "sql_substr1 t n = concat (take n (runes t))"

definition sql_limit :: "int \<Rightarrow> 'a list \<Rightarrow> 'a list" where
  "sql_limit n xs = (if n < 0 then xs else take (nat n) xs)"

definition sq_ListObjects ::
  "gostring \<Rightarrow> gostring \<Rightarrow> gostring \<Rightarrow> int \<Rightarrow> sq_world \<Rightarrow> (store_err + object list) \<times> sq_world" where
  "sq_ListObjects b pre aft limit = db_rows (\<lambda>s.
     map (\<lambda>((bucket, key), r). scan_object b key r)
       (sql_limit limit
         (sort_key (snd \<circ> fst)
           (filter (\<lambda>((bucket, key), r). bucket = b \<and> pre \<le> key \<and>
              sql_substr1 key (length pre) = pre \<and> aft < key) (sq_objects s)))))"

section \<open>uploads\<close>

definition scan_upload :: "gostring \<Rightarrow> upload_row \<Rightarrow> upload_session" where
  "scan_upload i r =
     \<lparr>u_ID = i, u_Bucket = ur_bucket r, u_Key = ur_key r, u_BlobID = ur_blob_id r,
      u_PartSize = ur_part_size r, u_ContentType = ur_content_type r, u_Metadata = ur_metadata r,
      u_Parts = ur_parts r, u_CreatedAt = time_Unix (ur_created r),
      u_ExpiresAt = time_Unix (ur_expires r)\<rparr>"

definition upload_values :: "upload_session \<Rightarrow> upload_row" where
  "upload_values se =
     \<lparr>ur_bucket = u_Bucket se, ur_key = u_Key se, ur_blob_id = u_BlobID se,
      ur_part_size = u_PartSize se, ur_content_type = u_ContentType se,
      ur_metadata = json_map (u_Metadata se), ur_parts = u_Parts se,
      ur_created = Unix (u_CreatedAt se), ur_expires = Unix (u_ExpiresAt se)\<rparr>"

definition sq_CreateUpload :: "upload_session \<Rightarrow> sq_world \<Rightarrow> (store_err + unit) \<times> sq_world" where
  "sq_CreateUpload se = db_call (\<lambda>s.
     if map_of (sq_uploads s) (u_ID se) \<noteq> None then (Inl ErrConflict, s)
     else if map_of (sq_buckets s) (u_Bucket se) = None then (Inl ErrOther, s)
     else (Inr (), s\<lparr>sq_uploads := map_put (sq_uploads s) (u_ID se) (upload_values se)\<rparr>))"

definition sq_GetUpload :: "gostring \<Rightarrow> sq_world \<Rightarrow> (store_err + upload_session) \<times> sq_world" where
  "sq_GetUpload i = db_call (\<lambda>s.
     case map_of (sq_uploads s) i of
       None \<Rightarrow> (Inl ErrNotFound, s) | Some r \<Rightarrow> (Inr (scan_upload i r), s))"

text \<open>\<open>json_set\<close> replaces the entry of the part number or adds it.\<close>

definition sq_PutPart :: "gostring \<Rightarrow> int \<Rightarrow> part \<Rightarrow> sq_world \<Rightarrow> (store_err + unit) \<times> sq_world" where
  "sq_PutPart i n p = db_call (\<lambda>s.
     case map_of (sq_uploads s) i of
       None \<Rightarrow> (Inl ErrNotFound, s)
     | Some r \<Rightarrow> (Inr (), s\<lparr>sq_uploads := map_put (sq_uploads s) i (r\<lparr>ur_parts := map_put (ur_parts r) n p\<rparr>)\<rparr>))"

definition sq_CompleteUpload :: "gostring \<Rightarrow> object \<Rightarrow> sq_world \<Rightarrow> (store_err + gostring) \<times> sq_world" where
  "sq_CompleteUpload i ob = db_tx ErrOther (\<lambda>s0.
     case db_call (\<lambda>s. if map_of (sq_uploads s) i = None then (Inl ErrNotFound, s) else (Inr (), s)) s0 of
       (Inl e, s1) \<Rightarrow> (Inl e, s1)
     | (Inr _, s1) \<Rightarrow>
         (case putObjectTx ob s1 of
            (Inl e, s2) \<Rightarrow> (Inl e, s2)
          | (Inr prev, s2) \<Rightarrow>
              db_call (\<lambda>s. (Inr prev, s\<lparr>sq_uploads := map_del (sq_uploads s) i\<rparr>)) s2))"

text \<open>
  \<open>DeleteUpload\<close> defers \<open>tx.Rollback()\<close> before it looks at the error of \<open>BeginTx\<close>: when that
  fails the transaction is nil and the deferred call panics.
\<close>

definition sq_DeleteUpload :: "gostring \<Rightarrow> sq_world \<Rightarrow> (store_err + upload_session) \<times> sq_world" where
  "sq_DeleteUpload i = db_tx ErrPanic (\<lambda>s0.
     case db_call (\<lambda>s. case map_of (sq_uploads s) i of
            None \<Rightarrow> (Inl ErrNotFound, s) | Some r \<Rightarrow> (Inr (scan_upload i r), s)) s0 of
       (Inl e, s1) \<Rightarrow> (Inl e, s1)
     | (Inr se, s1) \<Rightarrow> db_call (\<lambda>s. (Inr se, s\<lparr>sq_uploads := map_del (sq_uploads s) i\<rparr>)) s1)"

definition sq_CountUploads :: "gostring \<Rightarrow> sq_world \<Rightarrow> (store_err + nat) \<times> sq_world" where
  "sq_CountUploads b = db_call (\<lambda>s. (Inr (length (filter (\<lambda>(i, r). ur_bucket r = b) (sq_uploads s))), s))"

section \<open>The store interfaces\<close>

definition sq_key_store :: "sq_world key_store" where
  "sq_key_store =
     \<lparr>ks_GetKey = sq_GetKey, ks_CreateKey = sq_CreateKey, ks_UpdateKey = sq_UpdateKey,
      ks_DeleteKey = sq_DeleteKey, ks_ListKeys = sq_ListKeys\<rparr>"

definition sq_bucket_store :: "sq_world bucket_store" where
  "sq_bucket_store =
     \<lparr>bs_CreateBucket = sq_CreateBucket, bs_GetBucket = sq_GetBucket, bs_ListBuckets = sq_ListBuckets,
      bs_DeleteBucket = sq_DeleteBucket, bs_UpdateBucket = sq_UpdateBucket\<rparr>"

definition sq_object_store :: "sq_world object_store" where
  "sq_object_store =
     \<lparr>os_PutObject = sq_PutObject, os_GetObject = sq_GetObject,
      os_DeleteObject = sq_DeleteObject, os_ListObjects = sq_ListObjects\<rparr>"

definition sq_upload_store :: "sq_world upload_store" where
  "sq_upload_store =
     \<lparr>us_CreateUpload = sq_CreateUpload, us_GetUpload = sq_GetUpload, us_PutPart = sq_PutPart,
      us_CompleteUpload = sq_CompleteUpload, us_DeleteUpload = sq_DeleteUpload,
      us_CountUploads = sq_CountUploads\<rparr>"

section \<open>Invariant and view\<close>

text \<open>Primary keys are unique and every object and upload belongs to a bucket (foreign keys).\<close>

definition sq_inv :: "sq_world \<Rightarrow> bool" where
  "sq_inv s \<longleftrightarrow>
     is_map (sq_keys s) \<and> is_map (sq_buckets s) \<and> is_map (sq_objects s) \<and> is_map (sq_uploads s) \<and>
     (\<forall>b k. map_of (sq_objects s) (b, k) \<noteq> None \<longrightarrow> map_of (sq_buckets s) b \<noteq> None) \<and>
     (\<forall>i r. map_of (sq_uploads s) i = Some r \<longrightarrow> map_of (sq_buckets s) (ur_bucket r) \<noteq> None)"

definition sq_view :: "sq_world \<Rightarrow> view" where
  "sq_view s =
     \<lparr>v_keys = (\<lambda>i. map_option (scan_key i) (map_of (sq_keys s) i)),
      v_buckets = (\<lambda>n. map_option (scan_bucket n) (map_of (sq_buckets s) n)),
      v_objects = (\<lambda>(b, k). map_option (scan_object b k) (map_of (sq_objects s) (b, k))),
      v_uploads = (\<lambda>i. map_option (scan_upload i) (map_of (sq_uploads s) i)),
      v_blobs = blobs_of (dk_files s)\<rparr>"

text \<open>What a row keeps of a value: whole seconds, and strings as JSON carries them.\<close>

definition key_cell :: "apikey \<Rightarrow> apikey" where
  "key_cell k = k\<lparr>k_Scopes := json_map (k_Scopes k), k_CreatedAt := time_Unix (Unix (k_CreatedAt k))\<rparr>"

definition bucket_cell :: "bucket \<Rightarrow> bucket" where
  "bucket_cell b = b\<lparr>b_CreatedAt := time_Unix (Unix (b_CreatedAt b))\<rparr>"

definition object_cell :: "object \<Rightarrow> object" where
  "object_cell ob = ob\<lparr>o_Metadata := json_map (o_Metadata ob), o_CreatedAt := time_Unix (Unix (o_CreatedAt ob))\<rparr>"

definition upload_cell :: "upload_session \<Rightarrow> upload_session" where
  "upload_cell se = se\<lparr>u_Metadata := json_map (u_Metadata se),
     u_CreatedAt := time_Unix (Unix (u_CreatedAt se)), u_ExpiresAt := time_Unix (Unix (u_ExpiresAt se))\<rparr>"

lemma scan_key_values: "scan_key (k_ID k) (key_values k created) =
    k\<lparr>k_Scopes := json_map (k_Scopes k), k_CreatedAt := time_Unix created\<rparr>"
  by (simp add: scan_key_def key_values_def)

lemma scan_key_ID [simp]: "k_ID (scan_key i r) = i" "k_CreatedAt (scan_key i r) = time_Unix (kr_created r)"
  by (simp_all add: scan_key_def)

lemma scan_bucket_Name [simp]: "b_Name (scan_bucket n r) = n"
  by (simp add: scan_bucket_def)

lemma scan_object_fields [simp]: "o_Bucket (scan_object b k r) = b" "o_Key (scan_object b k r) = k"
  "o_BlobID (scan_object b k r) = or_blob_id r"
  by (simp_all add: scan_object_def)

lemma scan_object_values: "scan_object (o_Bucket ob) (o_Key ob) (object_values ob) = object_cell ob"
  by (simp add: scan_object_def object_values_def object_cell_def)

lemma scan_upload_fields [simp]: "u_ID (scan_upload i r) = i" "u_Bucket (scan_upload i r) = ur_bucket r"
  by (simp_all add: scan_upload_def)

lemma scan_upload_values: "scan_upload (u_ID se) (upload_values se) = upload_cell se"
  by (simp add: scan_upload_def upload_values_def upload_cell_def)

lemma db_pop_fields [simp]: "sq_keys (db_pop s) = sq_keys s" "sq_buckets (db_pop s) = sq_buckets s"
  "sq_objects (db_pop s) = sq_objects s" "sq_uploads (db_pop s) = sq_uploads s"
  "dk_files (db_pop s) = dk_files s"
  by (simp_all add: db_pop_def)

lemma rollback_fields [simp]: "sq_keys (rollback s s') = sq_keys s" "sq_buckets (rollback s s') = sq_buckets s"
  "sq_objects (rollback s s') = sq_objects s" "sq_uploads (rollback s s') = sq_uploads s"
  "dk_files (rollback s s') = dk_files s"
  by (simp_all add: rollback_def)

lemma sq_same [simp]: "sq_view (db_pop s) = sq_view s" "sq_inv (db_pop s) = sq_inv s"
  "sq_view (rollback s s') = sq_view s" "sq_inv (rollback s s') = sq_inv s"
  by (simp_all add: sq_view_def sq_inv_def)

lemma db_callD: "db_call f s = (r, s') \<Longrightarrow> (r = Inl ErrOther \<and> s' = db_pop s) \<or> f (db_pop s) = (r, s')"
  by (cases "sq_faults s \<noteq> [] \<and> hd (sq_faults s)") (simp_all add: db_call_def)

lemma db_callE:
  assumes "db_call f s = (r, s')"
  obtains "r = Inl ErrOther" "s' = db_pop s" | "f (db_pop s) = (r, s')"
  using db_callD [OF assms] by blast

lemma db_rowsE:
  assumes "db_rows f s = (r, s')" "\<And>s. f (db_pop s) = f s"
  obtains "sq_view s' = sq_view s" "sq_inv s' = sq_inv s" "r = Inl ErrOther \<or> r = Inr (f s)"
  using assms by (auto simp: db_rows_def elim!: db_callE)

text \<open>A transaction fails with the tables as they were, or its body ran to the end.\<close>

lemma db_txE:
  assumes "db_tx be body s = (r, s')"
  obtains (Failed) e where "r = Inl e" "sq_view s' = sq_view s" "sq_inv s' = sq_inv s"
      "e = be \<or> e = ErrOther \<or> (\<exists>s1. body (db_pop s) = (Inl e, s1))"
  | (Committed) x s1 where "r = Inr x" "body (db_pop s) = (Inr x, s1)" "s' = db_pop s1"
proof (cases "sq_faults s \<noteq> [] \<and> hd (sq_faults s)")
  case True
  with assms Failed show ?thesis by (auto simp: db_tx_def)
next
  case False
  obtain r1 s1 where b: "body (db_pop s) = (r1, s1)" by (cases "body (db_pop s)")
  show ?thesis
  proof (cases r1)
    case (Inl e)
    with assms b False Failed show ?thesis by (auto simp: db_tx_def)
  next
    case (Inr x)
    show ?thesis
    proof (cases "sq_faults s1 \<noteq> [] \<and> hd (sq_faults s1)")
      case True
      with Inr assms b False have "r = Inl ErrOther" "s' = rollback s (db_pop s1)"
        by (auto simp: db_tx_def db_commit_def db_call_def)
      with Failed show ?thesis by simp
    next
      case commits: False
      have "db_commit x s1 = (Inr x, db_pop s1)"
        using commits by (simp add: db_commit_def db_call_def del: de_Morgan_conj)
      with Inr assms b False have "r = Inr x" "s' = db_pop s1"
        by (simp_all add: db_tx_def)
      with Inr b Committed show ?thesis by simp
    qed
  qed
qed

lemma putObjectTxE:
  assumes "putObjectTx ob s = (r, s')"
  obtains (Failed) "r = Inl ErrOther"
  | (Put) "r = Inr (blob_previous (sq_view s) ob)"
    "map_of (sq_objects s) (o_Bucket ob, o_Key ob) \<noteq> None \<or> map_of (sq_buckets s) (o_Bucket ob) \<noteq> None"
    "s' = (db_pop (db_pop s))\<lparr>sq_objects := map_put (sq_objects s) (o_Bucket ob, o_Key ob) (object_values ob)\<rparr>"
proof -
  let ?q = "\<lambda>s. (Inr (case map_of (sq_objects s) (o_Bucket ob, o_Key ob) of
      None \<Rightarrow> [] | Some r \<Rightarrow> or_blob_id r), s) :: (store_err + gostring) \<times> sq_world"
  have prev: "blob_previous (sq_view s) ob =
      (case map_of (sq_objects s) (o_Bucket ob, o_Key ob) of None \<Rightarrow> [] | Some r \<Rightarrow> or_blob_id r)"
    by (simp add: blob_previous_def sq_view_def split: option.split)
  obtain r1 s1 where q: "db_call ?q s = (r1, s1)" by (cases "db_call ?q s")
  from q show ?thesis
  proof (cases rule: db_callE)
    case 1
    with q assms Failed show ?thesis by (simp add: putObjectTx_def)
  next
    case 2
    then have r1: "r1 = Inr (blob_previous (sq_view s) ob)" "s1 = db_pop s"
      by (simp_all add: prev)
    show ?thesis
    proof (cases "map_of (sq_objects s) (o_Bucket ob, o_Key ob) = None \<and> map_of (sq_buckets s) (o_Bucket ob) = None")
      case True
      with assms q r1 have "r = Inl ErrOther"
        by (auto simp: putObjectTx_def elim!: db_callE)
      with Failed show ?thesis by blast
    next
      case False
      let ?s' = "(db_pop (db_pop s))\<lparr>sq_objects := map_put (sq_objects s) (o_Bucket ob, o_Key ob) (object_values ob)\<rparr>"
      from assms q r1 False have "r = Inl ErrOther \<or> r = Inr (blob_previous (sq_view s) ob) \<and> s' = ?s'"
        by (auto simp: putObjectTx_def elim!: db_callE)
      with False Failed Put show ?thesis by blast
    qed
  qed
qed

lemma db_rowsD:
  assumes "db_rows f s = (r, s')"
  shows "sq_view s' = sq_view s \<and> sq_inv s' = sq_inv s \<and> (r = Inl ErrOther \<or> r = Inr (f (db_pop (db_pop s))))"
  using assms by (auto simp: db_rows_def elim!: db_callE)

lemma sort_rows:
  assumes "is_map m"
  shows "sorted (map fst (sort_key fst m))" "distinct (map fst (sort_key fst m))"
    "(i, r) \<in> set (sort_key fst m) \<longleftrightarrow> map_of m i = Some r"
proof -
  show "sorted (map fst (sort_key fst m))" by simp
  show "distinct (map fst (sort_key fst m))"
    by (simp only: map_sort_key_distinct [OF assms] distinct_sorted_list_of_set)
  show "(i, r) \<in> set (sort_key fst m) \<longleftrightarrow> map_of m i = Some r"
    using assms by (simp add: map_of_eq_Some_iff)
qed

text \<open>A table read in key order is a listing of its view.\<close>

lemma scan_rows:
  fixes m :: "('k :: linorder, 'r) gomap"
  assumes "is_map m" "\<And>i r. f (scan i r) = i"
  defines "l \<equiv> map (\<lambda>(i, r). scan i r) (sort_key fst m)"
  shows "sorted (map f l)" "distinct (map f l)"
    "x \<in> set l \<longleftrightarrow> map_option (scan (f x)) (map_of m (f x)) = Some x"
proof -
  have "map f l = map fst (sort_key fst m)"
    using assms(2) by (auto simp: l_def)
  with sort_rows(1,2) [OF assms(1)] show "sorted (map f l)" "distinct (map f l)"
    by (simp_all only:)
  show "x \<in> set l \<longleftrightarrow> map_option (scan (f x)) (map_of m (f x)) = Some x"
    using sort_rows(3) [OF assms(1)] assms(2) by (force simp: l_def)
qed

lemma sq_inv_maps:
  assumes "sq_inv s"
  shows "is_map (sq_keys s)" "is_map (sq_buckets s)" "is_map (sq_objects s)" "is_map (sq_uploads s)"
  using assms by (simp_all add: sq_inv_def)

lemma sq_inv_keys: "sq_inv s \<Longrightarrow> is_map m \<Longrightarrow> sq_inv (s\<lparr>sq_keys := m\<rparr>)"
  by (simp add: sq_inv_def)

lemma scan_key_update: "scan_key (k_ID k) (key_values k (kr_created r)) =
    key_cell (k\<lparr>k_CreatedAt := k_CreatedAt (scan_key (k_ID k) r)\<rparr>)"
  by (simp add: scan_key_values key_cell_def)

lemma scan_key_new: "scan_key (k_ID k) (key_values k (Unix (k_CreatedAt k))) = key_cell k"
  by (simp add: scan_key_values key_cell_def)

lemma sq_view_keys_put: "sq_view (s\<lparr>sq_keys := map_put (sq_keys s) i r\<rparr>) =
    (sq_view s)\<lparr>v_keys := (v_keys (sq_view s))(i \<mapsto> scan_key i r)\<rparr>"
  by (simp add: sq_view_def fun_eq_iff)

lemma sq_view_keys_del: "sq_view (s\<lparr>sq_keys := map_del (sq_keys s) i\<rparr>) =
    (sq_view s)\<lparr>v_keys := (v_keys (sq_view s))(i := None)\<rparr>"
  by (simp add: sq_view_def fun_eq_iff)

lemma sq_view_pop_update [simp]:
  "sq_view ((db_pop s)\<lparr>sq_keys := ks\<rparr>) = sq_view (s\<lparr>sq_keys := ks\<rparr>)"
  "sq_view ((db_pop s)\<lparr>sq_buckets := bs\<rparr>) = sq_view (s\<lparr>sq_buckets := bs\<rparr>)"
  "sq_view ((db_pop s)\<lparr>sq_objects := os\<rparr>) = sq_view (s\<lparr>sq_objects := os\<rparr>)"
  "sq_view ((db_pop s)\<lparr>sq_uploads := us\<rparr>) = sq_view (s\<lparr>sq_uploads := us\<rparr>)"
  by (simp_all add: sq_view_def)

lemma sq_inv_pop_update [simp]:
  "sq_inv ((db_pop s)\<lparr>sq_keys := ks\<rparr>) = sq_inv (s\<lparr>sq_keys := ks\<rparr>)"
  "sq_inv ((db_pop s)\<lparr>sq_buckets := bs\<rparr>) = sq_inv (s\<lparr>sq_buckets := bs\<rparr>)"
  "sq_inv ((db_pop s)\<lparr>sq_objects := os\<rparr>) = sq_inv (s\<lparr>sq_objects := os\<rparr>)"
  "sq_inv ((db_pop s)\<lparr>sq_uploads := us\<rparr>) = sq_inv (s\<lparr>sq_uploads := us\<rparr>)"
  by (simp_all add: sq_inv_def)

lemma sq_view_key: "v_keys (sq_view s) i = map_option (scan_key i) (map_of (sq_keys s) i)"
  by (simp add: sq_view_def)

lemma sq_view_bucket: "v_buckets (sq_view s) n = map_option (scan_bucket n) (map_of (sq_buckets s) n)"
  by (simp add: sq_view_def)

lemma sq_view_object: "v_objects (sq_view s) (b, k) = map_option (scan_object b k) (map_of (sq_objects s) (b, k))"
  by (simp add: sq_view_def)

lemma sq_view_upload: "v_uploads (sq_view s) i = map_option (scan_upload i) (map_of (sq_uploads s) i)"
  by (simp add: sq_view_def)

section \<open>The key contract\<close>

interpretation sq_keys: key_store_laws sq_key_store sq_view sq_inv key_cell
proof (unfold_locales, goal_cases)
  case (1 s i s' r)
  then show ?case
    by (auto simp: sq_key_store_def sq_GetKey_def sq_view_key elim!: db_callE split: option.splits)
next
  case (2 s k s' r)
  then show ?case
    by (auto simp: sq_key_store_def sq_CreateKey_def sq_view_key sq_view_keys_put sq_inv_keys
        sq_inv_maps scan_key_new elim!: db_callE split: if_splits)
next
  case (3 s k s' r)
  then show ?case
    by (auto simp: sq_key_store_def sq_UpdateKey_def sq_view_key sq_view_keys_put sq_inv_keys
        sq_inv_maps scan_key_update elim!: db_callE split: option.splits)
next
  case (4 s i s' r)
  then show ?case
    by (auto simp: sq_key_store_def sq_DeleteKey_def sq_view_key sq_view_keys_del sq_inv_keys
        sq_inv_maps elim!: db_callE split: if_splits)
next
  case (5 s s' r)
  have m: "is_map (sq_keys s)" by (rule sq_inv_maps(1) [OF 5(1)])
  have "r = Inl ErrOther \<or> r = Inr (map (\<lambda>(i, r). scan_key i r) (sort_key fst (sq_keys s)))" "sq_view s' = sq_view s" "sq_inv s'"
    using db_rowsD [OF 5(2) [unfolded sq_key_store_def sq_ListKeys_def, simplified]] 5(1) by auto
  with scan_rows [OF m, of k_ID scan_key] show ?case
    by (auto simp: sq_view_key)
qed

section \<open>The bucket contract\<close>

lemma sq_view_buckets_put: "sq_view (s\<lparr>sq_buckets := map_put (sq_buckets s) n r\<rparr>) =
    (sq_view s)\<lparr>v_buckets := (v_buckets (sq_view s))(n \<mapsto> scan_bucket n r)\<rparr>"
  by (simp add: sq_view_def fun_eq_iff)

lemma sq_view_buckets_del: "sq_view (s\<lparr>sq_buckets := map_del (sq_buckets s) n\<rparr>) =
    (sq_view s)\<lparr>v_buckets := (v_buckets (sq_view s))(n := None)\<rparr>"
  by (simp add: sq_view_def fun_eq_iff)

lemma sq_inv_buckets_put: "sq_inv s \<Longrightarrow> sq_inv (s\<lparr>sq_buckets := map_put (sq_buckets s) n r\<rparr>)"
  by (simp add: sq_inv_def)

lemma not_referenced:
  assumes "is_map (sq_objects s)" "is_map (sq_uploads s)" "\<not> referenced n s"
  shows "map_of (sq_objects s) (n, k) = None" "map_of (sq_uploads s) i = Some r \<Longrightarrow> ur_bucket r \<noteq> n"
proof -
  show "map_of (sq_objects s) (n, k) = None"
    using assms(3) by (cases "map_of (sq_objects s) (n, k)") (auto simp: referenced_def dest: map_of_SomeD)
  show "map_of (sq_uploads s) i = Some r \<Longrightarrow> ur_bucket r \<noteq> n"
    using assms(3) by (auto simp: referenced_def dest: map_of_SomeD)
qed

lemma sq_inv_buckets_del:
  assumes "sq_inv s" "\<not> referenced n s"
  shows "sq_inv (s\<lparr>sq_buckets := map_del (sq_buckets s) n\<rparr>)"
  using assms(1) not_referenced [OF sq_inv_maps(3,4) [OF assms(1)] assms(2)]
  by (auto simp: sq_inv_def)

lemma scan_bucket_new: "scan_bucket (b_Name b) \<lparr>br_public = b_Public b, br_created = Unix (b_CreatedAt b)\<rparr> = bucket_cell b"
  by (simp add: scan_bucket_def bucket_cell_def)

lemma scan_bucket_update: "scan_bucket n (r\<lparr>br_public := p\<rparr>) = (scan_bucket n r)\<lparr>b_Public := p\<rparr>"
  by (simp add: scan_bucket_def)

interpretation sq_buckets: bucket_store_laws sq_bucket_store sq_view sq_inv bucket_cell
proof (unfold_locales, goal_cases)
  case (1 s b s' r)
  then show ?case
    by (auto simp: sq_bucket_store_def sq_CreateBucket_def sq_view_bucket sq_view_buckets_put
        sq_inv_buckets_put scan_bucket_new elim!: db_callE split: if_splits)
next
  case (2 s n s' r)
  then show ?case
    by (auto simp: sq_bucket_store_def sq_GetBucket_def sq_view_bucket elim!: db_callE split: option.splits)
next
  case (3 s s' r)
  have m: "is_map (sq_buckets s)" by (rule sq_inv_maps(2) [OF 3(1)])
  have "r = Inl ErrOther \<or> r = Inr (map (\<lambda>(i, r). scan_bucket i r) (sort_key fst (sq_buckets s)))" "sq_view s' = sq_view s" "sq_inv s'"
    using db_rowsD [OF 3(2) [unfolded sq_bucket_store_def sq_ListBuckets_def, simplified]] 3(1) by auto
  with scan_rows [OF m, of b_Name scan_bucket] show ?case
    by (auto simp: sq_view_bucket)
next
  case (4 s n s' r)
  then show ?case
    by (auto simp: sq_bucket_store_def sq_DeleteBucket_def sq_view_bucket sq_view_buckets_del
        sq_inv_buckets_del referenced_def elim!: db_callE split: if_splits)
next
  case (5 s b s' r)
  then show ?case
    by (auto simp: sq_bucket_store_def sq_UpdateBucket_def sq_view_bucket sq_view_buckets_put
        sq_inv_buckets_put scan_bucket_update elim!: db_callE split: option.splits)
qed

section \<open>The object contract\<close>

lemma sq_view_objects_put: "sq_view (s\<lparr>sq_objects := map_put (sq_objects s) (b, k) r\<rparr>) =
    (sq_view s)\<lparr>v_objects := (v_objects (sq_view s))((b, k) \<mapsto> scan_object b k r)\<rparr>"
  by (simp add: sq_view_def fun_eq_iff)

lemma sq_view_objects_del: "sq_view (s\<lparr>sq_objects := map_del (sq_objects s) (b, k)\<rparr>) =
    (sq_view s)\<lparr>v_objects := (v_objects (sq_view s))((b, k) := None)\<rparr>"
  by (simp add: sq_view_def fun_eq_iff)

lemma sq_inv_objects_put:
  assumes "sq_inv s" "map_of (sq_objects s) (b, k) \<noteq> None \<or> map_of (sq_buckets s) b \<noteq> None"
  shows "sq_inv (s\<lparr>sq_objects := map_put (sq_objects s) (b, k) r\<rparr>)"
  using assms by (auto simp: sq_inv_def)

lemma sq_inv_objects_del: "sq_inv s \<Longrightarrow> sq_inv (s\<lparr>sq_objects := map_del (sq_objects s) p\<rparr>)"
  by (auto simp: sq_inv_def)

lemma putObjectTx_laws:
  assumes "putObjectTx ob s = (r, s')" "sq_inv s"
  shows "r = Inl ErrOther \<or>
    (r = Inr (blob_previous (sq_view s) ob) \<and> sq_inv s' \<and> sq_uploads s' = sq_uploads s \<and>
     sq_view s' = (sq_view s)\<lparr>v_objects := (v_objects (sq_view s))((o_Bucket ob, o_Key ob) \<mapsto> object_cell ob)\<rparr>)"
  using assms(1)
proof (cases rule: putObjectTxE)
  case Put
  with assms(2) show ?thesis
    by (simp add: sq_view_objects_put sq_inv_objects_put scan_object_values)
qed simp

lemma runes_take_ascii:
  assumes "is_ascii pre"
  shows "sql_substr1 t (length pre) = pre \<longleftrightarrow> prefix pre t"
proof
  assume "sql_substr1 t (length pre) = pre"
  moreover have "prefix (sql_substr1 t (length pre)) (concat (runes t))"
    unfolding sql_substr1_def by (metis append_take_drop_id concat_append prefixI)
  ultimately show "prefix pre t" by (simp add: concat_runes)
next
  have runes_append: "runes (p @ u) = map (\<lambda>c. [c]) p @ runes u" if "is_ascii p" for p u
    using that by (induction p) (auto simp: rune_width_ascii)
  assume "prefix pre t"
  then obtain u where "t = pre @ u" by (auto simp: prefix_def)
  then show "sql_substr1 t (length pre) = pre"
    by (simp add: sql_substr1_def runes_append [OF assms])
qed

lemma prefix_le: "prefix pre (t :: gostring) \<Longrightarrow> pre \<le> t"
proof -
  assume "prefix pre t"
  then obtain u where "t = pre @ u" by (auto simp: prefix_def)
  then show ?thesis by (induction pre arbitrary: t) (auto simp: less_le)
qed

lemma sq_listing:
  assumes "sq_inv s" "is_ascii pre" "0 < limit"
  shows "is_listing (sq_view s) b pre aft (nat limit)
    (map (\<lambda>((bucket, key), r). scan_object b key r)
       (sql_limit limit
         (sort_key (snd \<circ> fst)
           (filter (\<lambda>((bucket, key), r). bucket = b \<and> pre \<le> key \<and>
              sql_substr1 key (length pre) = pre \<and> aft < key) (sq_objects s)))))"
proof -
  let ?f = "filter (\<lambda>((bucket, key), r). bucket = b \<and> pre \<le> key \<and>
              sql_substr1 key (length pre) = pre \<and> aft < key) (sq_objects s)"
  let ?K = "listing_keys (sq_view s) b pre aft"
  have m: "is_map (sq_objects s)" by (rule sq_inv_maps(3) [OF assms(1)])
  have mem: "((b', k), r) \<in> set ?f \<longleftrightarrow> b' = b \<and> map_of (sq_objects s) (b, k) = Some r \<and> prefix pre k \<and> aft < k"
    for b' k r
    using map_of_eq_Some_iff [OF m] runes_take_ascii [OF assms(2), of k] prefix_le by auto
  have K: "(snd \<circ> fst) ` set ?f = ?K"
  proof (intro set_eqI iffI)
    fix k assume "k \<in> (snd \<circ> fst) ` set ?f"
    then obtain b' r where "((b', k), r) \<in> set ?f" by force
    then show "k \<in> ?K" unfolding mem by (simp add: listing_keys_def sq_view_object)
  next
    fix k assume "k \<in> ?K"
    then obtain r where "map_of (sq_objects s) (b, k) = Some r" "prefix pre k" "aft < k"
      by (auto simp: listing_keys_def sq_view_object)
    then have "((b, k), r) \<in> set ?f" unfolding mem by simp
    then show "k \<in> (snd \<circ> fst) ` set ?f" by force
  qed
  have "inj_on (snd \<circ> fst) (set ?f)"
  proof (rule inj_onI)
    fix x y assume "x \<in> set ?f" "y \<in> set ?f" "(snd \<circ> fst) x = (snd \<circ> fst) y"
    moreover obtain b1 k1 r1 b2 k2 r2 where "x = ((b1, k1), r1)" "y = ((b2, k2), r2)"
      by (metis prod.collapse)
    ultimately show "x = y" by (simp only: mem) simp
  qed
  moreover have "distinct ?f"
    using m by (simp add: distinct_map)
  ultimately have "distinct (map (snd \<circ> fst) ?f)"
    by (simp add: distinct_map)
  from map_sort_key_distinct [OF this] K
  have keys: "map (snd \<circ> fst) (sort_key (snd \<circ> fst) ?f) = sorted_list_of_set ?K"
    by (simp only:)
  let ?l = "map (\<lambda>((bucket, key), r). scan_object b key r) (sql_limit limit (sort_key (snd \<circ> fst) ?f))"
  have "finite ((snd \<circ> fst) ` set ?f)" by simp
  then have "finite ?K" by (simp only: K)
  moreover have "map o_Key ?l = map (snd \<circ> fst) (sql_limit limit (sort_key (snd \<circ> fst) ?f))"
    by auto
  then have "map o_Key ?l = take (nat limit) (sorted_list_of_set ?K)"
    using assms(3) by (simp only: sql_limit_def take_map [symmetric] keys) (simp add: take_map [symmetric] keys)
  moreover have "\<forall>ob \<in> set ?l. v_objects (sq_view s) (b, o_Key ob) = Some ob"
  proof
    fix ob assume "ob \<in> set ?l"
    then obtain b' k r where "((b', k), r) \<in> set ?f" "ob = scan_object b k r"
      using assms(3) by (auto simp: sql_limit_def dest!: in_set_takeD)
    then show "v_objects (sq_view s) (b, o_Key ob) = Some ob"
      unfolding mem by (simp add: sq_view_object)
  qed
  ultimately show ?thesis unfolding is_listing_def by blast
qed

text \<open>The page is the promised one for prefixes in ASCII only: \<open>substr\<close> counts characters.\<close>

interpretation sq_objects: object_store_laws sq_object_store sq_view sq_inv object_cell is_ascii
proof (unfold_locales, goal_cases)
  case (1 s ob s' r)
  from 1(2) have "db_tx ErrOther (putObjectTx ob) s = (r, s')"
    by (simp add: sq_object_store_def sq_PutObject_def)
  then show ?case
  proof (cases rule: db_txE)
    case (Failed e)
    with 1(1) show ?thesis by simp
  next
    case (Committed x s1)
    with putObjectTx_laws [OF Committed(2)] 1(1) show ?thesis by auto
  qed
next
  case (2 s b k s' r)
  then show ?case
    by (auto simp: sq_object_store_def sq_GetObject_def sq_view_object elim!: db_callE split: option.splits)
next
  case (3 s b k s' r)
  from 3(2) have "sq_DeleteObject b k s = (r, s')"
    by (simp add: sq_object_store_def)
  then show ?case unfolding sq_DeleteObject_def
  proof (cases rule: db_txE)
    case (Failed e)
    with 3(1) show ?thesis
      by (auto simp: sq_view_object elim!: db_callE split: sum.splits prod.splits option.splits if_splits)
  next
    case (Committed x s1)
    with 3(1) show ?thesis
      by (auto simp: sq_view_object sq_view_objects_del sq_inv_objects_del elim!: db_callE
          split: sum.splits prod.splits option.splits if_splits)
  qed
next
  case (4 s b pre aft limit s' r)
  from db_rowsD [OF 4(2) [unfolded sq_object_store_def sq_ListObjects_def, simplified]] 4(1)
  show ?case using sq_listing [OF 4(1), of pre limit b aft] by auto
next
  case (5 ob)
  then show ?case by (simp add: object_cell_def)
qed

section \<open>The upload contract\<close>

lemma sq_view_uploads_put: "sq_view (s\<lparr>sq_uploads := map_put (sq_uploads s) i r\<rparr>) =
    (sq_view s)\<lparr>v_uploads := (v_uploads (sq_view s))(i \<mapsto> scan_upload i r)\<rparr>"
  by (simp add: sq_view_def fun_eq_iff)

lemma sq_view_uploads_del: "sq_view (s\<lparr>sq_uploads := map_del (sq_uploads s) i\<rparr>) =
    (sq_view s)\<lparr>v_uploads := (v_uploads (sq_view s))(i := None)\<rparr>"
  by (simp add: sq_view_def fun_eq_iff)

lemma sq_inv_uploads_put:
  assumes "sq_inv s" "map_of (sq_buckets s) (ur_bucket r) \<noteq> None"
  shows "sq_inv (s\<lparr>sq_uploads := map_put (sq_uploads s) i r\<rparr>)"
  using assms by (auto simp: sq_inv_def)

lemma sq_inv_uploads_del: "sq_inv s \<Longrightarrow> sq_inv (s\<lparr>sq_uploads := map_del (sq_uploads s) i\<rparr>)"
  by (auto simp: sq_inv_def)

lemma scan_upload_part: "scan_upload i (r\<lparr>ur_parts := ps\<rparr>) = (scan_upload i r)\<lparr>u_Parts := ps\<rparr>"
  "u_Parts (scan_upload i r) = ur_parts r"
  by (simp_all add: scan_upload_def)

lemma sq_upload_bucket: "sq_inv s \<Longrightarrow> map_of (sq_uploads s) i = Some r \<Longrightarrow> map_of (sq_buckets s) (ur_bucket r) \<noteq> None"
  unfolding sq_inv_def by blast

lemma upload_values_bucket [simp]: "ur_bucket (upload_values se) = u_Bucket se"
  by (simp add: upload_values_def)

lemma map_option_Some_rows: "map_option f x = Some y \<longleftrightarrow> (\<exists>r. x = Some r \<and> y = f r)"
  by auto

interpretation sq_uploads: upload_store_laws sq_upload_store sq_view sq_inv upload_cell object_cell
proof (unfold_locales, goal_cases)
  case (1 s se s' r)
  then show ?case
    by (auto simp: sq_upload_store_def sq_CreateUpload_def sq_view_upload sq_view_uploads_put
        sq_inv_uploads_put scan_upload_values elim!: db_callE split: if_splits)
next
  case (2 s i s' r)
  then show ?case
    by (auto simp: sq_upload_store_def sq_GetUpload_def sq_view_upload elim!: db_callE split: option.splits)
next
  case (3 s i n p s' r)
  then show ?case
    using sq_upload_bucket [OF 3(1), of i]
    by (auto simp: sq_upload_store_def sq_PutPart_def sq_view_upload sq_view_uploads_put
        sq_inv_uploads_put scan_upload_part elim!: db_callE split: option.splits)
next
  case (4 s i ob s' r)
  from 4(2) have "sq_CompleteUpload i ob s = (r, s')"
    by (simp add: sq_upload_store_def)
  then show ?case unfolding sq_CompleteUpload_def
  proof (cases rule: db_txE)
    case (Failed e)
    have "e = ErrNotFound \<Longrightarrow> map_of (sq_uploads s) i = None"
      using Failed(4)
      by (auto elim!: db_callE dest!: putObjectTxE split: sum.splits prod.splits if_splits)
    with Failed 4(1) show ?thesis by (auto simp: sq_view_upload)
  next
    case (Committed x s1)
    let ?check = "db_call (\<lambda>s. if map_of (sq_uploads s) i = None then (Inl ErrNotFound, s) else (Inr (), s))"
    define sa where "sa = db_pop (db_pop s)"
    obtain ru su where check: "?check (db_pop s) = (ru, su)" by (cases "?check (db_pop s)")
    from Committed(2) check have "ru = Inr ()"
      by (cases ru) auto
    with check have up: "map_of (sq_uploads s) i \<noteq> None" and su: "su = sa"
      by (auto simp: sa_def elim!: db_callE split: if_splits)
    from Committed(2) check \<open>ru = Inr ()\<close> su
    have rest: "(case putObjectTx ob sa of (Inl e, s2) \<Rightarrow> (Inl e, s2)
          | (Inr prev, s2) \<Rightarrow> db_call (\<lambda>s. (Inr prev, s\<lparr>sq_uploads := map_del (sq_uploads s) i\<rparr>)) s2) = (Inr x, s1)"
      by simp
    obtain r2 s2 where put: "putObjectTx ob sa = (r2, s2)" by (cases "putObjectTx ob sa")
    with rest obtain prev where prev: "r2 = Inr prev" "x = prev"
      "s1 = (db_pop s2)\<lparr>sq_uploads := map_del (sq_uploads s2) i\<rparr>"
      by (auto elim!: db_callE split: sum.splits)
    from putObjectTx_laws [OF put] prev 4(1)
    have "prev = blob_previous (sq_view s) ob" "sq_inv s2" "sq_uploads s2 = sq_uploads s"
      "sq_view s2 = (sq_view s)\<lparr>v_objects := (v_objects (sq_view s))((o_Bucket ob, o_Key ob) \<mapsto> object_cell ob)\<rparr>"
      by (auto simp: sa_def)
    moreover from calculation(3,4) have "v_uploads (sq_view s2) = v_uploads (sq_view s)"
      by simp
    ultimately show ?thesis
      using Committed(1,3) prev up sq_view_uploads_del [of s2 i] sq_inv_uploads_del [of s2 i]
      by (simp add: sq_view_upload)
  qed
next
  case (5 s i s' r)
  from 5(2) have "sq_DeleteUpload i s = (r, s')"
    by (simp add: sq_upload_store_def)
  then show ?case unfolding sq_DeleteUpload_def
  proof (cases rule: db_txE)
    case (Failed e)
    with 5(1) show ?thesis
      by (auto simp: sq_view_upload elim!: db_callE split: sum.splits prod.splits option.splits if_splits)
  next
    case (Committed x s1)
    with 5(1) show ?thesis
      by (auto simp: sq_view_upload sq_view_uploads_del sq_inv_uploads_del elim!: db_callE
          split: sum.splits prod.splits option.splits if_splits)
  qed
next
  case (6 s b s' r)
  have m: "is_map (sq_uploads s)" by (rule sq_inv_maps(4) [OF 6(1)])
  have "filter (\<lambda>(i, r). ur_bucket r = b) (sq_uploads s) = [] \<longleftrightarrow>
      (\<forall>i r. map_of (sq_uploads s) i = Some r \<longrightarrow> ur_bucket r \<noteq> b)"
    by (auto simp: filter_empty_conv map_of_eq_Some_iff [OF m])
  also have "\<dots> \<longleftrightarrow> (\<forall>i se. v_uploads (sq_view s) i = Some se \<longrightarrow> u_Bucket se \<noteq> b)"
    by (simp add: sq_view_upload map_option_Some_rows) (metis scan_upload_fields(2))
  finally have none: "filter (\<lambda>(i, r). ur_bucket r = b) (sq_uploads s) = [] \<longleftrightarrow>
      (\<forall>i se. v_uploads (sq_view s) i = Some se \<longrightarrow> u_Bucket se \<noteq> b)" .
  from 6(2) have "sq_CountUploads b s = (r, s')"
    by (simp add: sq_upload_store_def)
  then show ?case unfolding sq_CountUploads_def
    by (rule db_callE) (use 6(1) in \<open>auto simp: none\<close>)
qed

interpretation sq_blobs: disk_view sq_view sq_inv
  by unfold_locales (simp_all add: sq_view_def sq_inv_def)

section \<open>Operation sequences\<close>

text \<open>Every call a client can make of the adapter, each with the outcome of its driver calls.\<close>

datatype sq_op =
    OpPutKey time apikey | OpCreateKey apikey | OpUpdateKey apikey | OpDeleteKey gostring
  | OpCreateBucket bucket | OpUpdateBucket bucket | OpDeleteBucket gostring
  | OpPutObject object | OpDeleteObject gostring gostring
  | OpCreateUpload upload_session | OpPutPart gostring int part
  | OpCompleteUpload gostring object | OpDeleteUpload gostring

fun sq_run :: "sq_op \<Rightarrow> sq_world \<Rightarrow> sq_world" where
  "sq_run (OpPutKey now k) s = snd (sq_PutKey now k s)"
| "sq_run (OpCreateKey k) s = snd (sq_CreateKey k s)"
| "sq_run (OpUpdateKey k) s = snd (sq_UpdateKey k s)"
| "sq_run (OpDeleteKey i) s = snd (sq_DeleteKey i s)"
| "sq_run (OpCreateBucket b) s = snd (sq_CreateBucket b s)"
| "sq_run (OpUpdateBucket b) s = snd (sq_UpdateBucket b s)"
| "sq_run (OpDeleteBucket n) s = snd (sq_DeleteBucket n s)"
| "sq_run (OpPutObject ob) s = snd (sq_PutObject ob s)"
| "sq_run (OpDeleteObject b k) s = snd (sq_DeleteObject b k s)"
| "sq_run (OpCreateUpload se) s = snd (sq_CreateUpload se s)"
| "sq_run (OpPutPart i n p) s = snd (sq_PutPart i n p s)"
| "sq_run (OpCompleteUpload i ob) s = snd (sq_CompleteUpload i ob s)"
| "sq_run (OpDeleteUpload i) s = snd (sq_DeleteUpload i s)"

definition sq_empty :: "bool list \<Rightarrow> sq_world" where
  "sq_empty faults =
     \<lparr>dk_files = [], dk_faults = [], sq_faults = faults, sq_keys = [], sq_buckets = [],
      sq_objects = [], sq_uploads = []\<rparr>"

lemma sq_PutKey_inv: "sq_inv s \<Longrightarrow> sq_inv (snd (sq_PutKey now k s))"
  by (simp add: sq_PutKey_def db_call_def sq_inv_keys sq_inv_maps)

lemma sq_run_inv: "sq_inv s \<Longrightarrow> sq_inv (sq_run c s)"
proof (induction c)
  case (OpPutKey now k) then show ?case by (simp add: sq_PutKey_inv)
next
  case (OpCreateKey k)
  with sq_keys.create_key [of s k] show ?case by (simp add: sq_key_store_def prod_eq_iff)
next
  case (OpUpdateKey k)
  with sq_keys.update_key [of s k] show ?case by (simp add: sq_key_store_def prod_eq_iff)
next
  case (OpDeleteKey i)
  with sq_keys.delete_key [of s i] show ?case by (simp add: sq_key_store_def prod_eq_iff)
next
  case (OpCreateBucket b)
  with sq_buckets.create_bucket [of s b] show ?case by (simp add: sq_bucket_store_def prod_eq_iff)
next
  case (OpUpdateBucket b)
  with sq_buckets.update_bucket [of s b] show ?case by (simp add: sq_bucket_store_def prod_eq_iff)
next
  case (OpDeleteBucket n)
  with sq_buckets.delete_bucket [of s n] show ?case by (simp add: sq_bucket_store_def prod_eq_iff)
next
  case (OpPutObject ob)
  with sq_objects.put_object [of s ob] show ?case by (simp add: sq_object_store_def prod_eq_iff)
next
  case (OpDeleteObject b k)
  with sq_objects.delete_object [of s b k] show ?case by (simp add: sq_object_store_def prod_eq_iff)
next
  case (OpCreateUpload se)
  with sq_uploads.create_upload [of s se] show ?case by (simp add: sq_upload_store_def prod_eq_iff)
next
  case (OpPutPart i n p)
  with sq_uploads.put_part [of s i n p] show ?case by (simp add: sq_upload_store_def prod_eq_iff)
next
  case (OpCompleteUpload i ob)
  with sq_uploads.complete_upload [of s i ob] show ?case by (simp add: sq_upload_store_def prod_eq_iff)
next
  case (OpDeleteUpload i)
  with sq_uploads.delete_upload [of s i] show ?case by (simp add: sq_upload_store_def prod_eq_iff)
qed

lemma sq_fold_inv: "sq_inv s \<Longrightarrow> sq_inv (fold sq_run cs s)"
  by (induction cs arbitrary: s) (simp_all add: sq_run_inv)

section \<open>Properties\<close>

text \<open>
  No orphans: from an empty database, whatever operations run and whichever driver calls
  fail, every stored object and every upload session belongs to a bucket that exists, and no
  table holds two rows for one key.
\<close>

lemma sqlite_no_orphans:
  fixes cs :: "sq_op list" and faults :: "bool list"
  defines "s \<equiv> fold sq_run cs (sq_empty faults)"
  shows "(\<nexists>b k. map_of (sq_objects s) (b, k) \<noteq> None \<and> map_of (sq_buckets s) b = None) \<and>
    (\<nexists>i r. map_of (sq_uploads s) i = Some r \<and> map_of (sq_buckets s) (ur_bucket r) = None) \<and>
    distinct (map fst (sq_keys s)) \<and> distinct (map fst (sq_buckets s)) \<and>
    distinct (map fst (sq_objects s)) \<and> distinct (map fst (sq_uploads s))"
proof -
  have "sq_inv (sq_empty faults)" by (simp add: sq_inv_def sq_empty_def)
  then have "sq_inv s" unfolding s_def by (rule sq_fold_inv)
  then show ?thesis unfolding sq_inv_def by blast
qed

definition accented_object :: object where
  "accented_object =
     \<lparr>o_Bucket = ''photos'', o_Key = [CHR 0xC3, CHR 0xA9, CHR ''1''], o_BlobID = ''x'', o_Size = 1,
      o_ContentType = ''text/plain'', o_Checksum = ''c'', o_Metadata = [], o_CreatedAt = 0\<rparr>"

definition accented_world :: sq_world where
  "accented_world =
     fold sq_run [OpCreateBucket \<lparr>b_Name = ''photos'', b_Public = False, b_CreatedAt = 0\<rparr>,
       OpPutObject accented_object] (sq_empty [])"

lemma accented_world_objects:
  "sq_objects accented_world = [((''photos'', [CHR 0xC3, CHR 0xA9, CHR ''1'']), object_values accented_object)]"
  "sq_faults accented_world = []"
  by (simp_all add: accented_world_def sq_empty_def accented_object_def sq_CreateBucket_def
      sq_PutObject_def putObjectTx_def db_call_def db_tx_def db_commit_def db_pop_def map_put_def)


text \<open>
  \<open>DeleteUpload\<close> panics when its transaction cannot begin, for every session and every
  state, where every other operation of the adapter reports the driver's error.
\<close>

lemma sqlite_delete_upload_panics:
  "fst (sq_DeleteUpload i (s\<lparr>sq_faults := True # fs\<rparr>)) = Inl ErrPanic \<and>
   fst (sq_CompleteUpload i ob (s\<lparr>sq_faults := True # fs\<rparr>)) = Inl ErrOther \<and>
   fst (sq_GetUpload i (s\<lparr>sq_faults := True # fs\<rparr>)) = Inl ErrOther"
  by (simp add: sq_DeleteUpload_def sq_CompleteUpload_def sq_GetUpload_def db_tx_def db_call_def)

text \<open>
  What a bucket row keeps: a bucket created in an empty database reads back with its name and
  its visibility, and with its creation time cut to whole seconds; it reads back unchanged exactly
  when that time is a whole second.
\<close>

lemma sqlite_bucket_roundtrip:
  "fst (sq_GetBucket (b_Name b) (snd (sq_CreateBucket b (sq_empty [])))) =
     Inr (b\<lparr>b_CreatedAt := b_CreatedAt b - b_CreatedAt b mod Second\<rparr>) \<and>
   (fst (sq_GetBucket (b_Name b) (snd (sq_CreateBucket b (sq_empty [])))) = Inr b \<longleftrightarrow>
     b_CreatedAt b mod Second = 0)"
proof -
  have "time_Unix (Unix t) = t - t mod Second" for t
    by (simp add: time_Unix_def Unix_def minus_mod_eq_div_mult)
  then have "fst (sq_GetBucket (b_Name b) (snd (sq_CreateBucket b (sq_empty [])))) =
      Inr (b\<lparr>b_CreatedAt := b_CreatedAt b - b_CreatedAt b mod Second\<rparr>)"
    by (simp add: sq_GetBucket_def sq_CreateBucket_def db_call_def db_pop_def sq_empty_def
        scan_bucket_new bucket_cell_def)
  moreover have "b\<lparr>b_CreatedAt := t\<rparr> = b \<longleftrightarrow> t = b_CreatedAt b" for t
    by (cases b) auto
  ultimately show ?thesis by auto
qed

end
