(* ===== verification/Store_Migrations.thy ===== *)
theory Store_Migrations
  imports Tunna_Core Go_Encoding
begin

text \<open>
  \<open>internal/sqlite/migrations.go\<close>: the runner of the embedded migrations.  A database is its
  schema and its \<open>user_version\<close>; what a file of DDL does to a schema is a parameter \<open>exec\<close> (the
  SQL is SQLite's to run), \<open>None\<close> when it fails.  The calls of the driver fail as in the stores:
  the head of \<open>mg_faults\<close> decides, and a migration that does not commit changes nothing.
\<close>

record 'sch migration_db =
  mg_schema :: 'sch
  mg_version :: int
  mg_faults :: "bool list"

datatype migration_error =
    MgRead | MgName gostring | MgNumber gostring | MgApply gostring

definition mg_fault :: "'sch migration_db \<Rightarrow> bool" where
  "mg_fault db = (mg_faults db \<noteq> [] \<and> hd (mg_faults db))"

definition mg_pop :: "'sch migration_db \<Rightarrow> 'sch migration_db" where
  "mg_pop db = db\<lparr>mg_faults := tl (mg_faults db)\<rparr>"

text \<open>
  \<open>applyOne\<close>: begin, the DDL, the version bump, commit; four calls, and the first that fails
  leaves the schema and the version as they were.
\<close>

definition applyOne ::
  "(gostring \<Rightarrow> 'sch \<Rightarrow> 'sch option) \<Rightarrow> int \<Rightarrow> gostring \<Rightarrow> 'sch migration_db \<Rightarrow> bool \<times> 'sch migration_db" where
  "applyOne exec version ddl db =
     (if mg_fault db then (False, mg_pop db)
      else let db1 = mg_pop db in
        if mg_fault db1 then (False, mg_pop db1)
        else case exec ddl (mg_schema db1) of
               None \<Rightarrow> (False, mg_pop db1)
             | Some sch \<Rightarrow>
                 let db2 = mg_pop db1 in
                 if mg_fault db2 then (False, mg_pop db2)
                 else let db3 = mg_pop db2 in
                   if mg_fault db3 then (False, mg_pop db3)
                   else (True, (mg_pop db3)\<lparr>mg_schema := sch, mg_version := version\<rparr>))"

text \<open>The loop over the files, sorted by name; \<open>current\<close> is the version reached so far.\<close>

fun migrate_files ::
  "(gostring \<Rightarrow> 'sch \<Rightarrow> 'sch option) \<Rightarrow> int \<Rightarrow> (gostring \<times> gostring) list \<Rightarrow> 'sch migration_db
     \<Rightarrow> (migration_error + int) \<times> 'sch migration_db" where
  "migrate_files exec current [] db = (Inr current, db)"
| "migrate_files exec current ((name, ddl) # es) db =
     (case Cut name (CHR ''_'') of (numText, _, ok) \<Rightarrow>
        if \<not> ok then (Inl (MgName name), db)
        else case ParseInt numText of
               None \<Rightarrow> (Inl (MgNumber name), db)
             | Some n \<Rightarrow>
                 if n \<le> current then migrate_files exec current es db
                 else case applyOne exec n ddl db of
                        (False, db') \<Rightarrow> (Inl (MgApply name), db')
                      | (True, db') \<Rightarrow> migrate_files exec n es db')"

definition migrate ::
  "(gostring \<Rightarrow> 'sch \<Rightarrow> 'sch option) \<Rightarrow> (gostring \<times> gostring) list \<Rightarrow> 'sch migration_db
     \<Rightarrow> (migration_error + int) \<times> 'sch migration_db" where
  "migrate exec files db =
     (if mg_fault db then (Inl MgRead, mg_pop db)
      else migrate_files exec (mg_version db) files (mg_pop db))"

section \<open>Interrupted runs\<close>

lemma mg_pop_simps [simp]: "mg_schema (mg_pop db) = mg_schema db" "mg_version (mg_pop db) = mg_version db"
  by (simp_all add: mg_pop_def)

lemma applyOne_cases:
  assumes "applyOne exec n ddl db = (ok, db')"
  shows "if ok then exec ddl (mg_schema db) = Some (mg_schema db') \<and> mg_version db' = n
    else mg_schema db' = mg_schema db \<and> mg_version db' = mg_version db"
  using assms by (auto simp: applyOne_def Let_def split: if_splits option.splits)

text \<open>What the runner does when no call of the driver fails.\<close>

fun run_clean :: "(gostring \<Rightarrow> 'sch \<Rightarrow> 'sch option) \<Rightarrow> int \<Rightarrow> (gostring \<times> gostring) list \<Rightarrow> 'sch \<Rightarrow> (int \<times> 'sch) option" where
  "run_clean exec current [] sch = Some (current, sch)"
| "run_clean exec current ((name, ddl) # es) sch =
     (case Cut name (CHR ''_'') of (numText, _, ok) \<Rightarrow>
        if \<not> ok then None
        else case ParseInt numText of
               None \<Rightarrow> None
             | Some n \<Rightarrow>
                 if n \<le> current then run_clean exec current es sch
                 else case exec ddl sch of
                        None \<Rightarrow> None
                      | Some sch' \<Rightarrow> run_clean exec n es sch')"

lemma run_clean_version: "run_clean exec v es sch = Some (w, sch') \<Longrightarrow> v \<le> w"
  by (induction es arbitrary: v sch) (force split: prod.splits if_splits option.splits)+

lemma migrate_files_version: "migrate_files exec v es db = (r, db') \<Longrightarrow> mg_version db = v \<Longrightarrow> v \<le> mg_version db'"
proof (induction es arbitrary: v db)
  case (Cons e es)
  obtain name ddl where e: "e = (name, ddl)" by (cases e)
  obtain t rest ok where c: "Cut name (CHR ''_'') = (t, rest, ok)" by (cases "Cut name (CHR ''_'')")
  show ?case
  proof (cases "if ok then ParseInt t else None")
    case None
    with Cons.prems c show ?thesis by (auto simp: e split: if_splits)
  next
    case (Some n)
    obtain ap db1 where a: "applyOne exec n ddl db = (ap, db1)" by (cases "applyOne exec n ddl db")
    from Cons.prems c Some a applyOne_cases [OF a] Cons.IH [of v db] Cons.IH [of n db1] show ?thesis
      by (cases ap) (auto simp: e split: if_splits)
  qed
qed simp

text \<open>A successful run gives what a clean one gives and records the version it returns.\<close>

lemma migrate_files_ok:
  "migrate_files exec v es db = (Inr w, db') \<Longrightarrow> mg_version db = v \<Longrightarrow>
   run_clean exec v es (mg_schema db) = Some (w, mg_schema db') \<and> mg_version db' = w"
  by (induction es arbitrary: v db)
    (auto split: prod.splits if_splits option.splits bool.splits dest!: applyOne_cases)

text \<open>Wherever a run stopped, a clean run from there ends like a clean run from the start.\<close>

lemma migrate_files_resume:
  "migrate_files exec v es db = (r, db') \<Longrightarrow> mg_version db = v \<Longrightarrow>
   run_clean exec (mg_version db') es (mg_schema db') = run_clean exec v es (mg_schema db)"
proof (induction es arbitrary: v db)
  case (Cons e es)
  have grown: "v \<le> mg_version db'"
    using migrate_files_version [OF Cons.prems] .
  obtain name ddl where e: "e = (name, ddl)" by (cases e)
  obtain t rest ok where c: "Cut name (CHR ''_'') = (t, rest, ok)" by (cases "Cut name (CHR ''_'')")
  show ?case
  proof (cases "if ok then ParseInt t else None")
    case None
    with Cons.prems c show ?thesis by (auto simp: e split: if_splits)
  next
    case (Some n)
    obtain ap db1 where a: "applyOne exec n ddl db = (ap, db1)" by (cases "applyOne exec n ddl db")
    have "n \<le> mg_version db'" if "\<not> n \<le> v" ap
      using that migrate_files_version [of exec n es db1 r db'] applyOne_cases [OF a] Cons.prems c Some a
      by (auto simp: e split: if_splits)
    with Cons.prems c Some a applyOne_cases [OF a] Cons.IH [of v db] Cons.IH [of n db1] grown show ?thesis
      by (cases ap) (auto simp: e split: if_splits)
  qed
qed simp

text \<open>Once a version is reached, every file the run saw is skipped from there.\<close>

lemma run_clean_none:
  "run_clean exec v es sch = Some (w, sch') \<Longrightarrow> w \<le> u \<Longrightarrow> run_clean (\<lambda>_ _. None) u es x = Some (u, x)"
proof (induction es arbitrary: v sch)
  case (Cons e es)
  obtain name ddl where e: "e = (name, ddl)" by (cases e)
  from Cons.prems(1) obtain t rest n where c: "Cut name (CHR ''_'') = (t, rest, True)" "ParseInt t = Some n"
    unfolding e by (auto split: prod.splits if_splits option.splits)
  have "n \<le> w \<and> (\<exists>v1 sch1. run_clean exec v1 es sch1 = Some (w, sch'))"
    using Cons.prems(1) c run_clean_version [of exec _ es _ w sch'] unfolding e
    by (fastforce split: if_splits option.splits)
  with Cons.IH Cons.prems(2) c show ?case unfolding e by auto
qed simp

section \<open>Properties\<close>

text \<open>
  C32. Migrations are restartable and never applied twice: however a run ended (a driver error, a
  failing file, a malformed name, success), an undisturbed run from the database it left ends as
  one from the original database would; and after a success the recorded version is the one
  returned, and a further run applies no file at all.
\<close>

theorem migrations_resume:
  fixes exec :: "gostring \<Rightarrow> 'sch \<Rightarrow> 'sch option" and db :: "'sch migration_db"
  shows "case migrate exec files db of (r, db') \<Rightarrow>
    run_clean exec (mg_version db') files (mg_schema db') = run_clean exec (mg_version db) files (mg_schema db) \<and>
    (case r of
       Inl _ \<Rightarrow> True
     | Inr w \<Rightarrow> mg_version db' = w \<and>
         run_clean exec (mg_version db) files (mg_schema db) = Some (w, mg_schema db') \<and>
         run_clean (\<lambda>_ _. None) w files (mg_schema db') = Some (w, mg_schema db'))"
proof (cases "mg_fault db")
  case True
  then show ?thesis by (simp add: migrate_def)
next
  case False
  obtain r db' where m: "migrate_files exec (mg_version db) files (mg_pop db) = (r, db')"
    by (cases "migrate_files exec (mg_version db) files (mg_pop db)")
  have "run_clean exec (mg_version db') files (mg_schema db') = run_clean exec (mg_version db) files (mg_schema db)"
    using migrate_files_resume [OF m] by simp
  moreover have "case r of Inl _ \<Rightarrow> True | Inr w \<Rightarrow> mg_version db' = w \<and>
         run_clean exec (mg_version db) files (mg_schema db) = Some (w, mg_schema db') \<and>
         run_clean (\<lambda>_ _. None) w files (mg_schema db') = Some (w, mg_schema db')"
  proof (cases r)
    case (Inr w)
    with migrate_files_ok [of exec "mg_version db" files "mg_pop db" w db'] m
    have "run_clean exec (mg_version db) files (mg_schema db) = Some (w, mg_schema db') \<and> mg_version db' = w"
      by simp
    with run_clean_none [of exec "mg_version db" files "mg_schema db" w "mg_schema db'" w] Inr show ?thesis
      by simp
  qed simp
  ultimately show ?thesis using False m by (simp add: migrate_def)
qed

end
