(* ===== verification/Tunna_Config.thy ===== *)
theory Tunna_Config
  imports Tunna_Cors
begin

text \<open>
  \<open>internal/config/config.go\<close>: the configuration read from the environment, which is a function
  from names to values (\<open>None\<close>: not set).
\<close>

type_synonym environ = "gostring \<Rightarrow> gostring option"

record config =
  cf_Addr :: gostring
  cf_DataDir :: gostring
  cf_BootstrapKeyID :: gostring
  cf_BootstrapKeySecret :: gostring
  cf_CORSOrigins :: origins

datatype config_err = PortNotNumber | PortOutOfRange | DataDirRequired | CorsInvalid origin_err | BootstrapInvalid

definition Getenv :: "environ \<Rightarrow> gostring \<Rightarrow> gostring" where
  "Getenv env name = (case env name of None \<Rightarrow> [] | Some v \<Rightarrow> v)"

definition envOr :: "environ \<Rightarrow> gostring \<Rightarrow> gostring \<Rightarrow> gostring" where
  "envOr env name fallback =
     (case env name of Some v \<Rightarrow> if v \<noteq> [] then v else fallback | None \<Rightarrow> fallback)"

definition load_addr :: "environ \<Rightarrow> config_err + gostring" where
  "load_addr env =
     (if Getenv env ''TUNNA_ADDR'' \<noteq> [] then Inr (Getenv env ''TUNNA_ADDR'')
      else (case ParseInt (envOr env ''PORT'' ''8000'') of
              None \<Rightarrow> Inl PortNotNumber
            | Some port \<Rightarrow>
                if port < 1 \<or> port > 65535 then Inl PortOutOfRange else Inr (CHR '':'' # FormatInt port)))"

text \<open>The entries of the list, trimmed, without the empty ones.\<close>

definition cors_entries :: "gostring \<Rightarrow> gostring list" where
  "cors_entries v = filter (\<lambda>e. e \<noteq> []) (map TrimSpace (split_on (CHR '','') v))"

definition load_origins :: "environ \<Rightarrow> config_err + origins" where
  "load_origins env =
     (let v = Getenv env ''TUNNA_CORS_ORIGINS'' in
      if v = [] then Inr no_origins
      else (case ParseOrigins (cors_entries v) of Inl e \<Rightarrow> Inl (CorsInvalid e) | Inr og \<Rightarrow> Inr og))"

definition load_bootstrap :: "environ \<Rightarrow> config_err + (gostring \<times> gostring)" where
  "load_bootstrap env =
     (let v = Getenv env ''TUNNA_BOOTSTRAP_KEY'' in
      if v = [] then Inr ([], [])
      else (case Cut v (CHR '':'') of (key, secret, ok) \<Rightarrow>
        if \<not> ok \<or> key = [] \<or> secret = [] then Inl BootstrapInvalid else Inr (key, secret)))"

definition Load :: "environ \<Rightarrow> config_err + config" where
  "Load env =
     (case load_addr env of
        Inl e \<Rightarrow> Inl e
      | Inr addr \<Rightarrow>
      if Getenv env ''TUNNA_DATA_DIR'' = [] then Inl DataDirRequired
      else (case load_origins env of
        Inl e \<Rightarrow> Inl e
      | Inr og \<Rightarrow> (case load_bootstrap env of
        Inl e \<Rightarrow> Inl e
      | Inr (key, secret) \<Rightarrow>
          Inr \<lparr>cf_Addr = addr, cf_DataDir = Getenv env ''TUNNA_DATA_DIR'', cf_BootstrapKeyID = key,
               cf_BootstrapKeySecret = secret, cf_CORSOrigins = og\<rparr>)))"

section \<open>Lemmas\<close>

lemma load_bootstrap_ok:
  "load_bootstrap env = Inr (key, secret) \<Longrightarrow>
     (key = [] \<and> secret = [] \<and> Getenv env ''TUNNA_BOOTSTRAP_KEY'' = []) \<or>
     (key \<noteq> [] \<and> secret \<noteq> [] \<and> CHR '':'' \<notin> set key \<and>
      Getenv env ''TUNNA_BOOTSTRAP_KEY'' = key @ CHR '':'' # secret)"
  by (auto simp: load_bootstrap_def Let_def split: if_splits prod.splits dest: Cut_found)

lemma load_addr_nonempty: "load_addr env = Inr addr \<Longrightarrow> addr \<noteq> []"
  by (auto simp: load_addr_def split: if_splits option.splits)

section \<open>Properties\<close>

text \<open>
  Whatever the environment holds, \<open>Load\<close> either names what is wrong or answers a
  configuration fit to start with: the configured address or a
  port between 1 and 65535, a data directory, either no bootstrap key or an
  id and a secret that are both non-empty and spell the variable, the id without a colon (the
  secret may hold more).  It succeeds exactly when
  each of the four parts does, and reports the first part that fails in the order address, data
  directory, origins, bootstrap key.
\<close>

lemma load_config_sound:
  "(case Load env of
      Inl e \<Rightarrow>
        load_addr env = Inl e \<or>
        (is_ok (load_addr env) \<and>
          ((Getenv env ''TUNNA_DATA_DIR'' = [] \<and> e = DataDirRequired) \<or>
           (Getenv env ''TUNNA_DATA_DIR'' \<noteq> [] \<and>
             (load_origins env = Inl e \<or> (is_ok (load_origins env) \<and> load_bootstrap env = Inl e)))))
    | Inr c \<Rightarrow>
        cf_Addr c \<noteq> [] \<and> cf_DataDir c \<noteq> [] \<and>
        (if Getenv env ''TUNNA_ADDR'' = []
         then \<exists>p. 1 \<le> p \<and> p \<le> 65535 \<and> cf_Addr c = CHR '':'' # FormatInt p
         else cf_Addr c = Getenv env ''TUNNA_ADDR'') \<and>
        (if cf_BootstrapKeyID c = [] then cf_BootstrapKeySecret c = []
         else cf_BootstrapKeySecret c \<noteq> [] \<and> CHR '':'' \<notin> set (cf_BootstrapKeyID c) \<and>
           env ''TUNNA_BOOTSTRAP_KEY'' = Some (cf_BootstrapKeyID c @ CHR '':'' # cf_BootstrapKeySecret c)))"
proof (cases "Load env")
  case (Inl e)
  then show ?thesis
    by (auto simp: Load_def split: sum.splits if_splits prod.splits)
next
  case (Inr c)
  then obtain addr og key secret where parts: "load_addr env = Inr addr"
    "Getenv env ''TUNNA_DATA_DIR'' \<noteq> []" "load_bootstrap env = Inr (key, secret)"
    and c: "c = \<lparr>cf_Addr = addr, cf_DataDir = Getenv env ''TUNNA_DATA_DIR'', cf_BootstrapKeyID = key,
      cf_BootstrapKeySecret = secret, cf_CORSOrigins = og\<rparr>"
    by (auto simp: Load_def split: sum.splits if_splits prod.splits)
  have "if Getenv env ''TUNNA_ADDR'' = [] then \<exists>p. 1 \<le> p \<and> p \<le> 65535 \<and> addr = CHR '':'' # FormatInt p
      else addr = Getenv env ''TUNNA_ADDR''"
    using parts(1) by (auto simp: load_addr_def not_less split: if_splits option.splits)
  with Inr c parts load_addr_nonempty [OF parts(1)] load_bootstrap_ok [OF parts(3)] show ?thesis
    by (auto simp: Getenv_def split: option.splits)
qed

end
