(* ===== verification/Tunna_Fixtures.thy ===== *)
theory Tunna_Fixtures
  imports Tunna_Cors Store_Spec Go_Sha256 Sig_Checksum Sig_Sign
begin

text \<open>
  \<open>internal/fixtures/fixtures.go\<close>: the byte generator of the conformance fixtures and the
  records a server under test holds.  Maps are association lists in iteration order; the ids
  that the blob store draws are the successive entries of a stream of random bytes.
\<close>

section \<open>The fixtures file\<close>

record fx_bytes =
  fb_Seed :: int
  fb_Length :: int

record fx_object =
  fo_Key :: gostring
  fo_ContentType :: gostring
  fo_Text :: "gostring option"
  fo_Bytes :: "fx_bytes option"

record fx_bucket =
  fbk_Name :: gostring
  fbk_Public :: bool
  fbk_Objects :: "fx_object list"

record fx_key =
  fk_ID :: gostring
  fk_Secret :: gostring
  fk_Name :: gostring
  fk_Admin :: bool
  fk_Scopes :: "(gostring, gostring) gomap"
  fk_Disabled :: bool

record fx_file =
  ff_Spec :: gostring
  ff_CORSOrigins :: "gostring list"
  ff_Keys :: "(gostring, fx_key) gomap"
  ff_Buckets :: "(gostring, fx_bucket) gomap"

section \<open>Generate\<close>

definition gen_block :: "int \<Rightarrow> int \<Rightarrow> byte list" where
  "gen_block seed counter =
     be_bytes 8 (unat (word_of_int seed :: 64 word)) @ be_bytes 8 (unat (word_of_int counter :: 64 word))"

function gen_loop :: "int \<Rightarrow> int \<Rightarrow> int \<Rightarrow> byte list \<Rightarrow> byte list" where
  "gen_loop seed len counter out =
     (if int (length out) < len
      then gen_loop seed len (counter + 1) (out @ Sum256 (gen_block seed counter))
      else out)"
  by pat_completeness auto
termination
  by (relation "measure (\<lambda>(seed, len, counter, out). nat (len - int (length out)))") auto

declare gen_loop.simps [simp del]

text \<open>A negative length panics in \<open>make\<close>, \<open>None\<close>.\<close>

definition Generate :: "int \<Rightarrow> int \<Rightarrow> byte list option" where
  "Generate seed len = (if len < 0 then None else Some (take (nat len) (gen_loop seed len 0 [])))"

section \<open>Records\<close>

definition fx_Has :: "fx_file \<Rightarrow> gostring \<Rightarrow> bool" where
  "fx_Has f name = (map_of (ff_Keys f) name \<noteq> None \<or> map_of (ff_Buckets f) name \<noteq> None)"

definition fx_SigKey :: "fx_file \<Rightarrow> gostring \<Rightarrow> sig_key option" where
  "fx_SigKey f name =
     map_option (\<lambda>k. \<lparr>sk_ID = fk_ID k, sk_Secret = fk_Secret k\<rparr>) (map_of (ff_Keys f) name)"

definition fx_Origins :: "fx_file \<Rightarrow> origin_err + origins" where
  "fx_Origins f = ParseOrigins (ff_CORSOrigins f)"

definition fx_APIKeys :: "fx_file \<Rightarrow> time \<Rightarrow> apikey list" where
  "fx_APIKeys f createdAt =
     map (\<lambda>(name, k). \<lparr>k_ID = fk_ID k, k_Secret = fk_Secret k, k_Name = fk_Name k, k_Admin = fk_Admin k,
       k_Scopes = fk_Scopes k, k_Disabled = fk_Disabled k, k_CreatedAt = createdAt\<rparr>) (ff_Keys f)"

definition bucketName :: "gostring \<Rightarrow> fx_bucket \<Rightarrow> gostring" where
  "bucketName key b = (if fbk_Name b \<noteq> [] then fbk_Name b else key)"

definition fx_BucketRecords :: "fx_file \<Rightarrow> time \<Rightarrow> bucket list" where
  "fx_BucketRecords f createdAt =
     map (\<lambda>(key, b). \<lparr>b_Name = bucketName key b, b_Public = fbk_Public b, b_CreatedAt = createdAt\<rparr>) (ff_Buckets f)"

text \<open>The bytes of an object; \<open>None\<close> when generating them panics.\<close>

definition fx_data :: "fx_object \<Rightarrow> byte list option" where
  "fx_data ob =
     (case fo_Text ob of
        Some t \<Rightarrow> Some (bytes_of t)
      | None \<Rightarrow> (case fo_Bytes ob of Some g \<Rightarrow> Generate (fb_Seed g) (fb_Length g) | None \<Rightarrow> Some []))"

definition fx_object_record ::
  "'s blob_store \<Rightarrow> byte list \<Rightarrow> gostring \<Rightarrow> time \<Rightarrow> fx_object \<Rightarrow> 's \<Rightarrow> (store_err + object) \<times> 's" where
  "fx_object_record blobs raw bucket createdAt ob s =
     (case fx_data ob of
        None \<Rightarrow> (Inl ErrPanic, s)
      | Some bytes \<Rightarrow>
          (case bl_Create blobs raw s of
             (Inl e, s1) \<Rightarrow> (Inl e, s1)
           | (Inr i, s1) \<Rightarrow>
               (case bl_Write blobs i 0 \<lparr>rd_bytes = bytes, rd_end = BodyEOF\<rparr> s1 of
                  ((_, Some e), s2) \<Rightarrow> (Inl e, s2)
                | ((_, None), s2) \<Rightarrow>
                    (Inr \<lparr>o_Bucket = bucket, o_Key = fo_Key ob, o_BlobID = i, o_Size = int (length bytes),
                          o_ContentType = (if fo_ContentType ob = [] then ''application/octet-stream''
                                           else fo_ContentType ob),
                          o_Checksum = EncodeCRC32C (crc32c bytes), o_Metadata = [],
                          o_CreatedAt = createdAt\<rparr>, s2))))"

fun fx_records ::
  "'s blob_store \<Rightarrow> time \<Rightarrow> (nat \<Rightarrow> byte list) \<Rightarrow> nat \<Rightarrow> (gostring \<times> fx_object) list \<Rightarrow> 's \<Rightarrow> (store_err + object list) \<times> 's" where
  "fx_records blobs createdAt raws n [] s = (Inr [], s)"
| "fx_records blobs createdAt raws n ((bucket, ob) # obs) s =
     (case fx_object_record blobs (raws n) bucket createdAt ob s of
        (Inl e, s1) \<Rightarrow> (Inl e, s1)
      | (Inr rec, s1) \<Rightarrow>
          (case fx_records blobs createdAt raws (n + 1) obs s1 of
             (Inl e, s2) \<Rightarrow> (Inl e, s2)
           | (Inr recs, s2) \<Rightarrow> (Inr (rec # recs), s2)))"

definition fx_ObjectRecords ::
  "fx_file \<Rightarrow> 's blob_store \<Rightarrow> time \<Rightarrow> (nat \<Rightarrow> byte list) \<Rightarrow> 's \<Rightarrow> (store_err + object list) \<times> 's" where
  "fx_ObjectRecords f blobs createdAt raws s =
     fx_records blobs createdAt raws 0
       (concat (map (\<lambda>(key, b). map (\<lambda>ob. (bucketName key b, ob)) (fbk_Objects b)) (ff_Buckets f))) s"

section \<open>Lemmas\<close>

text \<open>The stream of a seed: the hashes of the successive blocks.\<close>

definition gen_stream :: "int \<Rightarrow> nat \<Rightarrow> byte list" where
  "gen_stream seed n = concat (map (\<lambda>c. Sum256 (gen_block seed (int c))) [0..<n])"

lemma length_gen_stream [simp]: "length (gen_stream seed n) = 32 * n"
  by (induction n) (simp_all add: gen_stream_def)

lemma gen_stream_Suc: "gen_stream seed (Suc n) = gen_stream seed n @ Sum256 (gen_block seed (int n))"
  by (simp add: gen_stream_def)

lemma gen_stream_nth: "i < 32 * n \<Longrightarrow> gen_stream seed n ! i = Sum256 (gen_block seed (int (i div 32))) ! (i mod 32)"
proof (induction n)
  case (Suc n)
  show ?case
  proof (cases "i < 32 * n")
    case False
    with Suc.prems have "i div 32 = n"
      by (intro div_nat_eqI) auto
    moreover from this have "i - 32 * n = i mod 32"
      by (metis minus_mult_div_eq_mod)
    ultimately have "i div 32 = n" "i - 32 * n = i mod 32" by simp_all
    with False show ?thesis by (simp add: gen_stream_Suc nth_append)
  qed (simp add: gen_stream_Suc nth_append Suc.IH)
qed simp

lemma gen_loop_stream:
  "\<exists>m \<ge> n. gen_loop seed len (int n) (gen_stream seed n) = gen_stream seed m \<and> len \<le> 32 * int m"
proof (induction "nat (len - 32 * int n)" arbitrary: n rule: less_induct)
  case less
  show ?case
  proof (cases "32 * int n < len")
    case True
    then have "nat (len - 32 * int (Suc n)) < nat (len - 32 * int n)" by simp
    from less [OF this] obtain m where "m \<ge> Suc n"
      "gen_loop seed len (int (Suc n)) (gen_stream seed (Suc n)) = gen_stream seed m" "len \<le> 32 * int m"
      by blast
    moreover have "gen_loop seed len (int n) (gen_stream seed n) =
        gen_loop seed len (int (Suc n)) (gen_stream seed (Suc n))"
      using True by (subst gen_loop.simps) (simp add: gen_stream_Suc add.commute)
    ultimately show ?thesis by (metis Suc_leD)
  next
    case False
    then show ?thesis by (subst gen_loop.simps) auto
  qed
qed

lemma Generate_stream:
  "0 \<le> len \<Longrightarrow> \<exists>m. Generate seed len = Some (take (nat len) (gen_stream seed m)) \<and> len \<le> 32 * int m"
  using gen_loop_stream [of 0 seed len] by (auto simp: Generate_def gen_stream_def)

section \<open>Properties\<close>


end
