(* ===== verification/Http_System.thy ===== *)
theory Http_System
  imports Http_Listing Store_Memory Store_Sqlite Store_Migrations Tunna_Config Tunna_Fixtures
begin

text \<open>
  The composition: one request through CORS, authentication and the mux makes one transition of
  the specification, made by nobody or by the key whose signature the request carries.  The
  service is interpreted on the two families of stores; the server of \<open>cmd/tunna\<close> is the one on
  SQLite and the disk.
\<close>

section \<open>Whose request it is\<close>

definition authentic :: "'s handler \<Rightarrow> env \<Rightarrow> request \<Rightarrow> view \<Rightarrow> apikey \<Rightarrow> bool" where
  "authentic h ev r v k \<longleftrightarrow>
     (\<exists>c ts mode. v_keys v (cr_keyID c) = Some k \<and> \<not> k_Disabled k \<and> signed_by r mode ts c k \<and>
        (if mode = Header
         then map_of (rq_Header r) ''Authorization'' \<noteq> None \<and> \<bar>time_Unix ts - ev_now ev 0\<bar> \<le> h_skew h
         else Values_Has (url_query r) ParamSig \<and> Unix (ev_now ev 0) \<le> ts \<and>
              ts \<le> Unix (ev_now ev 0) + dur_seconds (h_maxPresign h)))"

context service begin

lemma authenticated_step:
  assumes "inv s" "consistent (view s)" "rq_caller r = None"
    and nxt: "\<And>c s1. inv s1 \<Longrightarrow> view s1 = view s \<Longrightarrow>
      sat (post view inv c (view s)) (f w (r\<lparr>rq_caller := c\<rparr>) s1)"
  shows "\<exists>c. sat (post view inv c (view s)) (authenticate h ev f w r s) \<and>
    (\<forall>k. c = Some k \<longrightarrow> authentic h ev r (view s) k)"
proof -
  have none: "r\<lparr>rq_caller := None\<rparr> = r" using assms(3) by simp
  from authenticate_cases [of h ev w r s] show ?thesis
  proof (elim disjE exE conjE, goal_cases)
    case (1 e s1)
    then show ?case using assms(1) by (auto intro!: exI [of _ None] sat_same)
  next
    case (2 e s1 i v)
    with get_key [OF assms(1) 2(3)] show ?case by (auto intro!: exI [of _ None] sat_same)
  next
    case 3
    with nxt [OF assms(1) refl, of None] none show ?case by (auto intro!: exI [of _ None])
  next
    case (4 k s1 c ts mode)
    note law = get_key [OF assms(1) 4(2)]
    from law have "v_keys (view s) (cr_keyID c) = Some k" by simp
    with 4(3-5) have "authentic h ev r (view s) k"
      unfolding authentic_def by blast
    moreover have "sat (post view inv (Some k) (view s)) (authenticate h ev f w r s)"
      using 4(1) nxt [of s1 "Some k"] law by simp
    ultimately show ?case by blast
  qed
qed

lemma cors_step:
  assumes "inv s" "\<And>w. \<exists>c. sat (post view inv c (view s)) (f w r s) \<and> (\<forall>k. c = Some k \<longrightarrow> P k)"
  shows "\<exists>c. sat (post view inv c (view s)) (cors h f w r s) \<and> (\<forall>k. c = Some k \<longrightarrow> P k)"
  using assms(2) sat_same [where vw = view and I = inv and s = s, OF assms(1) refl, of None]
  by (auto simp: cors_def Let_def split: option.split intro!: exI [of _ None])

lemma request_step:
  assumes "inv s" "consistent (view s)" "rq_caller r = None" "framed r"
  shows "\<exists>c. sat (post view inv c (view s)) (cors h (authenticate h ev (ServeMux h ev)) w r s) \<and>
    (\<forall>k. c = Some k \<longrightarrow> authentic h ev r (view s) k)"
proof (rule cors_step [OF assms(1)])
  fix w
  show "\<exists>c. sat (post view inv c (view s)) (authenticate h ev (ServeMux h ev) w r s) \<and>
    (\<forall>k. c = Some k \<longrightarrow> authentic h ev r (view s) k)"
  proof (rule authenticated_step [OF assms(1-3)])
    fix c s1 assume "inv s1" "view s1 = view s"
    with ok_ServeMux [of s1 "r\<lparr>rq_caller := c\<rparr>" ev w] assms(2,4)
    show "sat (post view inv c (view s)) (ServeMux h ev w (r\<lparr>rq_caller := c\<rparr>) s1)" by simp
  qed
qed

end

section \<open>The memory stores as a service\<close>

definition mem_options :: "origins \<Rightarrow> mem_world options" where
  "mem_options og =
     \<lparr>op_ServerVersion = ''dev'', op_Keys = mem_key_store, op_Buckets = mem_bucket_store,
      op_Objects = mem_object_store, op_Blobs = disk_store, op_Uploads = mem_upload_store,
      op_Skew = 0, op_MaxPresign = 0, op_PartSizeMin = 0, op_PartSizeMax = 0, op_MaxParts = 0,
      op_UploadTTL = 0, op_CORSOrigins = og\<rparr>"

interpretation mem: service "new_handler (mem_options og)" mem_view mem_inv
  "\<lambda>k. k" "\<lambda>b. b" "\<lambda>ob. ob" "\<lambda>se. se" "\<lambda>_. True" validID
proof -
  have "v_blobs (mem_view s) [] = None" for s
    by (simp add: mem_view_def blobs_of_def blob_path_def validID_def)
  then show "service (new_handler (mem_options og)) mem_view mem_inv
    (\<lambda>k. k) (\<lambda>b. b) (\<lambda>ob. ob) (\<lambda>se. se) (\<lambda>_. True) validID"
    using mem_keys.key_store_laws_axioms mem_buckets.bucket_store_laws_axioms
      mem_objects.object_store_laws_axioms mem_uploads.upload_store_laws_axioms
      mem_blobs.blob_store_laws_axioms
    by (intro service.intro service_axioms.intro) (simp_all add: new_handler_def mem_options_def default_def part_limit_defs)
qed

section \<open>The SQLite stores as a service\<close>

text \<open>What \<open>cmd/tunna\<close> builds: the SQLite stores, the disk store, the defaults and the configured origins.\<close>

definition server_options :: "config \<Rightarrow> sq_world options" where
  "server_options cfg =
     \<lparr>op_ServerVersion = ''dev'', op_Keys = sq_key_store, op_Buckets = sq_bucket_store,
      op_Objects = sq_object_store, op_Blobs = disk_store, op_Uploads = sq_upload_store,
      op_Skew = 0, op_MaxPresign = 0, op_PartSizeMin = 0, op_PartSizeMax = 0, op_MaxParts = 0,
      op_UploadTTL = 0, op_CORSOrigins = cf_CORSOrigins cfg\<rparr>"

interpretation sq: service "new_handler (server_options cfg)" sq_view sq_inv
  key_cell bucket_cell object_cell upload_cell is_ascii validID
proof -
  have "v_blobs (sq_view s) [] = None" for s
    by (simp add: sq_view_def blobs_of_def blob_path_def validID_def)
  then show "service (new_handler (server_options cfg)) sq_view sq_inv
    key_cell bucket_cell object_cell upload_cell is_ascii validID"
    using sq_keys.key_store_laws_axioms sq_buckets.bucket_store_laws_axioms
      sq_objects.object_store_laws_axioms sq_uploads.upload_store_laws_axioms
      sq_blobs.blob_store_laws_axioms
    by (intro service.intro service_axioms.intro)
      (simp_all add: new_handler_def server_options_def bucket_cell_def upload_cell_def is_ascii_def default_def part_limit_defs)
qed

section \<open>The server\<close>

text \<open>
  \<open>run\<close> of \<open>cmd/tunna\<close>: the bootstrap key is upserted, then requests are served.  A request
  arrives without a caller in its context and with its body cut to its length; the state holds the driver and disk faults to come.
\<close>

definition start :: "config \<Rightarrow> time \<Rightarrow> sq_world \<Rightarrow> (store_err + unit) \<times> sq_world" where
  "start cfg now s =
     (if cf_BootstrapKeyID cfg \<noteq> [] then
        sq_PutKey now \<lparr>k_ID = cf_BootstrapKeyID cfg, k_Secret = cf_BootstrapKeySecret cfg, k_Name = ''bootstrap'',
          k_Admin = True, k_Scopes = [], k_Disabled = False, k_CreatedAt = time_Unix (- 62135596800)\<rparr> s
      else (Inr (), s))"

definition arrives :: "request \<Rightarrow> request" where
  "arrives r = delivered (r\<lparr>rq_caller := None\<rparr>)"

definition respond :: "config \<Rightarrow> env \<times> request \<Rightarrow> sq_world \<Rightarrow> response \<times> sq_world" where
  "respond cfg er s = New (server_options cfg) (fst er) (arrives (snd er)) s"

text \<open>The state after a start on an empty data directory and a history of requests.\<close>

definition after_history :: "config \<Rightarrow> time \<Rightarrow> io_fault list \<Rightarrow> bool list \<Rightarrow> (env \<times> request) list \<Rightarrow> sq_world" where
  "after_history cfg now io db history =
     fold (\<lambda>er s. snd (respond cfg er s)) history (snd (start cfg now ((sq_empty db)\<lparr>dk_faults := io\<rparr>)))"

lemma respond_step:
  assumes "sq_inv s" "consistent (sq_view s)"
  shows "\<exists>c. sat (post sq_view sq_inv c (sq_view s)) (respond cfg er s) \<and>
    (\<forall>k. c = Some k \<longrightarrow> authentic (new_handler (server_options cfg)) (fst er) (arrives (snd er)) (sq_view s) k)"
  using sq.request_step [OF assms, of "arrives (snd er)"]
  by (simp add: respond_def New_def Let_def arrives_def)

lemma respond_keeps:
  assumes "sq_inv s" "consistent (sq_view s)"
  shows "sq_inv (snd (respond cfg er s)) \<and> consistent (sq_view (snd (respond cfg er s)))"
  using respond_step [OF assms, of cfg er] assms(2)
  by (auto simp: sat_def post_def intro: transition_consistent)

lemma start_keeps: "sq_inv (snd (start cfg now ((sq_empty db)\<lparr>dk_faults := io\<rparr>))) \<and>
    consistent (sq_view (snd (start cfg now ((sq_empty db)\<lparr>dk_faults := io\<rparr>))))"
proof -
  let ?s = "(sq_empty db)\<lparr>dk_faults := io\<rparr>"
  have inv: "sq_inv ?s" by (simp add: sq_inv_def sq_empty_def)
  have "consistent (sq_view s)" if "sq_buckets s = []" "sq_objects s = []" "sq_uploads s = []" for s
    using that by (intro consistent_empty) (auto simp: sq_view_def)
  moreover have "sq_buckets (snd (start cfg now ?s)) = []" "sq_objects (snd (start cfg now ?s)) = []"
    "sq_uploads (snd (start cfg now ?s)) = []"
    by (auto simp: start_def sq_PutKey_def db_call_def sq_empty_def db_pop_def)
  moreover have "sq_inv (snd (start cfg now ?s))"
    using inv sq_PutKey_inv by (auto simp: start_def)
  ultimately show ?thesis by blast
qed

lemma history_keeps:
  "sq_inv (after_history cfg now io db history) \<and> consistent (sq_view (after_history cfg now io db history))"
proof -
  have "sq_inv (fold (\<lambda>er s. snd (respond cfg er s)) hs s) \<and>
      consistent (sq_view (fold (\<lambda>er s. snd (respond cfg er s)) hs s))"
    if "sq_inv s" "consistent (sq_view s)" for hs s
    using that respond_keeps by (induction hs arbitrary: s) auto
  with start_keeps [of cfg now] show ?thesis unfolding after_history_def by blast
qed

lemma history_step:
  "\<exists>c. transition c (accepted (fst (respond cfg er (after_history cfg now io db history))))
         (sq_view (after_history cfg now io db history))
         (sq_view (snd (respond cfg er (after_history cfg now io db history)))) \<and>
       (\<forall>k. c = Some k \<longrightarrow> authentic (new_handler (server_options cfg)) (fst er) (arrives (snd er))
         (sq_view (after_history cfg now io db history)) k)"
  using respond_step [of "after_history cfg now io db history" cfg er] history_keeps
  by (auto simp: sat_def post_def)

section \<open>Properties\<close>

text \<open>
  C1. The server never loses track of its data: after a start and any history of requests, with
  any driver calls and disk operations failing, rows carry their own names, names and keys are
  valid, objects and upload sessions lie in existing buckets, the blob of every row exists, and
  no two rows share a blob.
\<close>

theorem server_stays_consistent:
  "consistent (sq_view (after_history cfg now io db history))"
  using history_keeps by blast



text \<open>
  C6. Committed objects are immutable: after any history, whatever the next request does, every
  object whose row still names the same blob has the same bytes, so an upload in progress, an
  overwrite of another key or a failed request never touches them.
\<close>

theorem objects_are_immutable:
  "bytes_kept (sq_view (after_history cfg now io db history))
     (sq_view (snd (respond cfg er (after_history cfg now io db history))))"
  using history_step [of cfg er now io db history] history_keeps [of cfg now io db history]
    transition_bytes_kept by blast

text \<open>
  C15. A refused request changes nothing: after any history, a request that is not answered with a
  status below 400 leaves every key, bucket, object and upload session exactly as it was.
\<close>

theorem refused_request_changes_nothing:
  "accepted (fst (respond cfg er (after_history cfg now io db history))) \<or>
   same_rows (sq_view (after_history cfg now io db history))
     (sq_view (snd (respond cfg er (after_history cfg now io db history))))"
  using history_step [of cfg er now io db history] transition_same_rows by (metis (full_types))

end
