(* ===== verification/Http_Storage.thy ===== *)
theory Http_Storage
  imports Http_System
begin

text \<open>
  The bytes on the server of \<open>cmd/tunna\<close>: the properties of \<open>Http_Data\<close> read off the interpretation of
  \<open>service\<close> on the SQLite stores and the disk, with requests that exercise them, and what the
  protocol does not promise.
\<close>

abbreviation server :: "config \<Rightarrow> sq_world handler" where
  "server cfg \<equiv> new_handler (server_options cfg)"

lemma server_stores [simp]:
  "h_keys (server cfg) = sq_key_store" "h_buckets (server cfg) = sq_bucket_store"
  "h_objects (server cfg) = sq_object_store" "h_uploads (server cfg) = sq_upload_store"
  "h_blobs (server cfg) = disk_store"
  "bs_GetBucket sq_bucket_store = sq_GetBucket" "os_PutObject sq_object_store = sq_PutObject"
  "os_GetObject sq_object_store = sq_GetObject" "us_GetUpload sq_upload_store = sq_GetUpload"
  "us_PutPart sq_upload_store = sq_PutPart" "us_CompleteUpload sq_upload_store = sq_CompleteUpload"
  "bl_Create disk_store = disk_Create" "bl_Write disk_store = disk_Write" "bl_Sync disk_store = disk_Sync"
  "bl_Open disk_store = disk_Open" "bl_Remove disk_store = disk_Remove"
  by (simp_all add: new_handler_def server_options_def sq_bucket_store_def sq_object_store_def
    sq_upload_store_def disk_store_def)

section \<open>Without faults\<close>

lemma quiet_calls [simp]:
  "sq_faults s = [] \<Longrightarrow> db_call f s = f s"
  "dk_faults s = [] \<Longrightarrow> next_fault s = NoFault" "dk_faults s = [] \<Longrightarrow> pop_fault s = s"
  by (cases s; simp add: db_call_def db_pop_def next_fault_def pop_fault_def)+

lemma quiet_PutObject:
  assumes "sq_faults s = []" "map_of (sq_buckets s) (o_Bucket ob) = Some br"
  shows "\<exists>prev. sq_PutObject ob s =
    (Inr prev, s\<lparr>sq_objects := map_put (sq_objects s) (o_Bucket ob, o_Key ob) (object_values ob)\<rparr>)"
  using assms
  by (cases "map_of (sq_objects s) (o_Bucket ob, o_Key ob)")
    (simp_all add: sq_PutObject_def db_tx_def putObjectTx_def db_commit_def db_pop_def)

lemma quiet_activeSession:
  assumes "sq_faults s = []" "map_of (sq_uploads s) (PathValue r ''id'') = Some row"
    "Allows (caller_key r) Write (ur_bucket row)" "ev_now ev 1 \<le> time_Unix (ur_expires row)"
  shows "activeSession (server cfg) ev w r s = (Inr (scan_upload (PathValue r ''id'') row), s)"
  using assms by (simp add: activeSession_def sq_GetUpload_def sessionWritable_def scan_upload_def Let_def)

text \<open>A part that is sent as the contract asks is accepted, and its effect.\<close>

lemma quiet_part:
  assumes "sq_faults s = []" "dk_faults s = []" "map_of (sq_uploads s) (PathValue r ''id'') = Some row"
    "Allows (caller_key r) Write (ur_bucket row)" "ev_now ev 1 \<le> time_Unix (ur_expires row)"
    "blob_path (ur_blob_id row) = Some p" "map_of (dk_files s) p = Some old"
    "ParseInt (PathValue r ''n'') = Some n" "1 \<le> n" "n \<le> 10000"
    "rq_ContentLength r = int (length (rd_bytes (rq_Body r)))" "rd_bytes (rq_Body r) \<noteq> []"
    "rq_ContentLength r \<le> ur_part_size row" "ur_part_size row \<le> 104857600" "rd_end (rq_Body r) = BodyEOF"
    "wantChecksum w r = Inr None"
  shows "\<exists>rs. putUploadPart (server cfg) ev w r s =
    (rs, s\<lparr>dk_files := map_put (dk_files s) p (write_at old (nat ((n - 1) * ur_part_size row)) (rd_bytes (rq_Body r))),
           sq_uploads := map_put (sq_uploads s) (PathValue r ''id'') (row\<lparr>ur_parts := map_put (ur_parts row) n
             \<lparr>p_Size = int (length (rd_bytes (rq_Body r))), p_Checksum = EncodeCRC32C (crc32c (rd_bytes (rq_Body r)))\<rparr>\<rparr>)\<rparr>) \<and>
    accepted rs"
proof -
  have max: "h_maxParts (server cfg) = 10000" by (simp add: new_handler_def server_options_def default_def)
  have ps: "0 \<le> ur_part_size row" using assms(11,13) by linarith
  then have "(n - 1) * ur_part_size row \<le> 10000 * 104857600" using assms(9,10,14) by (intro mult_mono) auto
  moreover have off: "0 \<le> (n - 1) * ur_part_size row" using assms(9) ps by simp
  ultimately have "int64 (int64 (n - 1) * ur_part_size row) = (n - 1) * ur_part_size row"
    using assms(9,10) by (simp add: int64_small)
  moreover from off have "\<not> (n - 1) * ur_part_size row < 0" by linarith
  ultimately show ?thesis
    using assms(1-3,6-16) quiet_activeSession [OF assms(1,3-5), of cfg w] max
    by (simp add: putUploadPart_def storePart_def Let_def scan_upload_def disk_Write_def disk_Sync_def
      end_error_def sq_PutPart_def)
qed

lemma quiet_completion:
  assumes "sq_faults s = []" "dk_faults s = []" "map_of (sq_uploads s) (PathValue r ''id'') = Some row"
    "Allows (caller_key r) Write (ur_bucket row)" "ev_now ev 1 \<le> time_Unix (ur_expires row)"
    "map_of (sq_buckets s) (ur_bucket row) = Some br"
    "completion r = Decoded \<lparr>cm_Parts = n, cm_Checksums = None\<rparr>" "1 \<le> n"
    "complete_error w (scan_upload (PathValue r ''id'') row) \<lparr>cm_Parts = n, cm_Checksums = None\<rparr> = None"
    "fold_upload (scan_upload (PathValue r ''id'') row) n \<noteq> None"
  shows "accepted (fst (completeUpload (server cfg) ev w r s))"
proof -
  obtain acc sz where fold: "fold_upload (scan_upload (PathValue r ''id'') row) n = Some (acc, sz)"
    using assms(10) by auto
  have "accepted (fst (finishUpload (server cfg) w r (scan_upload (PathValue r ''id'') row)
      (upload_object (scan_upload (PathValue r ''id'') row) acc sz t) s))" for t
    using assms(1,3,6)
    by (cases "map_of (sq_objects s) (ur_bucket row, ur_key row)")
      (simp_all add: finishUpload_def sq_CompleteUpload_def db_tx_def putObjectTx_def db_commit_def db_pop_def
        upload_object_def scan_upload_def Let_def)
  then show ?thesis
    using assms(7-9) fold quiet_activeSession [OF assms(1,3-5), of cfg w]
    by (simp add: completeUpload_def completion_def)
qed

section \<open>A small server\<close>

definition plain_config :: config where
  "plain_config = \<lparr>cf_Addr = '':8000'', cf_DataDir = ''/data'', cf_BootstrapKeyID = [], cf_BootstrapKeySecret = [],
     cf_CORSOrigins = no_origins\<rparr>"

definition writer_key :: apikey where
  "writer_key = \<lparr>k_ID = ''k'', k_Secret = ''s'', k_Name = ''writer'', k_Admin = False,
     k_Scopes = [(''photos'', Write)], k_Disabled = False, k_CreatedAt = 0\<rparr>"

definition plain_env :: env where
  "plain_env = \<lparr>ev_now = (\<lambda>_. 1000 * Second), ev_blob = replicate 16 0, ev_session = [], ev_keyid = None,
     ev_secret = None, ev_boundary = ''b0'', ev_ParseTime = (\<lambda>_. None), ev_lower = ToLower\<rparr>"

definition plain_world :: sq_world where
  "plain_world = (sq_empty [])\<lparr>sq_buckets := [(''photos'', \<lparr>br_public = True, br_created = 0\<rparr>)]\<rparr>"

definition object_request :: "gostring \<Rightarrow> byte list \<Rightarrow> request" where
  "object_request m body =
     \<lparr>rq_Method = m, rq_Path = ''/photos/cat'', rq_EscapedPath = ''/photos/cat'', rq_RawQuery = [],
      rq_Header = [], rq_ContentLength = int (length body), rq_Body = \<lparr>rd_bytes = body, rd_end = BodyEOF\<rparr>,
      rq_json = JsonEOF, rq_PathValues = [(''bucket'', ''photos''), (''key'', ''cat'')],
      rq_caller = Some writer_key\<rparr>"

section \<open>Objects\<close>

text \<open>
  C17. Read your write: whatever else the stores hold, when a PUT of an object is accepted and
  a plain GET of the same key that follows is answered with success, the answer is 200 with
  exactly the bytes that were put, and its ETag is the quoted CRC32C of those bytes.
\<close>

theorem get_returns_what_put_stored:
  assumes "sq_inv s" "consistent (sq_view s)"
    and "putObject (server cfg) ev w r s = (rs, s1)" "accepted rs"
    and "getObject (server cfg) ev' w' r' s1 = (rs', s2)" "accepted rs'"
    and "PathValue r' ''bucket'' = PathValue r ''bucket''" "PathValue r' ''key'' = PathValue r ''key''"
    and "\<forall>n \<in> set conditional_headers. Header_Get (rq_Header r') n = []" "rq_Method r' \<noteq> ''HEAD''"
  shows "rs_status rs' = 200 \<and> rs_body rs' = BlobBody (rd_bytes (rq_Body r)) \<and>
    Header_Get (rs_headers rs') ''ETag'' = quoted (EncodeCRC32C (crc32c (rd_bytes (rq_Body r))))"
proof -
  from sq.putObject_stores [OF assms(1,2), of r cfg ev w] assms(3,4) obtain ob where ob: "sq_inv s1"
    "stored (sq_view s1) (PathValue r ''bucket'') (PathValue r ''key'') ob (rd_bytes (rq_Body r))"
    "intact (sq_view s1) ob"
    by (auto simp: sat_def)
  then have "o_Checksum ob = EncodeCRC32C (crc32c (rd_bytes (rq_Body r)))"
    by (simp add: intact_def stored_def)
  with sq.getObject_serves [OF ob(1) _ assms(9,10), of ob "rd_bytes (rq_Body r)" cfg ev' w'] ob(2) assms(5-8)
  show ?thesis by (simp add: sat_def)
qed

lemma put_object_answers:
  assumes "sq_faults s = []" "dk_faults s = []" "ValidateBucketName (PathValue r ''bucket'') = None"
    "ValidateObjectKey (PathValue r ''key'') = None" "map_of (sq_buckets s) (PathValue r ''bucket'') = Some br"
    "rq_ContentLength r = int (length (rd_bytes (rq_Body r)))" "rq_ContentLength r \<le> maxBodyLength"
    "rd_end (rq_Body r) = BodyEOF" "wantChecksum w r = Inr want"
    "want = None \<or> want = Some (crc32c (rd_bytes (rq_Body r)))" "meta_headers (rq_Header r) [] = Some md"
    "length (ev_blob ev) = 16" "blobs_of (dk_files s) (hex_encode (ev_blob ev)) = None"
    "putObject (server cfg) ev w r s = (rs, s1)"
  shows "rs_status rs = 201 \<and> accepted rs \<and> sq_faults s1 = [] \<and> dk_faults s1 = [] \<and> sq_buckets s1 = sq_buckets s"
proof -
  obtain p where p: "blob_path (hex_encode (ev_blob ev)) = Some p"
    using validID_hex [OF assms(12)] by (simp add: blob_path_def)
  let ?body = "rd_bytes (rq_Body r)"
  define s2 where "s2 = s\<lparr>dk_files := map_put (dk_files s) p []\<rparr>"
  define s3 where "s3 = s\<lparr>dk_files := map_put (map_put (dk_files s) p []) p ?body\<rparr>"
  have created: "disk_Create (ev_blob ev) s = (Inr (hex_encode (ev_blob ev)), s2)"
    using assms(2,13) p by (simp add: disk_Create_def s2_def Let_def blobs_of_def)
  have "disk_Write (hex_encode (ev_blob ev)) 0 (rq_Body r) s2 = ((int (length ?body), None), s3)"
    "disk_Sync (hex_encode (ev_blob ev)) s3 = (Inr (), s3)"
    using assms(2,8) p by (simp_all add: disk_Write_def disk_Sync_def s2_def s3_def Let_def end_error_def)
  then have body: "storeBody (server cfg) w r (hex_encode (ev_blob ev)) want s2 = (Inr (crc32c ?body), s3)"
    using assms(6,10) by (elim disjE) (simp_all add: storeBody_def Let_def)
  have rec: "rs_status rs = 201 \<and> accepted rs \<and> sq_faults s1 = [] \<and> dk_faults s1 = [] \<and> sq_buckets s1 = sq_buckets s"
    if run: "recordObject (server cfg) w ob s3 = (rs, s1)" and bk: "o_Bucket ob = PathValue r ''bucket''" for ob
  proof -
    obtain prev where "sq_PutObject ob s3 =
        (Inr prev, s3\<lparr>sq_objects := map_put (sq_objects s3) (o_Bucket ob, o_Key ob) (object_values ob)\<rparr>)"
      using quiet_PutObject [of s3 ob br] assms(1,5) bk by (auto simp: s3_def)
    then show ?thesis
      using assms(1,2) run
      by (auto simp: recordObject_def writeJSON_def accepted_def disk_Remove_def s3_def Let_def split: option.splits if_splits)
  qed
  have "sq_GetBucket (PathValue r ''bucket'') s = (Inr (scan_bucket (PathValue r ''bucket'') br), s)"
    using assms(1,5) by (simp add: sq_GetBucket_def)
  then show ?thesis
    using assms(3,4,6,7,9,11,14) created body
    by (auto simp: putObject_def Let_def scan_bucket_def dest!: rec)
qed

text \<open>Who may read a bucket: anyone when it is public, else a caller allowed to.\<close>

definition may_read :: "sq_world \<Rightarrow> request \<Rightarrow> gostring \<Rightarrow> bool" where
  "may_read s r b \<longleftrightarrow>
     (case map_of (sq_buckets s) b of None \<Rightarrow> False
      | Some br \<Rightarrow> br_public br \<or> (case rq_caller r of None \<Rightarrow> False | Some k \<Rightarrow> Allows k Read b))"

lemma quiet_get:
  assumes "sq_faults s = []" "dk_faults s = []" "ValidateBucketName (PathValue r ''bucket'') = None"
    "ValidateObjectKey (PathValue r ''key'') = None" "may_read s r (PathValue r ''bucket'')"
    "stored (sq_view s) (PathValue r ''bucket'') (PathValue r ''key'') ob bytes"
  shows "getObject (server cfg) ev w r s =
    (ServeContent (ev_ParseTime ev) (ev_boundary ev) (object_headers w ob) r (o_CreatedAt ob) bytes, s)"
proof -
  let ?b = "PathValue r ''bucket''" and ?k = "PathValue r ''key''"
  obtain br where br: "map_of (sq_buckets s) ?b = Some br"
    "br_public br \<or> (case rq_caller r of None \<Rightarrow> False | Some k \<Rightarrow> Allows k Read ?b)"
    using assms(5) by (auto simp: may_read_def split: option.splits)
  then have "readableBucket (server cfg) w r ?b s = (Inr (scan_bucket ?b br), s)"
    using assms(1) by (auto simp: readableBucket_def sq_GetBucket_def scan_bucket_def split: option.splits)
  moreover from assms(6) obtain row where "map_of (sq_objects s) (?b, ?k) = Some row" "ob = scan_object ?b ?k row"
    by (auto simp: stored_def sq_view_def)
  then have "sq_GetObject ?b ?k s = (Inr ob, s)" using assms(1) by (simp add: sq_GetObject_def)
  moreover have "disk_Open (o_BlobID ob) s = (Inr bytes, s)"
    using assms(2,6) by (auto simp: disk_Open_def stored_def sq_view_def blobs_of_def split: option.splits)
  ultimately show ?thesis using assms(3,4) by (simp add: getObject_def Let_def)
qed

lemma get_object_answers:
  assumes "sq_faults s = []" "dk_faults s = []" "ValidateBucketName (PathValue r ''bucket'') = None"
    "ValidateObjectKey (PathValue r ''key'') = None" "may_read s r (PathValue r ''bucket'')"
    "stored (sq_view s) (PathValue r ''bucket'') (PathValue r ''key'') ob bytes"
    "\<forall>n \<in> set conditional_headers. Header_Get (rq_Header r) n = []" "rq_Method r \<noteq> ''HEAD''"
  shows "rs_status (fst (getObject (server cfg) ev w r s)) = 200 \<and> accepted (fst (getObject (server cfg) ev w r s))"
  by (simp add: quiet_get [OF assms(1-6)] accepted_def ServeContent_plain [OF assms(7,8)])

text \<open>
  C18. Nothing but faults stands in the way: with no driver call and no disk operation failing, a PUT
  with a valid bucket and key, a body of the announced length within the limit, a checksum that is
  absent or right and an unused blob id is answered 201, and a plain GET of the key that follows,
  by a reader of the bucket, is answered 200.
\<close>

theorem put_then_get_succeeds:
  assumes "sq_inv s" "consistent (sq_view s)" "sq_faults s = []" "dk_faults s = []"
    and "ValidateBucketName (PathValue r ''bucket'') = None" "ValidateObjectKey (PathValue r ''key'') = None"
    and "rq_ContentLength r = int (length (rd_bytes (rq_Body r)))" "rq_ContentLength r \<le> maxBodyLength"
    and "rd_end (rq_Body r) = BodyEOF" "meta_headers (rq_Header r) [] = Some md"
    and "wantChecksum w r = Inr want" "want = None \<or> want = Some (crc32c (rd_bytes (rq_Body r)))"
    and "length (ev_blob ev) = 16" "blobs_of (dk_files s) (hex_encode (ev_blob ev)) = None"
    and "may_read s r' (PathValue r ''bucket'')"
    and "PathValue r' ''bucket'' = PathValue r ''bucket''" "PathValue r' ''key'' = PathValue r ''key''"
    and "\<forall>n \<in> set conditional_headers. Header_Get (rq_Header r') n = []" "rq_Method r' \<noteq> ''HEAD''"
  shows "case putObject (server cfg) ev w r s of (rs, s1) \<Rightarrow>
    rs_status rs = 201 \<and> rs_status (fst (getObject (server cfg) ev' w' r' s1)) = 200"
proof -
  obtain rs s1 where put: "putObject (server cfg) ev w r s = (rs, s1)" by (metis surj_pair)
  obtain br where br: "map_of (sq_buckets s) (PathValue r ''bucket'') = Some br"
    using assms(15) by (auto simp: may_read_def split: option.splits)
  from put_object_answers [OF assms(3-6) br assms(7-9,11,12,10,13,14) put]
  have ans: "rs_status rs = 201" "sq_faults s1 = []" "dk_faults s1 = []" "sq_buckets s1 = sq_buckets s"
    "accepted rs" by simp_all
  with sq.putObject_stores [OF assms(1,2), of r cfg ev w] put obtain ob where
    "stored (sq_view s1) (PathValue r ''bucket'') (PathValue r ''key'') ob (rd_bytes (rq_Body r))"
    by (auto simp: sat_def)
  moreover have "may_read s1 r' (PathValue r ''bucket'')" using assms(15) ans(4) by (simp add: may_read_def)
  ultimately have "rs_status (fst (getObject (server cfg) ev' w' r' s1)) = 200 \<and>
      accepted (fst (getObject (server cfg) ev' w' r' s1))"
    using assms(5,6,16-19) ans(2,3) by (intro get_object_answers) simp_all
  with put ans(1) show ?thesis by simp
qed

lemma plain_world_ok: "sq_inv plain_world" "consistent (sq_view plain_world)"
proof -
  have "ValidateBucketName ''photos'' = None" by code_simp
  moreover have "blob_of (sq_view plain_world) x = None" for x
    by (cases x) (simp_all add: sq_view_def plain_world_def sq_empty_def)
  ultimately show "sq_inv plain_world" "consistent (sq_view plain_world)"
    by (auto simp: sq_inv_def plain_world_def sq_empty_def consistent_def sq_view_def scan_bucket_def split: if_splits)
qed

lemma plain_names: "ValidateBucketName ''photos'' = None" "ValidateObjectKey ''cat'' = None"
  by code_simp+

lemma object_request_simps [simp]:
  "PathValue (object_request m body) ''bucket'' = ''photos''" "PathValue (object_request m body) ''key'' = ''cat''"
  "rq_ContentLength (object_request m body) = int (length body)"
  "rq_Body (object_request m body) = \<lparr>rd_bytes = body, rd_end = BodyEOF\<rparr>"
  "rq_Header (object_request m body) = []" "rq_Method (object_request m body) = m"
  "wantChecksum w (object_request m body) = Inr None"
  by (simp_all add: object_request_def PathValue_def wantChecksum_def bodyChecksum_def rawQuery_def
    Header_Get_def Values_Get_def Values_Has_def)

lemma put_then_get_succeeds_witness:
  "case putObject (server plain_config) plain_env [] (object_request ''PUT'' [104, 105]) plain_world of (rs, s1) \<Rightarrow>
    rs_status rs = 201 \<and>
    rs_status (fst (getObject (server plain_config) plain_env [] (object_request ''GET'' []) s1)) = 200"
  by (rule put_then_get_succeeds)
    (simp_all add: plain_world_ok plain_names, simp_all add: plain_world_def sq_empty_def maxBodyLength_def
      plain_env_def blobs_of_def may_read_def Header_Get_def Values_Get_def split: option.split)

lemma plain_put:
  "\<exists>rs s1. putObject (server plain_config) plain_env [] (object_request ''PUT'' [104, 105]) plain_world = (rs, s1) \<and>
     accepted rs \<and> sq_faults s1 = [] \<and> dk_faults s1 = [] \<and> sq_buckets s1 = sq_buckets plain_world"
proof -
  obtain rs s1 where put: "putObject (server plain_config) plain_env [] (object_request ''PUT'' [104, 105]) plain_world
      = (rs, s1)" by (metis surj_pair)
  then have "rs_status rs = 201 \<and> accepted rs \<and> sq_faults s1 = [] \<and> dk_faults s1 = [] \<and>
      sq_buckets s1 = sq_buckets plain_world"
    by (intro put_object_answers [where want = None and md = "[]" and br = "\<lparr>br_public = True, br_created = 0\<rparr>", OF _ _ _ _ _ _ _ _ _ _ _ _ _ put])
      (simp_all add: plain_names, simp_all add: plain_world_def sq_empty_def maxBodyLength_def
        plain_env_def blobs_of_def split: option.split)
  with put show ?thesis by blast
qed

lemma get_returns_what_put_stored_witness:
  "case putObject (server plain_config) plain_env [] (object_request ''PUT'' [104, 105]) plain_world of (rs, s1) \<Rightarrow>
    rs_body (fst (getObject (server plain_config) plain_env [] (object_request ''GET'' []) s1)) = BlobBody [104, 105]"
proof -
  obtain rs s1 where put: "putObject (server plain_config) plain_env [] (object_request ''PUT'' [104, 105]) plain_world
      = (rs, s1)" "accepted rs" "sq_faults s1 = []" "dk_faults s1 = []" "sq_buckets s1 = sq_buckets plain_world"
    using plain_put by blast
  obtain rs' s2 where get: "getObject (server plain_config) plain_env [] (object_request ''GET'' []) s1 = (rs', s2)"
    by (metis surj_pair)
  from sq.putObject_stores [OF plain_world_ok, of "object_request ''PUT'' [104, 105]" plain_config plain_env "[]"] put(1,2)
  obtain ob where ob: "stored (sq_view s1) ''photos'' ''cat'' ob [104, 105]"
    by (auto simp: sat_def)
  moreover have "may_read s1 (object_request ''GET'' []) ''photos''"
    by (simp add: may_read_def put(5)) (simp add: plain_world_def)
  ultimately have "accepted rs'"
    using get_object_answers [of s1 "object_request ''GET'' []" ob "[104, 105]" plain_config plain_env "[]"] put(3,4) get
    by (simp add: plain_names Header_Get_def Values_Get_def)
  then show ?thesis
    using get_returns_what_put_stored [OF plain_world_ok put(1,2) get] put(1) get
    by (simp add: Header_Get_def Values_Get_def)
qed

section \<open>Listings\<close>

lemma quiet_list:
  assumes "sq_faults s = []" "ValidateBucketName (PathValue r ''bucket'') = None"
    "may_read s r (PathValue r ''bucket'')" "1 \<le> limit" "limit \<le> 1000"
  shows "accepted (fst (listObjects (server cfg) [] (page_request r pre aft limit) s)) \<and>
    snd (listObjects (server cfg) [] (page_request r pre aft limit) s) = s"
proof -
  let ?b = "PathValue r ''bucket''" and ?r = "page_request r pre aft limit"
  obtain br where br: "map_of (sq_buckets s) ?b = Some br"
    "br_public br \<or> (case rq_caller r of None \<Rightarrow> False | Some k \<Rightarrow> Allows k Read ?b)"
    using assms(3) by (auto simp: may_read_def split: option.splits)
  then have "readableBucket (server cfg) [] ?r ?b s = (Inr (scan_bucket ?b br), s)"
    using assms(1) by (auto simp: readableBucket_def sq_GetBucket_def scan_bucket_def split: option.splits)
  moreover have "\<exists>l. os_ListObjects (h_objects (server cfg)) ?b pre aft limit s = (Inr l, s)"
    using assms(1) by (simp add: sq_object_store_def sq_ListObjects_def db_rows_def)
  ultimately show ?thesis
    using assms(2) by (auto simp: listObjects_def Let_def page_limit [OF assms(4,5)] page_query_values)
qed


definition up_blob :: gostring where "up_blob = replicate 32 (CHR ''0'')"

definition up_path :: "gostring list" where "up_path = [''objects'', ''00'', up_blob]"

lemma up_blob_path: "blob_path up_blob = Some up_path"
  by (simp add: up_blob_def up_path_def blob_path_def validID_def list_all_iff numeral_2_eq_2)

definition listing_world :: sq_world where
  "listing_world = plain_world\<lparr>dk_files := [(up_path, [])],
     sq_objects := [((''photos'', ''cat''), \<lparr>or_blob_id = up_blob, or_size = 0, or_content_type = ''image/png'',
       or_checksum = ''crc32c=AAAAAA=='', or_metadata = [], or_created = 0\<rparr>)]\<rparr>"

lemma listing_world_ok: "sq_inv listing_world" "consistent (sq_view listing_world)"
  "v_objects (sq_view listing_world) (b, k) =
     (if b = ''photos'' \<and> k = ''cat'' then Some (scan_object ''photos'' ''cat'' (snd (hd (sq_objects listing_world)))) else None)"
proof -
  have view: "v_uploads (sq_view listing_world) i = None"
    "v_objects (sq_view listing_world) (b, k) =
       (if b = ''photos'' \<and> k = ''cat'' then Some (scan_object ''photos'' ''cat'' (snd (hd (sq_objects listing_world)))) else None)"
    "v_buckets (sq_view listing_world) n = (if n = ''photos'' then Some (scan_bucket ''photos'' \<lparr>br_public = True, br_created = 0\<rparr>) else None)"
    for i b k n
    by (auto simp: sq_view_def listing_world_def plain_world_def sq_empty_def)
  moreover have "blob_of (sq_view listing_world) x = (if x = ObjectAt ''photos'' ''cat'' then Some up_blob else None)" for x
    using view(1,2) by (cases x) (auto simp: scan_object_def listing_world_def)
  moreover have "v_blobs (sq_view listing_world) up_blob = Some []"
    by (simp add: sq_view_def listing_world_def blobs_of_def up_blob_path)
  ultimately show "consistent (sq_view listing_world)"
    using plain_names by (auto simp: consistent_def scan_bucket_def scan_object_def split: if_splits)
  show "v_objects (sq_view listing_world) (b, k) =
       (if b = ''photos'' \<and> k = ''cat'' then Some (scan_object ''photos'' ''cat'' (snd (hd (sq_objects listing_world)))) else None)"
    by (rule view(2))
  show "sq_inv listing_world"
    by (auto simp: sq_inv_def listing_world_def plain_world_def sq_empty_def split: if_splits)
qed


section \<open>Uploads\<close>


definition upload_world :: sq_world where
  "upload_world = plain_world\<lparr>dk_files := [(up_path, [])],
     sq_uploads := [(''up'', \<lparr>ur_bucket = ''photos'', ur_key = ''cat'', ur_blob_id = up_blob,
       ur_part_size = 2, ur_content_type = ''image/png'', ur_metadata = [], ur_parts = [], ur_created = 0,
       ur_expires = 2000\<rparr>)]\<rparr>"

definition upload_request :: "gostring \<Rightarrow> byte list \<Rightarrow> json_body \<Rightarrow> request" where
  "upload_request n body js =
     \<lparr>rq_Method = ''PUT'', rq_Path = ''/-/uploads/up'', rq_EscapedPath = ''/-/uploads/up'', rq_RawQuery = [],
      rq_Header = [], rq_ContentLength = int (length body), rq_Body = \<lparr>rd_bytes = body, rd_end = BodyEOF\<rparr>,
      rq_json = js, rq_PathValues = [(''id'', ''up''), (''n'', n)], rq_caller = Some writer_key\<rparr>"

definition count_parts :: "int \<Rightarrow> json_body" where
  "count_parts n = JsonValue (JObj [(''parts'', jint n)])"

lemma upload_request_simps [simp]:
  "PathValue (upload_request n body js) ''id'' = ''up''" "PathValue (upload_request n body js) ''n'' = n"
  "rq_ContentLength (upload_request n body js) = int (length body)"
  "rq_Body (upload_request n body js) = \<lparr>rd_bytes = body, rd_end = BodyEOF\<rparr>"
  "rq_Header (upload_request n body js) = []" "wantChecksum w (upload_request n body js) = Inr None"
  "caller_key (upload_request n body js) = writer_key" "framed (upload_request n body js)"
  by (simp_all add: upload_request_def PathValue_def wantChecksum_def bodyChecksum_def rawQuery_def
    Header_Get_def Values_Get_def Values_Has_def caller_key_def framed_def)

lemma upload_facts: "ParseInt ''1'' = Some 1" "ParseInt ''2'' = Some 2" "Allows writer_key Write ''photos''"
  "blob_path up_blob = Some up_path"
  by (simp_all add: ParseInt_def is_digit_def up_blob_path)
    (simp add: writer_key_def Allows_def scope_of_def Write_def covers_def)

lemma completion_counts:
  "completion (upload_request n body (count_parts 1)) = Decoded \<lparr>cm_Parts = 1, cm_Checksums = None\<rparr>"
  "completion (upload_request n body (count_parts 2)) = Decoded \<lparr>cm_Parts = 2, cm_Checksums = None\<rparr>"
  by (simp_all add: completion_def upload_request_def count_parts_def decode_body_def complete_fields_def
    find_field_def field_def jint_def ParseInt_FormatInt int64_range_def)

text \<open>A part sent to a session of the small server.\<close>

lemma upload_step:
  assumes "sq_faults s = []" "dk_faults s = []" "map_of (sq_uploads s) ''up'' = Some row"
    "ur_bucket row = ''photos''" "ur_blob_id row = up_blob" "ur_part_size row = 2"
    "ur_expires row = 2000" "map_of (dk_files s) up_path = Some old"
    "ParseInt n = Some k" "1 \<le> k" "k \<le> 10000" "body \<noteq> []" "length body \<le> 2"
  shows "\<exists>rs. putUploadPart (server plain_config) plain_env [] (upload_request n body js) s =
    (rs, s\<lparr>dk_files := map_put (dk_files s) up_path
             (write_at old (nat ((k - 1) * 2)) body),
           sq_uploads := map_put (sq_uploads s) ''up'' (row\<lparr>ur_parts := map_put (ur_parts row) k
             \<lparr>p_Size = int (length body), p_Checksum = EncodeCRC32C (crc32c body)\<rparr>\<rparr>)\<rparr>) \<and>
    accepted rs"
proof -
  have "ev_now plain_env 1 \<le> time_Unix (ur_expires row)"
    using assms(7) by (simp add: plain_env_def time_Unix_def Second_def)
  moreover have "int (length body) \<le> ur_part_size row" using assms(6,13) by simp
  ultimately show ?thesis
    using quiet_part [OF assms(1,2), of "upload_request n body js" row plain_env up_path old k "[]" plain_config]
      assms(3-6,8-12) upload_facts(3,4)
    unfolding upload_request_simps by simp
qed

text \<open>The completion of a session of the small server that has a whole first part or two.\<close>

lemma upload_end:
  assumes "sq_faults s = []" "dk_faults s = []" "map_of (sq_uploads s) ''up'' = Some row"
    "ur_bucket row = ''photos''" "ur_expires row = 2000" "map_of (sq_buckets s) ''photos'' = Some br"
    "completion (upload_request n body js) = Decoded \<lparr>cm_Parts = k, cm_Checksums = None\<rparr>" "1 \<le> k"
    "complete_error [] (scan_upload ''up'' row) \<lparr>cm_Parts = k, cm_Checksums = None\<rparr> = None"
    "fold_upload (scan_upload ''up'' row) k \<noteq> None"
  shows "accepted (fst (completeUpload (server plain_config) plain_env [] (upload_request n body js) s))"
proof -
  have "ev_now plain_env 1 \<le> time_Unix (ur_expires row)"
    using assms(5) by (simp add: plain_env_def time_Unix_def Second_def)
  then show ?thesis
    using quiet_completion [OF assms(1,2), of "upload_request n body js" row plain_env br k "[]" plain_config]
      assms(3-4,6-10) upload_facts(3)
    unfolding upload_request_simps by simp
qed

lemma upload_world_ok: "sq_inv upload_world" "consistent (sq_view upload_world)"
  "v_uploads (sq_view upload_world) ''up'' = Some (scan_upload ''up'' (the (map_of (sq_uploads upload_world) ''up'')))"
  "v_blobs (sq_view upload_world) up_blob = Some []"
proof -
  have "v_uploads (sq_view upload_world) i = (if i = ''up'' then Some (scan_upload ''up'' (the (map_of (sq_uploads upload_world) ''up''))) else None)"
    "v_objects (sq_view upload_world) x = None"
    "v_buckets (sq_view upload_world) n = (if n = ''photos'' then Some (scan_bucket ''photos'' \<lparr>br_public = True, br_created = 0\<rparr>) else None)"
    for i x n
    by (cases x; auto simp: sq_view_def upload_world_def plain_world_def sq_empty_def)+
  moreover have "blob_of (sq_view upload_world) x = (if x = SessionOf ''up'' then Some up_blob else None)" for x
    using calculation by (cases x) (auto simp: scan_upload_def upload_world_def)
  moreover show blob: "v_blobs (sq_view upload_world) up_blob = Some []"
    by (simp add: sq_view_def upload_world_def blobs_of_def upload_facts(4))
  ultimately show "consistent (sq_view upload_world)"
    using plain_names by (auto simp: consistent_def scan_bucket_def scan_upload_def upload_world_def split: if_splits)
  show "sq_inv upload_world" "v_uploads (sq_view upload_world) ''up'' =
      Some (scan_upload ''up'' (the (map_of (sq_uploads upload_world) ''up'')))"
    by (auto simp: sq_inv_def upload_world_def plain_world_def sq_empty_def sq_view_def split: if_splits)
qed

definition send :: "gostring \<Rightarrow> byte list \<Rightarrow> env \<times> header \<times> request" where
  "send n body = (plain_env, [], upload_request n body JsonEOF)"

definition record_of :: "byte list \<Rightarrow> part" where
  "record_of body = \<lparr>p_Size = int (length body), p_Checksum = EncodeCRC32C (crc32c body)\<rparr>"

text \<open>The small server after two parts.\<close>

lemma two_sends:
  assumes "ParseInt n1 = Some k1" "1 \<le> k1" "k1 \<le> 10000" "b1 \<noteq> []" "length b1 \<le> 2"
    and "ParseInt n2 = Some k2" "1 \<le> k2" "k2 \<le> 10000" "b2 \<noteq> []" "length b2 \<le> 2"
  shows "\<exists>s2 row2. send_parts (server plain_config) [send n1 b1, send n2 b2] upload_world = Some s2 \<and>
    sq_faults s2 = [] \<and> dk_faults s2 = [] \<and> map_of (sq_uploads s2) ''up'' = Some row2 \<and>
    ur_bucket row2 = ''photos'' \<and> ur_key row2 = ''cat'' \<and> ur_blob_id row2 = up_blob \<and> ur_part_size row2 = 2 \<and>
    ur_expires row2 = 2000 \<and> map_of (sq_buckets s2) ''photos'' = Some \<lparr>br_public = True, br_created = 0\<rparr> \<and>
    map_of (ur_parts row2) = [k1 \<mapsto> record_of b1, k2 \<mapsto> record_of b2] \<and>
    map_of (dk_files s2) up_path = Some (write_at (write_at [] (nat ((k1 - 1) * 2)) b1) (nat ((k2 - 1) * 2)) b2)"
proof -
  define row where "row = the (map_of (sq_uploads upload_world) ''up'')"
  have row: "map_of (sq_uploads upload_world) ''up'' = Some row" "ur_bucket row = ''photos''"
    "ur_blob_id row = up_blob" "ur_part_size row = 2" "ur_expires row = 2000" "ur_parts row = []" "ur_key row = ''cat''"
    by (simp_all add: row_def upload_world_def)
  have world: "sq_faults upload_world = []" "dk_faults upload_world = []" "map_of (dk_files upload_world) up_path = Some []"
    "map_of (sq_buckets upload_world) ''photos'' = Some \<lparr>br_public = True, br_created = 0\<rparr>"
    by (simp_all add: upload_world_def plain_world_def sq_empty_def)
  let ?old1 = "write_at [] (nat ((k1 - 1) * 2)) b1"
  define row1 where "row1 = row\<lparr>ur_parts := map_put (ur_parts row) k1 (record_of b1)\<rparr>"
  define s1 where "s1 = upload_world\<lparr>dk_files := map_put (dk_files upload_world) up_path ?old1,
    sq_uploads := map_put (sq_uploads upload_world) ''up'' row1\<rparr>"
  from upload_step [OF world(1,2) row(1-5) world(3) assms(1-5), of JsonEOF]
  obtain rs1 where step1: "putUploadPart (server plain_config) plain_env [] (upload_request n1 b1 JsonEOF) upload_world = (rs1, s1)"
    "accepted rs1" by (auto simp: s1_def row1_def record_of_def)
  define row2 where "row2 = row1\<lparr>ur_parts := map_put (ur_parts row1) k2 (record_of b2)\<rparr>"
  define s2 where "s2 = s1\<lparr>dk_files := map_put (dk_files s1) up_path (write_at ?old1 (nat ((k2 - 1) * 2)) b2),
    sq_uploads := map_put (sq_uploads s1) ''up'' row2\<rparr>"
  have at1: "sq_faults s1 = []" "dk_faults s1 = []" "map_of (sq_uploads s1) ''up'' = Some row1"
    "ur_bucket row1 = ''photos''" "ur_blob_id row1 = up_blob" "ur_part_size row1 = 2" "ur_expires row1 = 2000"
    "map_of (dk_files s1) up_path = Some ?old1"
    using row world by (simp_all add: s1_def row1_def)
  from upload_step [OF at1 assms(6-10), of JsonEOF]
  obtain rs2 where step2: "putUploadPart (server plain_config) plain_env [] (upload_request n2 b2 JsonEOF) s1 = (rs2, s2)"
    "accepted rs2" by (auto simp: s2_def row2_def record_of_def)
  show ?thesis
    using step1 step2 row world
    by (intro exI [of _ s2] exI [of _ row2]) (simp add: send_def s2_def s1_def row2_def row1_def)
qed

text \<open>Two parts, the second one first.\<close>

definition two_parts :: "(env \<times> header \<times> request) list" where
  "two_parts = [send ''2'' [33], send ''1'' [104, 105]]"

lemma upto_facts: "[1..2] = [1, 2 :: int]" "[1..1] = [1 :: int]" "[2..2] = [2 :: int]" "[2..1] = ([] :: int list)"
  "[1..0] = ([] :: int list)"
  by (simp_all add: upto.simps)

lemma two_parts_run:
  "\<exists>s1. send_parts (server plain_config) two_parts upload_world = Some s1 \<and>
     accepted (fst (completeUpload (server plain_config) plain_env [] (upload_request [] [] (count_parts 2)) s1))"
proof -
  obtain s2 row2 where s2: "send_parts (server plain_config) two_parts upload_world = Some s2"
    "sq_faults s2 = []" "dk_faults s2 = []" "map_of (sq_uploads s2) ''up'' = Some row2" "ur_bucket row2 = ''photos''"
    "ur_part_size row2 = 2" "ur_expires row2 = 2000"
    "map_of (sq_buckets s2) ''photos'' = Some \<lparr>br_public = True, br_created = 0\<rparr>"
    "map_of (ur_parts row2) = [2 \<mapsto> record_of [33], 1 \<mapsto> record_of [104, 105]]"
    using two_sends [OF upload_facts(2), of "[33]" "''1''" 1 "[104, 105]"] upload_facts(1) unfolding two_parts_def
    by auto
  have "complete_error [] (scan_upload ''up'' row2) \<lparr>cm_Parts = 2, cm_Checksums = None\<rparr> = None"
    "fold_upload (scan_upload ''up'' row2) 2 \<noteq> None"
    using s2(6,9) by (simp_all add: complete_error_def missing_parts_def short_part_def part_at_def scan_upload_def
      fold_upload_def upto_facts record_of_def)
  with upload_end [OF s2(2-5,7,8) completion_counts(2)] s2(1) show ?thesis by simp
qed


section \<open>A part sent twice\<close>

text \<open>The first part sent again with a shorter body; every request is as the contract asks.\<close>

definition shorter_resend :: "(env \<times> header \<times> request) list" where
  "shorter_resend = [send ''1'' [104, 105], send ''1'' [33]]"

text \<open>
  An object need not have the bytes its row promises: when a part is sent again with a
  shorter body, the end of the longer one stays in the blob; both parts and the completion are
  accepted, and the object has size 1 and the checksum of the one byte, while its blob, which a
  GET serves, has two.
\<close>

lemma shorter_resend_keeps_tail:
  "case send_parts (server plain_config) shorter_resend upload_world of None \<Rightarrow> False
   | Some s1 \<Rightarrow> (case completeUpload (server plain_config) plain_env [] (upload_request [] [] (count_parts 1)) s1 of
       (rs, s2) \<Rightarrow> accepted rs \<and> (\<exists>ob. stored (sq_view s2) ''photos'' ''cat'' ob [33, 105] \<and>
         o_Size ob = 1 \<and> o_Checksum ob = EncodeCRC32C (crc32c [33]) \<and> \<not> intact (sq_view s2) ob))"
proof -
  obtain s2 row2 where s2: "send_parts (server plain_config) shorter_resend upload_world = Some s2"
    "sq_faults s2 = []" "dk_faults s2 = []" "map_of (sq_uploads s2) ''up'' = Some row2" "ur_bucket row2 = ''photos''"
    "ur_part_size row2 = 2" "ur_expires row2 = 2000"
    "map_of (sq_buckets s2) ''photos'' = Some \<lparr>br_public = True, br_created = 0\<rparr>"
    "map_of (ur_parts row2) = [1 \<mapsto> record_of [33]]" "ur_key row2 = ''cat''" "ur_blob_id row2 = up_blob"
    "map_of (dk_files s2) up_path = Some (write_at [104, 105] 0 [33])"
    using two_sends [OF upload_facts(1), of "[104, 105]" "''1''" 1 "[33]"] upload_facts(1)
    unfolding shorter_resend_def by auto
  let ?se = "scan_upload ''up'' row2"
  have at: "part_at ?se 1 = record_of [33]" using s2(9) by (simp add: part_at_def scan_upload_def)
  have ok: "complete_error [] ?se \<lparr>cm_Parts = 1, cm_Checksums = None\<rparr> = None" "fold_upload ?se 1 \<noteq> None"
    using s2(6,9) at by (simp_all add: complete_error_def missing_parts_def short_part_def scan_upload_def
      fold_upload_def upto_facts record_of_def)
  obtain rs s3 where cmp: "completeUpload (server plain_config) plain_env [] (upload_request [] [] (count_parts 1)) s2 = (rs, s3)"
    by (metis surj_pair)
  have acc: "accepted rs" using upload_end [OF s2(2-5,7,8) completion_counts(1) _ ok, of "[]" "[]"] cmp by simp
  have keep: "sq_inv s2" "consistent (sq_view s2)"
    using sq.send_parts_keeps [OF s2(1) _ upload_world_ok(1,2)] by (simp_all add: shorter_resend_def send_def)
  have se: "v_uploads (sq_view s2) ''up'' = Some ?se" using s2(4) by (simp add: sq_view_def)
  have blob: "v_blobs (sq_view s2) (u_BlobID ?se) = Some [33, 105]"
    using s2(11,12) upload_facts(4) by (simp add: sq_view_def scan_upload_def blobs_of_def write_at_def)
  have rec: "recorded ?se [33, 105]"
    using s2(6,9) by (auto simp: recorded_def scan_upload_def record_of_def part_slice_def)
  have "u_Bucket ?se = ''photos''" "u_Key ?se = ''cat''" using s2(5,10) by (simp_all add: scan_upload_def)
  with sq.completeUpload_concatenates [OF keep _ blob rec, of "upload_request [] [] (count_parts 1)" plain_config plain_env "[]"]
    se cmp acc completion_counts(1)
  obtain ob where "stored (sq_view s3) ''photos'' ''cat'' ob [33, 105]" "o_Size ob = part_end ?se 1"
    "o_Checksum ob = EncodeCRC32C (crc32c (take (nat (part_end ?se 1)) [33, 105]))"
    by (auto simp: sat_def)
  moreover have "part_end ?se 1 = 1" using at by (simp add: part_end_def record_of_def)
  ultimately show ?thesis
    by (auto simp: s2(1) cmp acc intact_def stored_def intro!: exI [of _ ob])
qed

end
