(* ===== verification/Http_Answers.thy ===== *)
theory Http_Answers
  imports Http_Data
begin

text \<open>
  The answers, whatever the stores do: the kinds of answer every route gives, the limits that an
  accepted request keeps, and what a caller without read access learns of a bucket.
\<close>

section \<open>Kinds of answer\<close>

text \<open>
  An answer of the API: a refusal with one of its codes, a JSON document, an empty 204, or what
  \<open>http.ServeContent\<close> makes of an object (all of it, a part of it, a decided precondition, or a range
  it refuses in plain text).
\<close>

definition api_answer :: "response \<Rightarrow> bool" where
  "api_answer rs \<longleftrightarrow> refusal rs \<or>
     (rs_status rs \<in> {200, 201} \<and> (\<exists>j. rs_body rs = JsonBody j)) \<or>
     (rs_status rs = 204 \<and> rs_body rs = NoBody) \<or> content_answer rs"

text \<open>The answers the mux itself gives: a redirect to the clean path, plain 404, 400 for \<open>*\<close>.\<close>

definition mux_answer :: "response \<Rightarrow> bool" where
  "mux_answer rs \<longleftrightarrow> (\<exists>w r path. rs = Redirect w r path) \<or> (\<exists>w. rs = NotFound w) \<or>
     (\<exists>w. rs = writeHeader w 400)"

lemma api_answer_simps [simp]:
  "refusal rs \<Longrightarrow> api_answer rs" "api_answer (writeJSON w 200 j)" "api_answer (writeJSON w 201 j)"
  "api_answer (writeHeader w 204)"
  by (auto simp: api_answer_def writeJSON_def writeHeader_def)

lemma mux_answer_simps [simp]:
  "mux_answer (Redirect w r path)" "mux_answer (NotFound w)" "mux_answer (writeHeader w 400)"
  by (auto simp: mux_answer_def)

lemma ServeContent_answer: "api_answer (ServeContent pt bd w r t bytes)"
  by (simp add: api_answer_def ServeContent_content)

abbreviation answers :: "response \<times> 's \<Rightarrow> bool" where
  "answers \<equiv> sat (\<lambda>rs _. api_answer rs)"

lemmas branches = sat_if sat_option sat_sum sat_decoded sat_prod

lemma answers_pair [simp]: "answers (rs, s) = api_answer rs"
  by (simp add: sat_def)

lemma key_not_found_refusal [simp]: "refusal (key_not_found w i)"
  by (simp add: key_not_found_def)

lemma readableBucket_refusal: "readableBucket h w r b s = (Inl e, s1) \<Longrightarrow> refusal e"
  by (auto simp: readableBucket_def split: prod.splits sum.splits option.splits if_splits)

lemma storeBody_refusal: "storeBody h w r i want s = (Inl e, s1) \<Longrightarrow> refusal e"
  by (auto simp: storeBody_def Let_def split: prod.splits sum.splits option.splits if_splits)

lemma activeSession_refusal: "activeSession h ev w r s = (Inl e, s1) \<Longrightarrow> refusal e"
  by (auto simp: activeSession_def Let_def refusals split: prod.splits sum.splits option.splits if_splits)

lemmas step_refusals = refusals readableBucket_refusal storeBody_refusal activeSession_refusal

lemma answers_buckets:
  "answers (getBucket h w r s)" "answers (createBucket h ev w r s)" "answers (listBuckets h w r s)"
  "answers (deleteBucket h w r s)" "answers (patchBucket h w r s)"
  unfolding getBucket_def createBucket_def listBuckets_def deleteBucket_def patchBucket_def Let_def
  by (intro branches; simp add: step_refusals)+

lemma answers_keys:
  "answers (getKey h w r s)" "answers (createKey h ev w r s)" "answers (listKeys h w r s)"
  "answers (patchKey h w r s)" "answers (rotateKey h ev w r s)" "answers (deleteKey h w r s)"
  "answers (getSelfKey w r s)"
  unfolding getKey_def createKey_def listKeys_def patchKey_def rotateKey_def deleteKey_def getSelfKey_def Let_def
  by ((intro branches)?; simp add: step_refusals)+

lemma answers_objects:
  "answers (putObject h ev w r s)" "answers (deleteObject h w r s)" "answers (listObjects h w r s)"
  "answers (getObject h ev w r s)"
  unfolding putObject_def deleteObject_def listObjects_def getObject_def recordObject_def Let_def
  by (intro branches; simp add: step_refusals ServeContent_answer)+

lemma answers_uploads:
  "answers (createUpload h ev w r s)" "answers (putUploadPart h ev w r s)" "answers (getUpload h ev w r s)"
  "answers (deleteUpload h ev w r s)" "answers (completeUpload h ev w r s)"
  unfolding createUpload_def putUploadPart_def storePart_def getUpload_def deleteUpload_def completeUpload_def
    finishUpload_def Let_def
  by (intro branches; simp add: step_refusals)+

lemma answers_control: "answers (health w r s)" "answers (version h w r s)" "answers (limits h w r s)"
  by (simp_all add: health_def version_def limits_def)

lemma answers_rules:
  "answers (f w r s) \<Longrightarrow> answers (requireAuth f w r s)" "answers (f w r s) \<Longrightarrow> answers (requireAdmin f w r s)"
  "answers (f w r s) \<Longrightarrow> answers (requireAccess l f w r s)" "answers (f w r s) \<Longrightarrow> answers (reserved f w r s)"
  "answers (f w r s) \<Longrightarrow> answers (headerFormOnly f w r s)"
  by (simp_all add: requireAuth_def requireAdmin_def requireAccess_def reserved_def headerFormOnly_def Let_def)

lemma answers_routes:
  "list_all (\<lambda>(t, f). \<forall>w r s. answers (f w r s)) (routes h ev)"
  unfolding routes_def list.pred_inject prod.case chain.simps
  by (intro conjI allI impI answers_rules answers_control answers_buckets answers_keys answers_objects
    answers_uploads list.pred_inject(1); assumption)

lemma ServeMux_answer:
  "api_answer (fst (ServeMux h ev w r s)) \<or> mux_answer (fst (ServeMux h ev w r s))"
proof -
  have "api_answer (fst (f w (r\<lparr>rq_PathValues := vs\<rparr>) s))" if "map_of (routes h ev) t = Some f" for t f vs
    using map_of_SomeD [OF that] answers_routes [of h ev] unfolding list_all_iff sat_def by fastforce
  then show ?thesis
    by (auto simp: ServeMux_def Let_def notFound_def split: mux_result.split option.split)
qed

text \<open>\<open>authenticate\<close> refuses, or runs the route with or without a caller.\<close>

lemma read_credentials_refusal: "read_credentials h now w r mode = Inl e \<Longrightarrow> refusal e"
  by (auto simp: read_credentials_def Let_def split: option.splits prod.splits if_splits)

lemma verify_refusal: "verify h w r mode ts c s = (Inl e, s1) \<Longrightarrow> refusal e"
  by (auto simp: verify_def Let_def split: option.splits sum.splits prod.splits if_splits)

lemma authenticate_answer:
  assumes "\<And>c s1. P (fst (nxt w (r\<lparr>rq_caller := c\<rparr>) s1))" "\<And>e. refusal e \<Longrightarrow> P e"
  shows "P (fst (authenticate h ev nxt w r s))"
proof -
  have "r\<lparr>rq_caller := rq_caller r\<rparr> = r" by simp
  then have "P (fst (nxt w r s))" using assms(1) [of "rq_caller r" s] by simp
  with assms show ?thesis
    by (auto simp: authenticate_def Let_def dest: read_credentials_refusal verify_refusal
      split: sum.splits prod.splits)
qed


section \<open>Limits\<close>

lemma putObject_limits:
  "sat (\<lambda>rs _. accepted rs \<longrightarrow> 0 \<le> rq_ContentLength r \<and> rq_ContentLength r \<le> 104857600 \<and>
     ValidateBucketName (PathValue r ''bucket'') = None \<and> ValidateObjectKey (PathValue r ''key'') = None)
   (putObject h ev w r s)"
  unfolding putObject_def Let_def
  by (intro branches) (auto simp: sat_def maxBodyLength_def refusals dest: refusal_not_accepted)

lemma putUploadPart_limits:
  "sat (\<lambda>rs _. accepted rs \<longrightarrow> (case ParseInt (PathValue r ''n'') of None \<Rightarrow> False | Some n \<Rightarrow> 1 \<le> n \<and> n \<le> h_maxParts h) \<and>
     rq_ContentLength r \<noteq> 0) (putUploadPart h ev w r s)"
  unfolding putUploadPart_def Let_def
  by (intro branches) (auto simp: sat_def step_refusals dest: refusal_not_accepted dest!: activeSession_refusal)

lemma createUpload_limits:
  "sat (\<lambda>rs _. accepted rs \<longrightarrow> (\<exists>body sz. decode_body create_upload_fields no_upload_body (rq_json r) = Decoded body \<and>
     cu_PartSize body = Some sz \<and> h_partSizeMin h \<le> sz \<and> sz \<le> h_partSizeMax h \<and>
     ValidateBucketName (cu_Bucket body) = None \<and> ValidateObjectKey (cu_Key body) = None))
   (createUpload h ev w r s)"
  unfolding createUpload_def Let_def
  by (intro branches) (auto simp: sat_def refusals dest: refusal_not_accepted)

lemma listLimit_bounds: "listLimit q = Inr n \<Longrightarrow> 1 \<le> n \<and> n \<le> 1000"
  by (auto simp: listLimit_def maxListLimit_def split: if_splits option.splits)


section \<open>What is not disclosed\<close>

text \<open>The lookup of a bucket finds nothing, or a private bucket.\<close>

definition hides :: "'s handler \<Rightarrow> gostring \<Rightarrow> 's \<Rightarrow> bool" where
  "hides h b s \<longleftrightarrow> (\<exists>s1. bs_GetBucket (h_buckets h) b s = (Inl ErrNotFound, s1)) \<or>
     (\<exists>bk s1. bs_GetBucket (h_buckets h) b s = (Inr bk, s1) \<and> \<not> b_Public bk)"

text \<open>The refusal of a caller who may not read a bucket.\<close>

definition unreadable :: "header \<Rightarrow> request \<Rightarrow> gostring \<Rightarrow> response" where
  "unreadable w r b =
     (case rq_caller r of
        None \<Rightarrow> writeAuthError w codeUnauthenticated ''reading from a private bucket requires credentials'' []
      | Some k \<Rightarrow> writeError w codeForbidden (''read access to '' @ b @ '' is required'') [])"

definition blind :: "request \<Rightarrow> gostring \<Rightarrow> bool" where
  "blind r b \<longleftrightarrow> (case rq_caller r of None \<Rightarrow> True | Some k \<Rightarrow> \<not> Allows k Read b)"

lemma readableBucket_blind:
  "hides h b s \<Longrightarrow> blind r b \<Longrightarrow> \<exists>s1. readableBucket h w r b s = (Inl (unreadable w r b), s1)"
  by (auto simp: hides_def blind_def readableBucket_def unreadable_def split: option.splits)

text \<open>
  C20. A private bucket looks like a missing one: a caller who may not read a bucket, or is nobody,
  gets from a GET of an object, of the listing and of the bucket's record the same answer whether
  the bucket is private or does not exist, whatever it holds.
\<close>

theorem private_buckets_are_hidden:
  assumes "hides h (PathValue r ''bucket'') s" "hides h (PathValue r ''bucket'') s'" "blind r (PathValue r ''bucket'')"
  shows "fst (getObject h ev w r s) = fst (getObject h ev' w r s') \<and>
    fst (listObjects h w r s) = fst (listObjects h w r s') \<and>
    fst (chain (getBucket h) [requireAuth, requireAccess Read] w r s) =
      fst (chain (getBucket h) [requireAuth, requireAccess Read] w r s')"
proof (intro conjI)
  obtain s1 s2 where rb: "readableBucket h w r (PathValue r ''bucket'') s = (Inl (unreadable w r (PathValue r ''bucket'')), s1)"
    "readableBucket h w r (PathValue r ''bucket'') s' = (Inl (unreadable w r (PathValue r ''bucket'')), s2)"
    using readableBucket_blind [OF assms(1,3), of w] readableBucket_blind [OF assms(2,3), of w] by blast
  then show "fst (getObject h ev w r s) = fst (getObject h ev' w r s')"
    "fst (listObjects h w r s) = fst (listObjects h w r s')"
    by (simp_all add: getObject_def listObjects_def Let_def)
  show "fst (chain (getBucket h) [requireAuth, requireAccess Read] w r s) =
      fst (chain (getBucket h) [requireAuth, requireAccess Read] w r s')"
    using assms(3) by (auto simp: requireAuth_def requireAccess_def blind_def caller_key_def Let_def split: option.splits)
qed

text \<open>No public bucket is found under any name.\<close>

definition all_private :: "'s handler \<Rightarrow> 's \<Rightarrow> bool" where
  "all_private h s \<longleftrightarrow> (\<forall>b. hides h b s)"

lemma anonymous_rules:
  "rq_caller r = None \<Longrightarrow> fst (requireAuth f w r s) = fst (requireAuth f w r s')"
  "fst (f w r s) = fst (f w r s') \<Longrightarrow> fst (headerFormOnly f w r s) = fst (headerFormOnly f w r s')"
  "fst (f w r s) = fst (f w r s') \<Longrightarrow> fst (reserved f w r s) = fst (reserved f w r s')"
  by (simp_all add: requireAuth_def headerFormOnly_def reserved_def)

lemma anonymous_reads:
  assumes "rq_caller r = None" "all_private h s" "all_private h s'"
  shows "fst (getObject h ev w r s) = fst (getObject h ev w r s')" "fst (listObjects h w r s) = fst (listObjects h w r s')"
proof -
  have "blind r b" for b using assms(1) by (simp add: blind_def)
  then obtain s1 s2 where "readableBucket h w r (PathValue r ''bucket'') s = (Inl (unreadable w r (PathValue r ''bucket'')), s1)"
    "readableBucket h w r (PathValue r ''bucket'') s' = (Inl (unreadable w r (PathValue r ''bucket'')), s2)"
    using readableBucket_blind assms(2,3) unfolding all_private_def by metis
  then show "fst (getObject h ev w r s) = fst (getObject h ev w r s')" "fst (listObjects h w r s) = fst (listObjects h w r s')"
    by (simp_all add: getObject_def listObjects_def Let_def)
qed

lemma anonymous_routes:
  assumes "all_private h s" "all_private h s'"
  shows "list_all (\<lambda>(t, f). \<forall>w r. rq_caller r = None \<longrightarrow> fst (f w r s) = fst (f w r s')) (routes h ev)"
proof -
  have "fst (health w r s) = fst (health w r s')" "fst (version h w r s) = fst (version h w r s')"
    "fst (limits h w r s) = fst (limits h w r s')" for w r
    by (simp_all add: health_def version_def limits_def)
  then show ?thesis
    unfolding routes_def list.pred_inject prod.case chain.simps
    by (intro conjI allI impI anonymous_rules anonymous_reads [OF _ assms] list.pred_inject(1); (assumption | rule refl)?) (blast | simp)+
qed

text \<open>
  C22. Nobody learns nothing: without credentials, and as long as no bucket is public, the mux gives
  every request the same answer from any two states, whatever keys, buckets, objects and uploads
  they hold.
\<close>

theorem anonymous_learns_nothing:
  assumes "rq_caller r = None" "all_private h s" "all_private h s'"
  shows "fst (ServeMux h ev w r s) = fst (ServeMux h ev w r s')"
proof -
  have "fst (f w (r\<lparr>rq_PathValues := vs\<rparr>) s) = fst (f w (r\<lparr>rq_PathValues := vs\<rparr>) s')"
    if "map_of (routes h ev) t = Some f" for t f vs
    using map_of_SomeD [OF that] anonymous_routes [OF assms(2,3), of ev] assms(1) unfolding list_all_iff by fastforce
  then show ?thesis
    by (auto simp: ServeMux_def Let_def notFound_def split: mux_result.split option.split)
qed

end
