(* ===== verification/Http_Samples.thy ===== *)
theory Http_Samples
  imports Http_Storage Http_Answers
begin

text \<open>
  A small server with one stored key, on the memory stores, and the two requests a client makes
  with that key; the properties of signed requests apply to them.
\<close>

definition sample_caller :: apikey where
  "sample_caller = \<lparr>k_ID = ''k'', k_Secret = ''s'', k_Name = ''reader'', k_Admin = False,
     k_Scopes = [(''photos'', Read)], k_Disabled = False, k_CreatedAt = 0\<rparr>"

definition sample_world :: mem_world where
  "sample_world = \<lparr>dk_files = [], dk_faults = [], mm_keys = [(''k'', sample_caller)], mm_buckets = [],
     mm_objects = [], mm_sessions = []\<rparr>"

definition sample_env :: env where
  "sample_env = \<lparr>ev_now = (\<lambda>_. 1000 * Second), ev_blob = [], ev_session = [], ev_keyid = None, ev_secret = None,
     ev_boundary = ''b0'', ev_ParseTime = (\<lambda>_. None), ev_lower = ToLower\<rparr>"

definition sample_get :: sig_request where
  "sample_get = \<lparr>sr_Method = ''GET'', sr_Path = [''photos''], sr_Query = [], sr_Headers = [], sr_SignedHeaders = []\<rparr>"

text \<open>The request as the server receives it.\<close>

definition sample_received :: "gostring \<Rightarrow> header \<Rightarrow> request" where
  "sample_received q hdr =
     \<lparr>rq_Method = ''GET'', rq_Path = ''/photos'', rq_EscapedPath = EncodePath [''photos''], rq_RawQuery = q,
      rq_Header = hdr, rq_ContentLength = 0, rq_Body = \<lparr>rd_bytes = [], rd_end = BodyEOF\<rparr>, rq_json = JsonEOF,
      rq_PathValues = [], rq_caller = None\<rparr>"

lemma sample_lookup:
  "ks_GetKey (h_keys (new_handler (mem_options og))) ''k'' sample_world = (Inr sample_caller, sample_world)"
  by (simp add: new_handler_def mem_options_def mem_key_store_def mem_GetKey_def sample_world_def)

lemmas sample_defs = sample_get_def sample_received_def sample_caller_def sample_env_def new_handler_def
  mem_options_def default_def Second_def same_target_def carries_def

lemma signed_request_accepted_witness:
  "authenticate (new_handler (mem_options no_origins)) sample_env (\<lambda>w r s. (writeHeader w 200, s)) []
     (sample_received [] [(''X-Tunna-Date'', [FormatInt 1000]),
        (''Authorization'', [Authorization sample_get \<lparr>sk_ID = ''k'', sk_Secret = ''s''\<rparr> 1000])]) sample_world =
   (writeHeader [] 200, sample_world)"
proof -
  have "\<forall>k \<in> {''X-Tunna-Date'', ''Authorization''}. CanonicalHeaderKey k = k" by code_simp
  then show ?thesis
    using sample_lookup
    by (subst signed_request_accepted [where req = sample_get and key = "\<lparr>sk_ID = ''k'', sk_Secret = ''s''\<rparr>"
          and ts = 1000 and k = sample_caller and ?s1.0 = sample_world])
      (auto simp: sample_defs EncodeQuery_def encoded_params_def int64_range_def time_Unix_def)
qed

lemma presigned_request_accepted_witness:
  "authenticate (new_handler (mem_options no_origins)) sample_env (\<lambda>w r s. (writeHeader w 200, s)) []
     (sample_received (PresignQuery sample_get \<lparr>sk_ID = ''k'', sk_Secret = ''s''\<rparr> 1500) []) sample_world =
   (writeHeader [] 200, sample_world)"
  using sample_lookup
  by (subst presigned_request_accepted [where req = sample_get and key = "\<lparr>sk_ID = ''k'', sk_Secret = ''s''\<rparr>"
        and ts = 1500 and k = sample_caller and ?s1.0 = sample_world])
    (auto simp: sample_defs int64_range_def Unix_def dur_seconds_def)

section \<open>Answers\<close>


section \<open>A bucket that must not be seen\<close>

text \<open>The sample server without any bucket, and with a private one that holds an object.\<close>

definition secret_world :: mem_world where
  "secret_world = sample_world\<lparr>mm_buckets := [(''photos'', \<lparr>b_Name = ''photos'', b_Public = False, b_CreatedAt = 0\<rparr>)],
     mm_objects := [(''photos'', [(''cat'', \<lparr>o_Bucket = ''photos'', o_Key = ''cat'', o_BlobID = up_blob, o_Size = 0,
       o_ContentType = ''image/png'', o_Checksum = ''crc32c=AAAAAA=='', o_Metadata = [], o_CreatedAt = 0\<rparr>)])]\<rparr>"

lemma sample_hides:
  "hides (new_handler (mem_options og)) b secret_world" "hides (new_handler (mem_options og)) b sample_world"
  by (simp_all add: hides_def new_handler_def mem_options_def mem_bucket_store_def mem_GetBucket_def
    secret_world_def sample_world_def)

lemma private_buckets_are_hidden_witness:
  "fst (getObject (new_handler (mem_options no_origins)) sample_env [] (object_request ''GET'' []\<lparr>rq_caller := None\<rparr>) secret_world) =
   fst (getObject (new_handler (mem_options no_origins)) sample_env [] (object_request ''GET'' []\<lparr>rq_caller := None\<rparr>) sample_world)"
  using private_buckets_are_hidden [of "new_handler (mem_options no_origins)" "object_request ''GET'' []\<lparr>rq_caller := None\<rparr>"
      secret_world sample_world sample_env "[]" sample_env] sample_hides
  by (simp add: blind_def)

lemma anonymous_learns_nothing_witness:
  "fst (ServeMux (new_handler (mem_options no_origins)) sample_env [] (sample_received [] []) secret_world) =
   fst (ServeMux (new_handler (mem_options no_origins)) sample_env [] (sample_received [] []) sample_world)"
  by (rule anonymous_learns_nothing) (simp_all add: all_private_def sample_hides sample_received_def)

end
