(* ===== verification/Http_Calls.thy ===== *)
theory Http_Calls
  imports Http_Router
begin

text \<open>
  A handler as a sequence of calls to the stores.  A goroutine that serves a request runs a handler;
  what the others see of it are its calls to the stores, each atomic, in the order in which they
  fall.  Here the calls and their answers are data, \<open>replay\<close> is a family of stores that answers
  from a list and records what it is asked, and a handler that runs on them tells which call it
  makes next.  Every handler is shown to be a tree of calls, the same tree on every stores.
\<close>

section \<open>Calls and answers\<close>

datatype call =
    KS_GetKey gostring | KS_CreateKey apikey | KS_UpdateKey apikey | KS_DeleteKey gostring | KS_ListKeys
  | BS_CreateBucket bucket | BS_GetBucket gostring | BS_ListBuckets | BS_DeleteBucket gostring | BS_UpdateBucket bucket
  | OS_PutObject object | OS_GetObject gostring gostring | OS_DeleteObject gostring gostring
  | OS_ListObjects gostring gostring gostring int
  | US_CreateUpload upload_session | US_GetUpload gostring | US_PutPart gostring int part
  | US_CompleteUpload gostring object | US_DeleteUpload gostring | US_CountUploads gostring
  | BL_Create "byte list" | BL_Write gostring int reader | BL_Sync gostring | BL_Open gostring | BL_Remove gostring

datatype answer =
    NoAnswer
  | KeyAnswer "store_err + apikey" | KeysAnswer "store_err + apikey list"
  | BucketAnswer "store_err + bucket" | BucketsAnswer "store_err + bucket list"
  | ObjectAnswer "store_err + object" | ObjectsAnswer "store_err + object list"
  | SessionAnswer "store_err + upload_session" | CountAnswer "store_err + nat"
  | IdAnswer "store_err + gostring" | BytesAnswer "store_err + byte list"
  | WriteAnswer "int \<times> store_err option" | DoneAnswer "store_err + unit"

text \<open>An answer of the wrong kind, which no store gives, is read as an error.\<close>

fun key_answer where "key_answer (KeyAnswer r) = r" | "key_answer _ = Inl ErrOther"
fun keys_answer where "keys_answer (KeysAnswer r) = r" | "keys_answer _ = Inl ErrOther"
fun bucket_answer where "bucket_answer (BucketAnswer r) = r" | "bucket_answer _ = Inl ErrOther"
fun buckets_answer where "buckets_answer (BucketsAnswer r) = r" | "buckets_answer _ = Inl ErrOther"
fun object_answer where "object_answer (ObjectAnswer r) = r" | "object_answer _ = Inl ErrOther"
fun objects_answer where "objects_answer (ObjectsAnswer r) = r" | "objects_answer _ = Inl ErrOther"
fun session_answer where "session_answer (SessionAnswer r) = r" | "session_answer _ = Inl ErrOther"
fun count_answer where "count_answer (CountAnswer r) = r" | "count_answer _ = Inl ErrOther"
fun id_answer where "id_answer (IdAnswer r) = r" | "id_answer _ = Inl ErrOther"
fun bytes_answer where "bytes_answer (BytesAnswer r) = r" | "bytes_answer _ = Inl ErrOther"
fun write_answer where "write_answer (WriteAnswer r) = r" | "write_answer _ = (0, Some ErrOther)"
fun done_answer where "done_answer (DoneAnswer r) = r" | "done_answer _ = Inl ErrOther"

fun perform :: "'s handler \<Rightarrow> call \<Rightarrow> 's \<Rightarrow> answer \<times> 's" where
  "perform h (KS_GetKey i) s = apfst KeyAnswer (ks_GetKey (h_keys h) i s)"
| "perform h (KS_CreateKey k) s = apfst DoneAnswer (ks_CreateKey (h_keys h) k s)"
| "perform h (KS_UpdateKey k) s = apfst DoneAnswer (ks_UpdateKey (h_keys h) k s)"
| "perform h (KS_DeleteKey i) s = apfst DoneAnswer (ks_DeleteKey (h_keys h) i s)"
| "perform h KS_ListKeys s = apfst KeysAnswer (ks_ListKeys (h_keys h) s)"
| "perform h (BS_CreateBucket b) s = apfst DoneAnswer (bs_CreateBucket (h_buckets h) b s)"
| "perform h (BS_GetBucket n) s = apfst BucketAnswer (bs_GetBucket (h_buckets h) n s)"
| "perform h BS_ListBuckets s = apfst BucketsAnswer (bs_ListBuckets (h_buckets h) s)"
| "perform h (BS_DeleteBucket n) s = apfst DoneAnswer (bs_DeleteBucket (h_buckets h) n s)"
| "perform h (BS_UpdateBucket b) s = apfst DoneAnswer (bs_UpdateBucket (h_buckets h) b s)"
| "perform h (OS_PutObject ob) s = apfst IdAnswer (os_PutObject (h_objects h) ob s)"
| "perform h (OS_GetObject b k) s = apfst ObjectAnswer (os_GetObject (h_objects h) b k s)"
| "perform h (OS_DeleteObject b k) s = apfst IdAnswer (os_DeleteObject (h_objects h) b k s)"
| "perform h (OS_ListObjects b p a l) s = apfst ObjectsAnswer (os_ListObjects (h_objects h) b p a l s)"
| "perform h (US_CreateUpload se) s = apfst DoneAnswer (us_CreateUpload (h_uploads h) se s)"
| "perform h (US_GetUpload i) s = apfst SessionAnswer (us_GetUpload (h_uploads h) i s)"
| "perform h (US_PutPart i n p) s = apfst DoneAnswer (us_PutPart (h_uploads h) i n p s)"
| "perform h (US_CompleteUpload i ob) s = apfst IdAnswer (us_CompleteUpload (h_uploads h) i ob s)"
| "perform h (US_DeleteUpload i) s = apfst SessionAnswer (us_DeleteUpload (h_uploads h) i s)"
| "perform h (US_CountUploads b) s = apfst CountAnswer (us_CountUploads (h_uploads h) b s)"
| "perform h (BL_Create raw) s = apfst IdAnswer (bl_Create (h_blobs h) raw s)"
| "perform h (BL_Write i off rd) s = apfst WriteAnswer (bl_Write (h_blobs h) i off rd s)"
| "perform h (BL_Sync i) s = apfst DoneAnswer (bl_Sync (h_blobs h) i s)"
| "perform h (BL_Open i) s = apfst BytesAnswer (bl_Open (h_blobs h) i s)"
| "perform h (BL_Remove i) s = apfst DoneAnswer (bl_Remove (h_blobs h) i s)"

section \<open>Stores that answer from a list\<close>

text \<open>The calls made, in order, with what was answered, and the answers still to give.\<close>

type_synonym replay = "(call \<times> answer) list \<times> answer list"

fun asked :: "call \<Rightarrow> replay \<Rightarrow> answer \<times> replay" where
  "asked c (log, []) = (NoAnswer, (log @ [(c, NoAnswer)], []))"
| "asked c (log, a # as) = (a, (log @ [(c, a)], as))"

definition replay_keys :: "replay key_store" where
  "replay_keys =
     \<lparr>ks_GetKey = \<lambda>i t. apfst key_answer (asked (KS_GetKey i) t),
      ks_CreateKey = \<lambda>k t. apfst done_answer (asked (KS_CreateKey k) t),
      ks_UpdateKey = \<lambda>k t. apfst done_answer (asked (KS_UpdateKey k) t),
      ks_DeleteKey = \<lambda>i t. apfst done_answer (asked (KS_DeleteKey i) t),
      ks_ListKeys = \<lambda>t. apfst keys_answer (asked KS_ListKeys t)\<rparr>"

definition replay_buckets :: "replay bucket_store" where
  "replay_buckets =
     \<lparr>bs_CreateBucket = \<lambda>b t. apfst done_answer (asked (BS_CreateBucket b) t),
      bs_GetBucket = \<lambda>n t. apfst bucket_answer (asked (BS_GetBucket n) t),
      bs_ListBuckets = \<lambda>t. apfst buckets_answer (asked BS_ListBuckets t),
      bs_DeleteBucket = \<lambda>n t. apfst done_answer (asked (BS_DeleteBucket n) t),
      bs_UpdateBucket = \<lambda>b t. apfst done_answer (asked (BS_UpdateBucket b) t)\<rparr>"

definition replay_objects :: "replay object_store" where
  "replay_objects =
     \<lparr>os_PutObject = \<lambda>ob t. apfst id_answer (asked (OS_PutObject ob) t),
      os_GetObject = \<lambda>b k t. apfst object_answer (asked (OS_GetObject b k) t),
      os_DeleteObject = \<lambda>b k t. apfst id_answer (asked (OS_DeleteObject b k) t),
      os_ListObjects = \<lambda>b p a l t. apfst objects_answer (asked (OS_ListObjects b p a l) t)\<rparr>"

definition replay_uploads :: "replay upload_store" where
  "replay_uploads =
     \<lparr>us_CreateUpload = \<lambda>se t. apfst done_answer (asked (US_CreateUpload se) t),
      us_GetUpload = \<lambda>i t. apfst session_answer (asked (US_GetUpload i) t),
      us_PutPart = \<lambda>i n p t. apfst done_answer (asked (US_PutPart i n p) t),
      us_CompleteUpload = \<lambda>i ob t. apfst id_answer (asked (US_CompleteUpload i ob) t),
      us_DeleteUpload = \<lambda>i t. apfst session_answer (asked (US_DeleteUpload i) t),
      us_CountUploads = \<lambda>b t. apfst count_answer (asked (US_CountUploads b) t)\<rparr>"

definition replay_blobs :: "replay blob_store" where
  "replay_blobs =
     \<lparr>bl_Create = \<lambda>raw t. apfst id_answer (asked (BL_Create raw) t),
      bl_Write = \<lambda>i off rd t. apfst write_answer (asked (BL_Write i off rd) t),
      bl_Sync = \<lambda>i t. apfst done_answer (asked (BL_Sync i) t),
      bl_Open = \<lambda>i t. apfst bytes_answer (asked (BL_Open i) t),
      bl_Remove = \<lambda>i t. apfst done_answer (asked (BL_Remove i) t)\<rparr>"

definition replaying :: "'s handler \<Rightarrow> replay handler" where
  "replaying h =
     \<lparr>h_serverVersion = h_serverVersion h, h_keys = replay_keys, h_buckets = replay_buckets,
      h_objects = replay_objects, h_blobs = replay_blobs, h_uploads = replay_uploads,
      h_skew = h_skew h, h_maxPresign = h_maxPresign h, h_partSizeMin = h_partSizeMin h,
      h_partSizeMax = h_partSizeMax h, h_maxParts = h_maxParts h, h_uploadTTL = h_uploadTTL h,
      h_origins = h_origins h\<rparr>"

lemma replaying_simps [simp]:
  "h_serverVersion (replaying h) = h_serverVersion h" "h_keys (replaying h) = replay_keys"
  "h_buckets (replaying h) = replay_buckets" "h_objects (replaying h) = replay_objects"
  "h_blobs (replaying h) = replay_blobs" "h_uploads (replaying h) = replay_uploads"
  "h_skew (replaying h) = h_skew h" "h_maxPresign (replaying h) = h_maxPresign h"
  "h_partSizeMin (replaying h) = h_partSizeMin h" "h_partSizeMax (replaying h) = h_partSizeMax h"
  "h_maxParts (replaying h) = h_maxParts h" "h_uploadTTL (replaying h) = h_uploadTTL h"
  "h_origins (replaying h) = h_origins h"
  by (simp_all add: replaying_def)

text \<open>The next call of a request that has been given some answers, or its response when it makes none.\<close>

type_synonym program = "replay \<Rightarrow> response \<times> replay"

definition next_call :: "program \<Rightarrow> answer list \<Rightarrow> call option" where
  "next_call f as =
     (let log = fst (snd (f ([], as))) in if length as < length log then Some (fst (log ! length as)) else None)"

definition response_of :: "program \<Rightarrow> answer list \<Rightarrow> response option" where
  "response_of f as = (if next_call f as = None then Some (fst (f ([], as))) else None)"

section \<open>Trees of calls\<close>

datatype 'a tree = Done 'a | Ask call "answer \<Rightarrow> 'a tree"

primrec run_tree :: "(call \<Rightarrow> 's \<Rightarrow> answer \<times> 's) \<Rightarrow> 'a tree \<Rightarrow> 's \<Rightarrow> 'a \<times> 's" where
  "run_tree ask (Done x) s = (x, s)"
| "run_tree ask (Ask c k) s = (case ask c s of (a, s') \<Rightarrow> run_tree ask (k a) s')"

text \<open>What is left of a tree after some answers, all of them asked for.\<close>

fun after :: "'a tree \<Rightarrow> answer list \<Rightarrow> 'a tree option" where
  "after p [] = Some p"
| "after (Done x) (a # as) = None"
| "after (Ask c k) (a # as) = after (k a) as"

lemma after_append: "after p (as @ bs) = Option.bind (after p as) (\<lambda>q. after q bs)"
  by (induction p as rule: after.induct) auto

lemma asked_log: "\<exists>e. fst (snd (asked c t)) = fst t @ [e]"
  by (cases "(c, t)" rule: asked.cases) auto

lemma run_tree_log: "\<exists>rest. fst (snd (run_tree asked p t)) = fst t @ rest"
proof (induction p arbitrary: t)
  case (Ask c k)
  obtain a t' where a: "asked c t = (a, t')" by (cases "asked c t") simp
  with asked_log [of c t] obtain e where "fst t' = fst t @ [e]" by auto
  moreover obtain rest where "fst (snd (run_tree asked (k a) t')) = fst t' @ rest" using Ask by blast
  ultimately show ?case using a by auto
qed simp

lemma run_tree_after:
  assumes "after p as = Some q"
  shows "\<exists>rest. length rest = length as \<and> run_tree asked p (log, as) = run_tree asked q (log @ rest, [])"
  using assms
proof (induction p as arbitrary: log rule: after.induct)
  case (3 c k a as)
  from 3(1) [of "log @ [(c, a)]"] 3(2) obtain rest where "length rest = length as"
    "run_tree asked (k a) (log @ [(c, a)], as) = run_tree asked q (log @ [(c, a)] @ rest, [])" by auto
  then show ?case by (intro exI [of _ "(c, a) # rest"]) simp
qed auto

lemma next_call_tree:
  assumes "\<And>t. f t = run_tree asked p t" "after p as = Some q"
  shows "next_call f as = (case q of Done x \<Rightarrow> None | Ask c k \<Rightarrow> Some c)"
    "q = Done x \<Longrightarrow> response_of f as = Some x"
proof -
  obtain rest where r: "length rest = length as" "f ([], as) = run_tree asked q (rest, [])"
    using run_tree_after [OF assms(2), of "[]"] assms(1) by auto
  show n: "next_call f as = (case q of Done x \<Rightarrow> None | Ask c k \<Rightarrow> Some c)"
  proof (cases q)
    case (Ask c k)
    obtain more where "fst (snd (run_tree asked (k NoAnswer) (rest @ [(c, NoAnswer)], []))) = (rest @ [(c, NoAnswer)]) @ more"
      using run_tree_log [of "k NoAnswer" "(rest @ [(c, NoAnswer)], [])"] by auto
    with r Ask show ?thesis by (simp add: next_call_def nth_append)
  qed (use r in \<open>simp add: next_call_def\<close>)
  show "q = Done x \<Longrightarrow> response_of f as = Some x"
    using n r by (simp add: response_of_def)
qed

end
