(* ===== verification/Http_Programs.thy ===== *)
theory Http_Programs
  imports Http_Calls
begin

text \<open>
  Every handler is a lawful tree of calls.  What a request may touch is written as its claims: the
  blobs it alone holds (created, or dropped from a row, and not handed over yet), the sessions it
  has read, the session id it may draw and the calls it has left.  A call is permitted only within
  the claims, and the answer changes them.  The proofs walk each handler once, on the replaying
  stores and on any other stores at the same time.
\<close>

section \<open>Claims\<close>

record claims =
  cl_held :: "gostring set"
  cl_known :: "(gostring \<times> gostring \<times> gostring \<times> gostring) set"
  cl_fresh :: "gostring set"
  cl_left :: nat

definition session_facts :: "upload_session \<Rightarrow> gostring \<times> gostring \<times> gostring \<times> gostring" where
  "session_facts se = (u_ID se, u_BlobID se, u_Bucket se, u_Key se)"

fun permitted :: "call \<Rightarrow> claims \<Rightarrow> bool" where
  "permitted (BS_CreateBucket b) G \<longleftrightarrow> 0 < cl_left G \<and> ValidateBucketName (b_Name b) = None"
| "permitted (OS_PutObject ob) G \<longleftrightarrow> 0 < cl_left G \<and> o_BlobID ob \<in> cl_held G \<and> ValidateObjectKey (o_Key ob) = None"
| "permitted (US_CreateUpload se) G \<longleftrightarrow> 0 < cl_left G \<and> u_BlobID se \<in> cl_held G \<and>
     ValidateObjectKey (u_Key se) = None \<and> u_ID se \<in> cl_fresh G"
| "permitted (US_CompleteUpload i ob) G \<longleftrightarrow> 0 < cl_left G \<and> (i, o_BlobID ob, o_Bucket ob, o_Key ob) \<in> cl_known G"
| "permitted (BL_Remove i) G \<longleftrightarrow> 0 < cl_left G \<and> i \<in> cl_held G"
| "permitted c G \<longleftrightarrow> 0 < cl_left G"

text \<open>What the request holds after a call, and which sessions it knows.\<close>

fun held_after :: "call \<Rightarrow> answer \<Rightarrow> gostring set \<Rightarrow> gostring set" where
  "held_after (BL_Create raw) a H = (case id_answer a of Inr i \<Rightarrow> insert i H | Inl e \<Rightarrow> H)"
| "held_after (BL_Remove i) a H = H - {i}"
| "held_after (OS_PutObject ob) a H =
     (case id_answer a of Inr prev \<Rightarrow> (H - {o_BlobID ob}) \<union> ({prev} - {[]}) | Inl e \<Rightarrow> H)"
| "held_after (OS_DeleteObject b k) a H = (case id_answer a of Inr i \<Rightarrow> insert i H | Inl e \<Rightarrow> H)"
| "held_after (US_CreateUpload se) a H = (case done_answer a of Inr _ \<Rightarrow> H - {u_BlobID se} | Inl e \<Rightarrow> H)"
| "held_after (US_CompleteUpload i ob) a H =
     (case id_answer a of Inr prev \<Rightarrow> H \<union> ({prev} - {[]}) | Inl e \<Rightarrow> H)"
| "held_after (US_DeleteUpload i) a H = (case session_answer a of Inr se \<Rightarrow> insert (u_BlobID se) H | Inl e \<Rightarrow> H)"
| "held_after c a H = H"

fun known_after where
  "known_after (US_GetUpload i) a K = (case session_answer a of Inr se \<Rightarrow> insert (session_facts se) K | Inl e \<Rightarrow> K)"
| "known_after c a K = K"

fun fresh_after where
  "fresh_after (US_CreateUpload se) F = F - {u_ID se}"
| "fresh_after c F = F"

definition owed :: "call \<Rightarrow> answer \<Rightarrow> claims \<Rightarrow> claims" where
  "owed c a G =
     \<lparr>cl_held = held_after c a (cl_held G), cl_known = known_after c a (cl_known G),
      cl_fresh = fresh_after c (cl_fresh G), cl_left = cl_left G - 1\<rparr>"

lemma owed_simps [simp]:
  "cl_held (owed c a G) = held_after c a (cl_held G)" "cl_known (owed c a G) = known_after c a (cl_known G)"
  "cl_fresh (owed c a G) = fresh_after c (cl_fresh G)" "cl_left (owed c a G) = cl_left G - 1"
  by (simp_all add: owed_def)

text \<open>Fewer claims permit less.\<close>

definition within :: "claims \<Rightarrow> claims \<Rightarrow> bool" where
  "within G G' \<longleftrightarrow> cl_held G \<subseteq> cl_held G' \<and> cl_known G \<subseteq> cl_known G' \<and> cl_fresh G \<subseteq> cl_fresh G' \<and>
     cl_left G \<le> cl_left G'"

definition no_claims :: claims where
  "no_claims = \<lparr>cl_held = {}, cl_known = {}, cl_fresh = {}, cl_left = 0\<rparr>"

lemma no_claims_simps [simp]:
  "cl_held no_claims = {}" "cl_known no_claims = {}" "cl_fresh no_claims = {}" "cl_left no_claims = 0"
  by (simp_all add: no_claims_def)

lemma within_simps [simp]: "within G G" "within no_claims G"
  by (simp_all add: within_def)

lemma within_trans: "within G G' \<Longrightarrow> within G' G'' \<Longrightarrow> within G G''"
  by (auto simp: within_def)

lemma permitted_within: "within G G' \<Longrightarrow> permitted c G \<Longrightarrow> permitted c G'"
  by (cases c) (auto simp: within_def)

lemma held_within: "H \<subseteq> H' \<Longrightarrow> held_after c a H \<subseteq> held_after c a H'"
  by (cases "(c, a, H)" rule: held_after.cases) (auto split: sum.split)

lemma owed_within: "within G G' \<Longrightarrow> within (owed c a G) (owed c a G')"
proof -
  have "K \<subseteq> K' \<Longrightarrow> known_after c a K \<subseteq> known_after c a K'" for K K'
    by (cases c) (auto split: sum.split)
  moreover have "F \<subseteq> F' \<Longrightarrow> fresh_after c F \<subseteq> fresh_after c F'" for F F' by (cases c) auto
  ultimately show "within G G' \<Longrightarrow> within (owed c a G) (owed c a G')"
    by (auto simp: within_def dest: held_within)
qed

text \<open>A tree whose calls are all permitted, and that ends with at least the claims its result asks for.\<close>

primrec lawful :: "('a \<Rightarrow> claims) \<Rightarrow> 'a tree \<Rightarrow> claims \<Rightarrow> bool" where
  "lawful \<gamma> (Done x) G \<longleftrightarrow> within (\<gamma> x) G"
| "lawful \<gamma> (Ask c k) G \<longleftrightarrow> permitted c G \<and> (\<forall>a. lawful \<gamma> (k a) (owed c a G))"

lemma lawful_within: "lawful \<gamma> p G \<Longrightarrow> within G G' \<Longrightarrow> lawful \<gamma> p G'"
proof (induction p arbitrary: G G')
  case (Ask c k)
  then show ?case using permitted_within owed_within by (metis lawful.simps(2) rangeI)
qed (auto intro: within_trans)

primrec graft :: "('a \<Rightarrow> 'b tree) \<Rightarrow> 'a tree \<Rightarrow> 'b tree" where
  "graft f (Done x) = f x"
| "graft f (Ask c k) = Ask c (\<lambda>a. graft f (k a))"

lemma run_graft: "run_tree ask (graft f p) s = (case run_tree ask p s of (x, s') \<Rightarrow> run_tree ask (f x) s')"
  by (induction p arbitrary: s) (auto split: prod.split)

lemma lawful_graft: "lawful \<gamma> p G \<Longrightarrow> (\<And>x. lawful \<delta> (f x) (\<gamma> x)) \<Longrightarrow> lawful \<delta> (graft f p) G"
  by (induction p arbitrary: G) (auto intro: lawful_within)

section \<open>One tree for two runs\<close>

definition behaves ::
  "'s handler \<Rightarrow> ('a \<Rightarrow> claims) \<Rightarrow> claims \<Rightarrow> (replay \<Rightarrow> 'a \<times> replay) \<Rightarrow> ('s \<Rightarrow> 'a \<times> 's) \<Rightarrow> bool" where
  "behaves h \<gamma> G f g \<longleftrightarrow>
     (\<exists>p. (\<forall>t. f t = run_tree asked p t) \<and> (\<forall>s. g s = run_tree (perform h) p s) \<and> lawful \<gamma> p G)"

named_theorems walks \<open>one rule per construct and store call of the handlers\<close>

lemma behaves_done [walks]: "within (\<gamma> x) G \<Longrightarrow> behaves h \<gamma> G (\<lambda>t. (x, t)) (\<lambda>s. (x, s))"
  unfolding behaves_def by (intro exI [of _ "Done x"]) simp

lemma behaves_ask:
  assumes "permitted c G" "\<And>a. behaves h \<gamma> (owed c a G) (F (sel a)) (F' (sel a))"
    and "\<And>t. op t = apfst sel (asked c t)" "\<And>s. perform h c s = apfst mk (op' s)" "\<And>r. sel (mk r) = r"
  shows "behaves h \<gamma> G (\<lambda>t. case op t of (r, t') \<Rightarrow> F r t') (\<lambda>s. case op' s of (r, s') \<Rightarrow> F' r s')"
proof -
  obtain p where p: "\<And>a t. F (sel a) t = run_tree asked (p a) t"
      "\<And>a s. F' (sel a) s = run_tree (perform h) (p a) s" "\<And>a. lawful \<gamma> (p a) (owed c a G)"
    using assms(2) unfolding behaves_def by metis
  have "(case op' s of (r, s') \<Rightarrow> F' r s') = run_tree (perform h) (Ask c p) s" for s
    using p(2) [of "mk (fst (op' s))"] by (simp add: assms(4,5) split_beta)
  moreover have "(case op t of (r, t') \<Rightarrow> F r t') = run_tree asked (Ask c p) t" for t
    by (cases "asked c t") (simp add: assms(3) p(1))
  ultimately show ?thesis
    unfolding behaves_def using p(3) assms(1) by (intro exI [of _ "Ask c p"]) simp
qed

text \<open>A step of a handler that is a definition of its own.\<close>

lemma behaves_bind:
  assumes "behaves h \<gamma> G f g" "\<And>x. behaves h \<delta> (\<gamma> x) (F x) (F' x)"
  shows "behaves h \<delta> G (\<lambda>t. case f t of (x, t') \<Rightarrow> F x t') (\<lambda>s. case g s of (x, s') \<Rightarrow> F' x s')"
proof -
  obtain p where p: "\<And>t. f t = run_tree asked p t" "\<And>s. g s = run_tree (perform h) p s" "lawful \<gamma> p G"
    using assms(1) unfolding behaves_def by blast
  obtain k where k: "\<And>x t. F x t = run_tree asked (k x) t" "\<And>x s. F' x s = run_tree (perform h) (k x) s"
    "\<And>x. lawful \<delta> (k x) (\<gamma> x)"
    using assms(2) unfolding behaves_def by metis
  have "F = (\<lambda>x. run_tree asked (k x))" "F' = (\<lambda>x. run_tree (perform h) (k x))" by (intro ext; simp add: k)+
  then show ?thesis
    unfolding behaves_def
    by (intro exI [of _ "graft k p"]) (simp add: p(1,2) run_graft lawful_graft [OF p(3) k(3)])
qed

lemma behaves_if [walks]:
  "(b \<Longrightarrow> behaves h \<gamma> G f g) \<Longrightarrow> (\<not> b \<Longrightarrow> behaves h \<gamma> G f' g') \<Longrightarrow>
     behaves h \<gamma> G (\<lambda>t. if b then f t else f' t) (\<lambda>s. if b then g s else g' s)"
  by (cases b) simp_all

lemma behaves_option [walks]:
  "(x = None \<Longrightarrow> behaves h \<gamma> G f g) \<Longrightarrow> (\<And>y. x = Some y \<Longrightarrow> behaves h \<gamma> G (f' y) (g' y)) \<Longrightarrow>
     behaves h \<gamma> G (\<lambda>t. case x of None \<Rightarrow> f t | Some y \<Rightarrow> f' y t) (\<lambda>s. case x of None \<Rightarrow> g s | Some y \<Rightarrow> g' y s)"
  by (cases x) simp_all

lemma behaves_sum [walks]:
  "(\<And>e. x = Inl e \<Longrightarrow> behaves h \<gamma> G (f e) (g e)) \<Longrightarrow> (\<And>y. x = Inr y \<Longrightarrow> behaves h \<gamma> G (f' y) (g' y)) \<Longrightarrow>
     behaves h \<gamma> G (\<lambda>t. case x of Inl e \<Rightarrow> f e t | Inr y \<Rightarrow> f' y t) (\<lambda>s. case x of Inl e \<Rightarrow> g e s | Inr y \<Rightarrow> g' y s)"
  by (cases x) simp_all

lemma behaves_decoded [walks]:
  "(\<And>b. x = Decoded b \<Longrightarrow> behaves h \<gamma> G (f b) (g b)) \<Longrightarrow> behaves h \<gamma> G f1 g1 \<Longrightarrow>
     (\<And>n. behaves h \<gamma> G (f2 n) (g2 n)) \<Longrightarrow>
     behaves h \<gamma> G (\<lambda>t. case x of Decoded b \<Rightarrow> f b t | DecodeSyntax \<Rightarrow> f1 t | DecodeType n \<Rightarrow> f2 n t)
       (\<lambda>s. case x of Decoded b \<Rightarrow> g b s | DecodeSyntax \<Rightarrow> g1 s | DecodeType n \<Rightarrow> g2 n s)"
  by (cases x) simp_all

lemma behaves_pair [walks]:
  "(\<And>a b. x = (a, b) \<Longrightarrow> behaves h \<gamma> G (f a b) (g a b)) \<Longrightarrow>
     behaves h \<gamma> G (\<lambda>t. case x of (a, b) \<Rightarrow> f a b t) (\<lambda>s. case x of (a, b) \<Rightarrow> g a b s)"
  by (cases x) simp

text \<open>A state that is computed only sometimes, behind a result that does not depend on it.\<close>

lemma behaves_if_state [walks]:
  "(b \<Longrightarrow> behaves h \<gamma> G (\<lambda>t. (x, f t)) (\<lambda>s. (x, g s))) \<Longrightarrow> (\<not> b \<Longrightarrow> behaves h \<gamma> G (\<lambda>t. (x, f' t)) (\<lambda>s. (x, g' s))) \<Longrightarrow>
     behaves h \<gamma> G (\<lambda>t. (x, if b then f t else f' t)) (\<lambda>s. (x, if b then g s else g' s))"
  by (cases b) simp_all

section \<open>The calls\<close>

lemma behaves_call:
  assumes "permitted c G" "\<And>r. behaves h \<gamma> (owed c (mk r) G) (F r) (F' r)"
    and "\<And>a. owed c (mk (sel a)) G = owed c a G"
    and "\<And>t. op t = apfst sel (asked c t)" "\<And>s. perform h c s = apfst mk (op' s)" "\<And>r. sel (mk r) = r"
  shows "behaves h \<gamma> G (\<lambda>t. case op t of (r, t') \<Rightarrow> F r t') (\<lambda>s. case op' s of (r, s') \<Rightarrow> F' r s')"
proof (rule behaves_ask [OF assms(1) _ assms(4-6)])
  show "behaves h \<gamma> (owed c a G) (F (sel a)) (F' (sel a))" for a
    using assms(2) [of "sel a"] by (simp only: assms(3))
qed

lemmas replay_stores = replay_keys_def replay_buckets_def replay_objects_def replay_uploads_def replay_blobs_def

lemma behaves_GetKey [walks]:
  assumes "permitted (KS_GetKey i) G" "\<And>r. behaves h \<gamma> (owed (KS_GetKey i) (KeyAnswer r) G) (F r) (F' r)"
  shows "behaves h \<gamma> G (\<lambda>t. case ks_GetKey (h_keys (replaying h)) i t of (r, t') \<Rightarrow> F r t')
    (\<lambda>s. case ks_GetKey (h_keys h) i s of (r, s') \<Rightarrow> F' r s')"
  by (rule behaves_call [OF assms, where sel = key_answer]) (simp_all add: replay_stores owed_def)

lemma behaves_CreateKey [walks]:
  assumes "permitted (KS_CreateKey k) G" "\<And>r. behaves h \<gamma> (owed (KS_CreateKey k) (DoneAnswer r) G) (F r) (F' r)"
  shows "behaves h \<gamma> G (\<lambda>t. case ks_CreateKey (h_keys (replaying h)) k t of (r, t') \<Rightarrow> F r t')
    (\<lambda>s. case ks_CreateKey (h_keys h) k s of (r, s') \<Rightarrow> F' r s')"
  by (rule behaves_call [OF assms, where sel = done_answer]) (simp_all add: replay_stores owed_def)

lemma behaves_UpdateKey [walks]:
  assumes "permitted (KS_UpdateKey k) G" "\<And>r. behaves h \<gamma> (owed (KS_UpdateKey k) (DoneAnswer r) G) (F r) (F' r)"
  shows "behaves h \<gamma> G (\<lambda>t. case ks_UpdateKey (h_keys (replaying h)) k t of (r, t') \<Rightarrow> F r t')
    (\<lambda>s. case ks_UpdateKey (h_keys h) k s of (r, s') \<Rightarrow> F' r s')"
  by (rule behaves_call [OF assms, where sel = done_answer]) (simp_all add: replay_stores owed_def)

lemma behaves_DeleteKey [walks]:
  assumes "permitted (KS_DeleteKey i) G" "\<And>r. behaves h \<gamma> (owed (KS_DeleteKey i) (DoneAnswer r) G) (F r) (F' r)"
  shows "behaves h \<gamma> G (\<lambda>t. case ks_DeleteKey (h_keys (replaying h)) i t of (r, t') \<Rightarrow> F r t')
    (\<lambda>s. case ks_DeleteKey (h_keys h) i s of (r, s') \<Rightarrow> F' r s')"
  by (rule behaves_call [OF assms, where sel = done_answer]) (simp_all add: replay_stores owed_def)

lemma behaves_ListKeys [walks]:
  assumes "permitted KS_ListKeys G" "\<And>r. behaves h \<gamma> (owed KS_ListKeys (KeysAnswer r) G) (F r) (F' r)"
  shows "behaves h \<gamma> G (\<lambda>t. case ks_ListKeys (h_keys (replaying h)) t of (r, t') \<Rightarrow> F r t')
    (\<lambda>s. case ks_ListKeys (h_keys h) s of (r, s') \<Rightarrow> F' r s')"
  by (rule behaves_call [OF assms, where sel = keys_answer]) (simp_all add: replay_stores owed_def)

lemma behaves_CreateBucket [walks]:
  assumes "permitted (BS_CreateBucket b) G" "\<And>r. behaves h \<gamma> (owed (BS_CreateBucket b) (DoneAnswer r) G) (F r) (F' r)"
  shows "behaves h \<gamma> G (\<lambda>t. case bs_CreateBucket (h_buckets (replaying h)) b t of (r, t') \<Rightarrow> F r t')
    (\<lambda>s. case bs_CreateBucket (h_buckets h) b s of (r, s') \<Rightarrow> F' r s')"
  by (rule behaves_call [OF assms, where sel = done_answer]) (simp_all add: replay_stores owed_def)

lemma behaves_GetBucket [walks]:
  assumes "permitted (BS_GetBucket n) G" "\<And>r. behaves h \<gamma> (owed (BS_GetBucket n) (BucketAnswer r) G) (F r) (F' r)"
  shows "behaves h \<gamma> G (\<lambda>t. case bs_GetBucket (h_buckets (replaying h)) n t of (r, t') \<Rightarrow> F r t')
    (\<lambda>s. case bs_GetBucket (h_buckets h) n s of (r, s') \<Rightarrow> F' r s')"
  by (rule behaves_call [OF assms, where sel = bucket_answer]) (simp_all add: replay_stores owed_def)

lemma behaves_ListBuckets [walks]:
  assumes "permitted BS_ListBuckets G" "\<And>r. behaves h \<gamma> (owed BS_ListBuckets (BucketsAnswer r) G) (F r) (F' r)"
  shows "behaves h \<gamma> G (\<lambda>t. case bs_ListBuckets (h_buckets (replaying h)) t of (r, t') \<Rightarrow> F r t')
    (\<lambda>s. case bs_ListBuckets (h_buckets h) s of (r, s') \<Rightarrow> F' r s')"
  by (rule behaves_call [OF assms, where sel = buckets_answer]) (simp_all add: replay_stores owed_def)

lemma behaves_DeleteBucket [walks]:
  assumes "permitted (BS_DeleteBucket n) G" "\<And>r. behaves h \<gamma> (owed (BS_DeleteBucket n) (DoneAnswer r) G) (F r) (F' r)"
  shows "behaves h \<gamma> G (\<lambda>t. case bs_DeleteBucket (h_buckets (replaying h)) n t of (r, t') \<Rightarrow> F r t')
    (\<lambda>s. case bs_DeleteBucket (h_buckets h) n s of (r, s') \<Rightarrow> F' r s')"
  by (rule behaves_call [OF assms, where sel = done_answer]) (simp_all add: replay_stores owed_def)

lemma behaves_UpdateBucket [walks]:
  assumes "permitted (BS_UpdateBucket b) G" "\<And>r. behaves h \<gamma> (owed (BS_UpdateBucket b) (DoneAnswer r) G) (F r) (F' r)"
  shows "behaves h \<gamma> G (\<lambda>t. case bs_UpdateBucket (h_buckets (replaying h)) b t of (r, t') \<Rightarrow> F r t')
    (\<lambda>s. case bs_UpdateBucket (h_buckets h) b s of (r, s') \<Rightarrow> F' r s')"
  by (rule behaves_call [OF assms, where sel = done_answer]) (simp_all add: replay_stores owed_def)

lemma behaves_PutObject [walks]:
  assumes "permitted (OS_PutObject ob) G" "\<And>r. behaves h \<gamma> (owed (OS_PutObject ob) (IdAnswer r) G) (F r) (F' r)"
  shows "behaves h \<gamma> G (\<lambda>t. case os_PutObject (h_objects (replaying h)) ob t of (r, t') \<Rightarrow> F r t')
    (\<lambda>s. case os_PutObject (h_objects h) ob s of (r, s') \<Rightarrow> F' r s')"
  by (rule behaves_call [OF assms, where sel = id_answer]) (simp_all add: replay_stores owed_def)

lemma behaves_GetObject [walks]:
  assumes "permitted (OS_GetObject b k) G" "\<And>r. behaves h \<gamma> (owed (OS_GetObject b k) (ObjectAnswer r) G) (F r) (F' r)"
  shows "behaves h \<gamma> G (\<lambda>t. case os_GetObject (h_objects (replaying h)) b k t of (r, t') \<Rightarrow> F r t')
    (\<lambda>s. case os_GetObject (h_objects h) b k s of (r, s') \<Rightarrow> F' r s')"
  by (rule behaves_call [OF assms, where sel = object_answer]) (simp_all add: replay_stores owed_def)

lemma behaves_DeleteObject [walks]:
  assumes "permitted (OS_DeleteObject b k) G" "\<And>r. behaves h \<gamma> (owed (OS_DeleteObject b k) (IdAnswer r) G) (F r) (F' r)"
  shows "behaves h \<gamma> G (\<lambda>t. case os_DeleteObject (h_objects (replaying h)) b k t of (r, t') \<Rightarrow> F r t')
    (\<lambda>s. case os_DeleteObject (h_objects h) b k s of (r, s') \<Rightarrow> F' r s')"
  by (rule behaves_call [OF assms, where sel = id_answer]) (simp_all add: replay_stores owed_def)

lemma behaves_ListObjects [walks]:
  assumes "permitted (OS_ListObjects b pre aft l) G" "\<And>r. behaves h \<gamma> (owed (OS_ListObjects b pre aft l) (ObjectsAnswer r) G) (F r) (F' r)"
  shows "behaves h \<gamma> G (\<lambda>t. case os_ListObjects (h_objects (replaying h)) b pre aft l t of (r, t') \<Rightarrow> F r t')
    (\<lambda>s. case os_ListObjects (h_objects h) b pre aft l s of (r, s') \<Rightarrow> F' r s')"
  by (rule behaves_call [OF assms, where sel = objects_answer]) (simp_all add: replay_stores owed_def)

lemma behaves_CreateUpload [walks]:
  assumes "permitted (US_CreateUpload se) G" "\<And>r. behaves h \<gamma> (owed (US_CreateUpload se) (DoneAnswer r) G) (F r) (F' r)"
  shows "behaves h \<gamma> G (\<lambda>t. case us_CreateUpload (h_uploads (replaying h)) se t of (r, t') \<Rightarrow> F r t')
    (\<lambda>s. case us_CreateUpload (h_uploads h) se s of (r, s') \<Rightarrow> F' r s')"
  by (rule behaves_call [OF assms, where sel = done_answer]) (simp_all add: replay_stores owed_def)

lemma behaves_GetUpload [walks]:
  assumes "permitted (US_GetUpload i) G" "\<And>r. behaves h \<gamma> (owed (US_GetUpload i) (SessionAnswer r) G) (F r) (F' r)"
  shows "behaves h \<gamma> G (\<lambda>t. case us_GetUpload (h_uploads (replaying h)) i t of (r, t') \<Rightarrow> F r t')
    (\<lambda>s. case us_GetUpload (h_uploads h) i s of (r, s') \<Rightarrow> F' r s')"
  by (rule behaves_call [OF assms, where sel = session_answer]) (simp_all add: replay_stores owed_def)

lemma behaves_PutPart [walks]:
  assumes "permitted (US_PutPart i n p) G" "\<And>r. behaves h \<gamma> (owed (US_PutPart i n p) (DoneAnswer r) G) (F r) (F' r)"
  shows "behaves h \<gamma> G (\<lambda>t. case us_PutPart (h_uploads (replaying h)) i n p t of (r, t') \<Rightarrow> F r t')
    (\<lambda>s. case us_PutPart (h_uploads h) i n p s of (r, s') \<Rightarrow> F' r s')"
  by (rule behaves_call [OF assms, where sel = done_answer]) (simp_all add: replay_stores owed_def)

lemma behaves_CompleteUpload [walks]:
  assumes "permitted (US_CompleteUpload i ob) G" "\<And>r. behaves h \<gamma> (owed (US_CompleteUpload i ob) (IdAnswer r) G) (F r) (F' r)"
  shows "behaves h \<gamma> G (\<lambda>t. case us_CompleteUpload (h_uploads (replaying h)) i ob t of (r, t') \<Rightarrow> F r t')
    (\<lambda>s. case us_CompleteUpload (h_uploads h) i ob s of (r, s') \<Rightarrow> F' r s')"
  by (rule behaves_call [OF assms, where sel = id_answer]) (simp_all add: replay_stores owed_def)

lemma behaves_DeleteUpload [walks]:
  assumes "permitted (US_DeleteUpload i) G" "\<And>r. behaves h \<gamma> (owed (US_DeleteUpload i) (SessionAnswer r) G) (F r) (F' r)"
  shows "behaves h \<gamma> G (\<lambda>t. case us_DeleteUpload (h_uploads (replaying h)) i t of (r, t') \<Rightarrow> F r t')
    (\<lambda>s. case us_DeleteUpload (h_uploads h) i s of (r, s') \<Rightarrow> F' r s')"
  by (rule behaves_call [OF assms, where sel = session_answer]) (simp_all add: replay_stores owed_def)

lemma behaves_CountUploads [walks]:
  assumes "permitted (US_CountUploads b) G" "\<And>r. behaves h \<gamma> (owed (US_CountUploads b) (CountAnswer r) G) (F r) (F' r)"
  shows "behaves h \<gamma> G (\<lambda>t. case us_CountUploads (h_uploads (replaying h)) b t of (r, t') \<Rightarrow> F r t')
    (\<lambda>s. case us_CountUploads (h_uploads h) b s of (r, s') \<Rightarrow> F' r s')"
  by (rule behaves_call [OF assms, where sel = count_answer]) (simp_all add: replay_stores owed_def)

lemma behaves_Create [walks]:
  assumes "permitted (BL_Create raw) G" "\<And>r. behaves h \<gamma> (owed (BL_Create raw) (IdAnswer r) G) (F r) (F' r)"
  shows "behaves h \<gamma> G (\<lambda>t. case bl_Create (h_blobs (replaying h)) raw t of (r, t') \<Rightarrow> F r t')
    (\<lambda>s. case bl_Create (h_blobs h) raw s of (r, s') \<Rightarrow> F' r s')"
  by (rule behaves_call [OF assms, where sel = id_answer]) (simp_all add: replay_stores owed_def)

lemma behaves_Write [walks]:
  assumes "permitted (BL_Write i off rd) G" "\<And>r. behaves h \<gamma> (owed (BL_Write i off rd) (WriteAnswer r) G) (F r) (F' r)"
  shows "behaves h \<gamma> G (\<lambda>t. case bl_Write (h_blobs (replaying h)) i off rd t of (r, t') \<Rightarrow> F r t')
    (\<lambda>s. case bl_Write (h_blobs h) i off rd s of (r, s') \<Rightarrow> F' r s')"
  by (rule behaves_call [OF assms, where sel = write_answer]) (simp_all add: replay_stores owed_def)

lemma behaves_Sync [walks]:
  assumes "permitted (BL_Sync i) G" "\<And>r. behaves h \<gamma> (owed (BL_Sync i) (DoneAnswer r) G) (F r) (F' r)"
  shows "behaves h \<gamma> G (\<lambda>t. case bl_Sync (h_blobs (replaying h)) i t of (r, t') \<Rightarrow> F r t')
    (\<lambda>s. case bl_Sync (h_blobs h) i s of (r, s') \<Rightarrow> F' r s')"
  by (rule behaves_call [OF assms, where sel = done_answer]) (simp_all add: replay_stores owed_def)

lemma behaves_Open [walks]:
  assumes "permitted (BL_Open i) G" "\<And>r. behaves h \<gamma> (owed (BL_Open i) (BytesAnswer r) G) (F r) (F' r)"
  shows "behaves h \<gamma> G (\<lambda>t. case bl_Open (h_blobs (replaying h)) i t of (r, t') \<Rightarrow> F r t')
    (\<lambda>s. case bl_Open (h_blobs h) i s of (r, s') \<Rightarrow> F' r s')"
  by (rule behaves_call [OF assms, where sel = bytes_answer]) (simp_all add: replay_stores owed_def)

text \<open>The removal of a blob, whose result every handler ignores.\<close>

lemma behaves_Remove [walks]:
  assumes "permitted (BL_Remove i) G" "within (\<gamma> x) (owed (BL_Remove i) NoAnswer G)"
  shows "behaves h \<gamma> G (\<lambda>t. (x, snd (bl_Remove (h_blobs (replaying h)) i t))) (\<lambda>s. (x, snd (bl_Remove (h_blobs h) i s)))"
proof -
  have "behaves h \<gamma> G (\<lambda>t. case bl_Remove (h_blobs (replaying h)) i t of (r, t') \<Rightarrow> (x, t'))
      (\<lambda>s. case bl_Remove (h_blobs h) i s of (r, s') \<Rightarrow> (x, s'))"
    using assms
    by (intro behaves_call [where c = "BL_Remove i" and sel = done_answer and mk = DoneAnswer] behaves_done)
      (simp_all add: replay_stores owed_def)
  then show ?thesis by (simp add: split_beta)
qed

section \<open>The handlers\<close>

text \<open>The claims after a step that only spends calls.\<close>

definition spend :: "nat \<Rightarrow> claims \<Rightarrow> claims" where
  "spend n G = G\<lparr>cl_left := cl_left G - n\<rparr>"

definition if_ok :: "('b \<Rightarrow> claims) \<Rightarrow> 'a + 'b \<Rightarrow> claims" where
  "if_ok \<gamma> x = (case x of Inl _ \<Rightarrow> no_claims | Inr y \<Rightarrow> \<gamma> y)"

lemma spend_simps [simp]:
  "cl_held (spend n G) = cl_held G" "cl_known (spend n G) = cl_known G" "cl_fresh (spend n G) = cl_fresh G"
  "cl_left (spend n G) = cl_left G - n"
  by (simp_all add: spend_def)

lemma if_ok_simps [simp]: "if_ok \<gamma> (Inl e) = no_claims" "if_ok \<gamma> (Inr y) = \<gamma> y"
  by (simp_all add: if_ok_def)

abbreviation answering :: "response \<Rightarrow> claims" where
  "answering rs \<equiv> no_claims"

lemma behaves_buckets:
  assumes "4 \<le> cl_left G"
  shows "behaves h answering G (getBucket (replaying h) w r) (getBucket h w r)"
    "behaves h answering G (createBucket (replaying h) ev w r) (createBucket h ev w r)"
    "behaves h answering G (listBuckets (replaying h) w r) (listBuckets h w r)"
    "behaves h answering G (deleteBucket (replaying h) w r) (deleteBucket h w r)"
    "behaves h answering G (patchBucket (replaying h) w r) (patchBucket h w r)"
  unfolding getBucket_def [abs_def] createBucket_def [abs_def] listBuckets_def [abs_def] deleteBucket_def [abs_def]
    patchBucket_def [abs_def] Let_def
  by (intro walks; use assms in simp)+

lemma behaves_keys:
  assumes "2 \<le> cl_left G"
  shows "behaves h answering G (createKey (replaying h) ev w r) (createKey h ev w r)"
    "behaves h answering G (getKey (replaying h) w r) (getKey h w r)"
    "behaves h answering G (listKeys (replaying h) w r) (listKeys h w r)"
    "behaves h answering G (patchKey (replaying h) w r) (patchKey h w r)"
    "behaves h answering G (rotateKey (replaying h) ev w r) (rotateKey h ev w r)"
    "behaves h answering G (deleteKey (replaying h) w r) (deleteKey h w r)"
    "behaves h answering G (getSelfKey w r) (getSelfKey w r)"
  unfolding createKey_def [abs_def] getKey_def [abs_def] listKeys_def [abs_def] patchKey_def [abs_def]
    rotateKey_def [abs_def] deleteKey_def [abs_def] getSelfKey_def [abs_def] Let_def
  by (intro walks; use assms in simp)+

lemma behaves_readableBucket [walks]:
  assumes "1 \<le> cl_left G" "\<And>x. behaves h \<delta> (if_ok (\<lambda>_. spend 1 G) x) (F x) (F' x)"
  shows "behaves h \<delta> G (\<lambda>t. case readableBucket (replaying h) w r n t of (x, t') \<Rightarrow> F x t')
    (\<lambda>s. case readableBucket h w r n s of (x, s') \<Rightarrow> F' x s')"
proof (rule behaves_bind [OF _ assms(2)])
  show "behaves h (if_ok (\<lambda>_. spend 1 G)) G (readableBucket (replaying h) w r n) (readableBucket h w r n)"
    unfolding readableBucket_def [abs_def] by (intro walks; use assms(1) in \<open>simp add: within_def\<close>)
qed

lemma behaves_storeBody [walks]:
  assumes "3 \<le> cl_left G" "i \<in> cl_held G" "\<And>x. behaves h \<delta> (if_ok (\<lambda>_. spend 2 G) x) (F x) (F' x)"
  shows "behaves h \<delta> G (\<lambda>t. case storeBody (replaying h) w r i want t of (x, t') \<Rightarrow> F x t')
    (\<lambda>s. case storeBody h w r i want s of (x, s') \<Rightarrow> F' x s')"
proof (rule behaves_bind [OF _ assms(3)])
  show "behaves h (if_ok (\<lambda>_. spend 2 G)) G (storeBody (replaying h) w r i want) (storeBody h w r i want)"
    unfolding storeBody_def [abs_def] Let_def by (intro walks; use assms(1,2) in \<open>simp add: within_def\<close>)
qed

lemma behaves_recordObject:
  assumes "2 \<le> cl_left G" "o_BlobID ob \<in> cl_held G" "ValidateObjectKey (o_Key ob) = None"
  shows "behaves h answering G (recordObject (replaying h) w ob) (recordObject h w ob)"
  unfolding recordObject_def [abs_def] Let_def by (intro walks) (use assms in auto)

lemma behaves_objects:
  assumes "6 \<le> cl_left G"
  shows "behaves h answering G (putObject (replaying h) ev w r) (putObject h ev w r)"
    "behaves h answering G (getObject (replaying h) ev w r) (getObject h ev w r)"
    "behaves h answering G (deleteObject (replaying h) w r) (deleteObject h w r)"
    "behaves h answering G (listObjects (replaying h) w r) (listObjects h w r)"
proof -
  show "behaves h answering G (putObject (replaying h) ev w r) (putObject h ev w r)"
    unfolding putObject_def [abs_def] Let_def
    by (intro walks behaves_recordObject) (use assms in auto)
  show "behaves h answering G (getObject (replaying h) ev w r) (getObject h ev w r)"
    "behaves h answering G (deleteObject (replaying h) w r) (deleteObject h w r)"
    "behaves h answering G (listObjects (replaying h) w r) (listObjects h w r)"
    unfolding getObject_def [abs_def] deleteObject_def [abs_def] listObjects_def [abs_def] Let_def
    by (intro walks; use assms in auto)+
qed

definition knowing :: "upload_session \<Rightarrow> claims \<Rightarrow> claims" where
  "knowing se G = (spend 1 G)\<lparr>cl_known := insert (session_facts se) (cl_known G)\<rparr>"

lemma knowing_simps [simp]:
  "cl_held (knowing se G) = cl_held G" "cl_known (knowing se G) = insert (session_facts se) (cl_known G)"
  "cl_fresh (knowing se G) = cl_fresh G" "cl_left (knowing se G) = cl_left G - 1"
  by (simp_all add: knowing_def)

lemma behaves_activeSession [walks]:
  assumes "1 \<le> cl_left G" "\<And>x. behaves h \<delta> (if_ok (\<lambda>se. knowing se G) x) (F x) (F' x)"
  shows "behaves h \<delta> G (\<lambda>t. case activeSession (replaying h) ev w r t of (x, t') \<Rightarrow> F x t')
    (\<lambda>s. case activeSession h ev w r s of (x, s') \<Rightarrow> F' x s')"
proof (rule behaves_bind [OF _ assms(2)])
  show "behaves h (if_ok (\<lambda>se. knowing se G)) G (activeSession (replaying h) ev w r) (activeSession h ev w r)"
    unfolding activeSession_def [abs_def] Let_def by (intro walks; use assms(1) in \<open>simp add: within_def\<close>)
qed

lemma behaves_storePart:
  assumes "3 \<le> cl_left G"
  shows "behaves h answering G (storePart (replaying h) w r se n want) (storePart h w r se n want)"
  unfolding storePart_def [abs_def] Let_def by (intro walks; use assms in simp)

lemma behaves_finishUpload:
  assumes "2 \<le> cl_left G" "(u_ID se, o_BlobID ob, o_Bucket ob, o_Key ob) \<in> cl_known G"
  shows "behaves h answering G (finishUpload (replaying h) w r se ob) (finishUpload h w r se ob)"
  unfolding finishUpload_def [abs_def] Let_def by (intro walks) (use assms in auto)

lemma newSession_replaying [simp]: "newSession (replaying h) ev body sz i = newSession h ev body sz i"
  by (simp add: newSession_def)

lemma behaves_uploads:
  assumes "6 \<le> cl_left G" "''up_'' @ hex_encode (ev_session ev) \<in> cl_fresh G"
  shows "behaves h answering G (createUpload (replaying h) ev w r) (createUpload h ev w r)"
    "behaves h answering G (putUploadPart (replaying h) ev w r) (putUploadPart h ev w r)"
    "behaves h answering G (getUpload (replaying h) ev w r) (getUpload h ev w r)"
    "behaves h answering G (deleteUpload (replaying h) ev w r) (deleteUpload h ev w r)"
    "behaves h answering G (completeUpload (replaying h) ev w r) (completeUpload h ev w r)"
proof -
  show "behaves h answering G (createUpload (replaying h) ev w r) (createUpload h ev w r)"
    unfolding createUpload_def [abs_def] Let_def newSession_replaying replaying_simps(9,10)
    by (intro walks) (use assms in \<open>auto simp: newSession_def\<close>)
  show "behaves h answering G (putUploadPart (replaying h) ev w r) (putUploadPart h ev w r)"
    unfolding putUploadPart_def [abs_def] replaying_simps(10,11)
    by (intro walks behaves_storePart) (use assms in auto)
  show "behaves h answering G (getUpload (replaying h) ev w r) (getUpload h ev w r)"
    "behaves h answering G (deleteUpload (replaying h) ev w r) (deleteUpload h ev w r)"
    unfolding getUpload_def [abs_def] deleteUpload_def [abs_def]
    by (intro walks; use assms in auto)+
  show "behaves h answering G (completeUpload (replaying h) ev w r) (completeUpload h ev w r)"
    unfolding completeUpload_def [abs_def]
    by (intro walks behaves_finishUpload) (use assms in \<open>auto simp: upload_object_def session_facts_def\<close>)
qed

section \<open>The pipeline\<close>

lemma behaves_control:
  "behaves h answering G (health w r) (health w r)"
  "behaves h answering G (version (replaying h) w r) (version h w r)"
  "behaves h answering G (limits (replaying h) w r) (limits h w r)"
  unfolding health_def [abs_def] version_def [abs_def] limits_def [abs_def] replaying_simps
  by (intro walks; simp)+

lemma behaves_rules:
  assumes "\<And>w. behaves h answering G (f w r) (g w r)"
  shows "behaves h answering G (requireAuth f w r) (requireAuth g w r)"
    "behaves h answering G (requireAdmin f w r) (requireAdmin g w r)"
    "behaves h answering G (requireAccess lv f w r) (requireAccess lv g w r)"
    "behaves h answering G (reserved f w r) (reserved g w r)"
    "behaves h answering G (headerFormOnly f w r) (headerFormOnly g w r)"
  unfolding requireAuth_def [abs_def] requireAdmin_def [abs_def] requireAccess_def [abs_def] reserved_def [abs_def]
    headerFormOnly_def [abs_def] Let_def
  by (intro walks assms; simp)+

lemma behaves_routes:
  assumes "6 \<le> cl_left G" "''up_'' @ hex_encode (ev_session ev) \<in> cl_fresh G"
  shows "list_all2 (\<lambda>(t, f) (t', g). t = t' \<and> (\<forall>w r. behaves h answering G (f w r) (g w r)))
    (routes (replaying h) ev) (routes h ev)"
proof -
  have left: "4 \<le> cl_left G" "2 \<le> cl_left G" using assms(1) by simp_all
  show ?thesis
    unfolding routes_def list.rel_inject prod.case chain.simps
    by (intro conjI allI refl list.rel_intros(1) behaves_rules behaves_control behaves_buckets [OF left(1)] behaves_keys [OF left(2)]
      behaves_objects [OF assms(1)] behaves_uploads [OF assms])
qed

lemma behaves_map_of:
  assumes "list_all2 (\<lambda>(t, f) (t', g). t = t' \<and> P f g) rs rs'"
  shows "(map_of rs x = None \<longleftrightarrow> map_of rs' x = None) \<and>
    (\<forall>f g. map_of rs x = Some f \<longrightarrow> map_of rs' x = Some g \<longrightarrow> P f g)"
  using assms by (induction rs rs' rule: list_all2_induct) auto

lemma mux_patterns_replaying [simp]: "mux_patterns (replaying h) ev = mux_patterns h ev"
  by (simp add: mux_patterns_def routes_def)

lemma behaves_ServeMux:
  assumes "6 \<le> cl_left G" "''up_'' @ hex_encode (ev_session ev) \<in> cl_fresh G"
  shows "behaves h answering G (ServeMux (replaying h) ev w r) (ServeMux h ev w r)"
proof (cases "findHandler (mux_patterns h ev) r")
  case (MuxFound p ms)
  note same = behaves_map_of [OF behaves_routes [OF assms, of h], of "mp_text p"]
  have lost: "behaves h answering G (notFound (mux_patterns h ev) w r') (notFound (mux_patterns h ev) w r')" for r'
    unfolding notFound_def [abs_def] Let_def by (intro walks) simp
  show ?thesis
  proof (cases "map_of (routes h ev) (mp_text p)")
    case None
    with same have none: "map_of (routes (replaying h) ev) (mp_text p) = None" by blast
    show ?thesis
      unfolding ServeMux_def [abs_def] Let_def mux_patterns_replaying MuxFound mux_result.case None none option.case
      by (intro walks lost) simp
  next
    case (Some g)
    with same obtain f where some: "map_of (routes (replaying h) ev) (mp_text p) = Some f"
      "\<forall>w r. behaves h answering G (f w r) (g w r)" by (cases "map_of (routes (replaying h) ev) (mp_text p)") auto
    show ?thesis
      unfolding ServeMux_def [abs_def] Let_def mux_patterns_replaying MuxFound mux_result.case Some some(1) option.case
      by (intro walks some(2) [rule_format]) simp
  qed
next
  case (MuxRedirect path t)
  show ?thesis
    unfolding ServeMux_def [abs_def] Let_def mux_patterns_replaying MuxRedirect mux_result.case
    by (intro walks) simp_all
next
  case MuxNone
  show ?thesis
    unfolding ServeMux_def [abs_def] Let_def mux_patterns_replaying MuxNone mux_result.case
    by (intro walks) simp_all
qed

lemma read_credentials_replaying [simp]:
  "read_credentials (replaying h) now w r mode = read_credentials h now w r mode"
  unfolding read_credentials_def replaying_simps ..

lemma behaves_verify [walks]:
  assumes "1 \<le> cl_left G" "\<And>x. behaves h \<delta> (if_ok (\<lambda>_. spend 1 G) x) (F x) (F' x)"
  shows "behaves h \<delta> G (\<lambda>t. case verify (replaying h) w r mode ts c t of (x, t') \<Rightarrow> F x t')
    (\<lambda>s. case verify h w r mode ts c s of (x, s') \<Rightarrow> F' x s')"
proof (rule behaves_bind [OF _ assms(2)])
  show "behaves h (if_ok (\<lambda>_. spend 1 G)) G (verify (replaying h) w r mode ts c) (verify h w r mode ts c)"
    unfolding verify_def [abs_def] by (intro walks; use assms(1) in \<open>simp add: within_def\<close>)
qed

text \<open>One request through the whole server.\<close>

definition serve :: "'s handler \<Rightarrow> env \<Rightarrow> request \<Rightarrow> 's \<Rightarrow> response \<times> 's" where
  "serve h ev r s = cors h (authenticate h ev (ServeMux h ev)) [] r s"

lemma New_serve: "New op ev r s = serve (new_handler op) ev r s"
  by (simp add: New_def serve_def Let_def)

theorem behaves_serve:
  assumes "7 \<le> cl_left G" "''up_'' @ hex_encode (ev_session ev) \<in> cl_fresh G"
  shows "behaves h answering G (serve (replaying h) ev r) (serve h ev r)"
proof -
  have "behaves h answering G (authenticate (replaying h) ev (ServeMux (replaying h) ev) w r)
      (authenticate h ev (ServeMux h ev) w r)" for w
    unfolding authenticate_def [abs_def] Let_def replaying_simps read_credentials_replaying
    by (intro walks behaves_ServeMux) (use assms in auto)
  then show ?thesis
    unfolding serve_def [abs_def] cors_def [abs_def] Let_def replaying_simps
    by (intro walks) simp_all
qed

end
