(* ===== verification/Http_Interleaving.thy ===== *)
theory Http_Interleaving
  imports Http_Programs Http_System
begin

text \<open>
  Requests served at the same time.  The server runs one goroutine per request; the stores make
  each of their calls atomic and nothing else orders the goroutines.  Here any number of requests
  run against one state, and a schedule says whose call comes next.
\<close>

section \<open>Interleavings\<close>

text \<open>One call of the request \<open>i\<close>: nothing, when there is none left to make.\<close>

definition tick :: "'s handler \<Rightarrow> program list \<Rightarrow> nat \<Rightarrow> answer list list \<times> 's \<Rightarrow> answer list list \<times> 's" where
  "tick h fs i c =
     (if i < length fs then
        (case next_call (fs ! i) (fst c ! i) of
           None \<Rightarrow> c
         | Some q \<Rightarrow> (case perform h q (snd c) of (a, s) \<Rightarrow> ((fst c)[i := fst c ! i @ [a]], s)))
      else c)"

definition interleave :: "'s handler \<Rightarrow> program list \<Rightarrow> nat list \<Rightarrow> 's \<Rightarrow> answer list list \<times> 's" where
  "interleave h fs schedule s = fold (tick h fs) schedule (replicate (length fs) [], s)"

text \<open>The requests of the server, each with what it draws from outside.\<close>

definition requests :: "'s handler \<Rightarrow> (env \<times> request) list \<Rightarrow> program list" where
  "requests h ers = map (\<lambda>(ev, r). serve (replaying h) ev (arrives r)) ers"

text \<open>The session id a request draws when it creates a session, and the claims it starts with.\<close>

definition session_draw :: "env \<times> request \<Rightarrow> gostring" where
  "session_draw er = ''up_'' @ hex_encode (ev_session (fst er))"

definition first_claims :: "env \<times> request \<Rightarrow> claims" where
  "first_claims er = \<lparr>cl_held = {}, cl_known = {}, cl_fresh = {session_draw er}, cl_left = 7\<rparr>"

section \<open>Every request is answered, and alone as in the sequential server\<close>

lemma requests_tree:
  assumes "i < length ers"
  shows "\<exists>p. (\<forall>t. (requests h ers ! i) t = run_tree asked p t) \<and>
    (\<forall>s. serve h (fst (ers ! i)) (arrives (snd (ers ! i))) s = run_tree (perform h) p s) \<and>
    lawful answering p (first_claims (ers ! i))"
proof -
  obtain ev r where er: "ers ! i = (ev, r)" by (cases "ers ! i")
  have "behaves h answering (first_claims (ers ! i)) (serve (replaying h) ev (arrives r)) (serve h ev (arrives r))"
    by (rule behaves_serve) (simp_all add: first_claims_def session_draw_def er)
  then show ?thesis using assms unfolding behaves_def requests_def by (simp add: er)
qed

lemma length_requests [simp]: "length (requests h ers) = length ers"
  by (simp add: requests_def)

lemma tick_length [simp]: "length (fst (tick h fs i c)) = length (fst c)"
  by (auto simp: tick_def split: option.split prod.split)

lemma fold_tick_length [simp]: "length (fst (fold (tick h fs) schedule c)) = length (fst c)"
  by (induction schedule arbitrary: c) auto

lemma tick_other: "j \<noteq> i \<Longrightarrow> fst (tick h fs j c) ! i = fst c ! i"
  by (auto simp: tick_def split: option.split prod.split)

text \<open>A request either has nothing left to call or has made a call for every time it was scheduled.\<close>

lemma tick_progress:
  assumes "i < length fs" "length (fst c) = length fs" "next_call (fs ! i) (fst c ! i) = None \<or> n \<le> length (fst c ! i)"
  shows "next_call (fs ! i) (fst (tick h fs j c) ! i) = None \<or>
    (if j = i then Suc n else n) \<le> length (fst (tick h fs j c) ! i)"
proof (cases "j = i")
  case True
  then show ?thesis using assms by (auto simp: tick_def split: option.split prod.split)
qed (use assms(3) in \<open>simp add: tick_other\<close>)

lemma fold_progress:
  assumes "i < length fs" "length (fst c) = length fs" "next_call (fs ! i) (fst c ! i) = None \<or> n \<le> length (fst c ! i)"
  shows "next_call (fs ! i) (fst (fold (tick h fs) schedule c) ! i) = None \<or>
    n + count_list schedule i \<le> length (fst (fold (tick h fs) schedule c) ! i)"
  using assms
proof (induction schedule arbitrary: c n)
  case (Cons j schedule)
  from Cons.IH [OF Cons.prems(1) _ tick_progress [OF Cons.prems, of h j]] Cons.prems(2)
  show ?case by (auto split: if_splits)
qed simp

text \<open>The answers a request has been given are answers to its tree.\<close>

lemma tick_after:
  assumes "\<And>t. (fs ! i) t = run_tree asked p t" "i < length (fst c)" "\<exists>q. after p (fst c ! i) = Some q"
  shows "\<exists>q. after p (fst (tick h fs j c) ! i) = Some q"
proof (cases "j = i \<and> i < length fs")
  case True
  obtain q where q: "after p (fst c ! i) = Some q" using assms(3) by blast
  note nxt = next_call_tree(1) [of "fs ! i", OF assms(1) q]
  show ?thesis
    using True q assms(2) nxt
    by (cases q) (auto simp: tick_def after_append split: prod.split)
next
  case False
  then show ?thesis using assms(3) tick_other [of j i h fs c] by (cases "j = i") (auto simp: tick_def)
qed

lemma fold_after:
  assumes "\<And>t. (fs ! i) t = run_tree asked p t" "i < length (fst c)" "\<exists>q. after p (fst c ! i) = Some q"
  shows "\<exists>q. after p (fst (fold (tick h fs) schedule c) ! i) = Some q"
  using assms(2,3)
proof (induction schedule arbitrary: c)
  case (Cons j schedule)
  from Cons.IH [of "tick h fs j c"] tick_after [of fs i p c h j, OF assms(1) Cons.prems] Cons.prems(1) show ?case by simp
qed simp

lemma lawful_after:
  "lawful \<gamma> p G \<Longrightarrow> after p as = Some q \<Longrightarrow> \<exists>G'. lawful \<gamma> q G' \<and> cl_left G' + length as = cl_left G"
proof (induction p as arbitrary: G rule: after.induct)
  case (3 c k a as)
  have "0 < cl_left G" using 3(2) by (cases c) auto
  moreover obtain G' where "lawful \<gamma> q G'" "cl_left G' + length as = cl_left (owed c a G)"
    using 3 by (metis after.simps(3) lawful.simps(2))
  ultimately show ?case by (intro exI [of _ G']) simp
qed auto

lemma answered_within:
  assumes "i < length ers" "7 \<le> count_list schedule i"
  shows "response_of (requests h ers ! i) (fst (interleave h (requests h ers) schedule s) ! i) \<noteq> None"
proof -
  let ?as = "fst (interleave h (requests h ers) schedule s) ! i"
  obtain p where p: "\<And>t. (requests h ers ! i) t = run_tree asked p t" "lawful answering p (first_claims (ers ! i))"
    using requests_tree [OF assms(1)] by blast
  obtain q where q: "after p ?as = Some q"
    using fold_after [of "requests h ers" i p "(replicate (length ers) [], s)", OF p(1)] assms(1)
    unfolding interleave_def by auto
  note nxt = next_call_tree(1) [of "requests h ers ! i", OF p(1) q]
  have "next_call (requests h ers ! i) ?as = None \<or> count_list schedule i \<le> length ?as"
    using fold_progress [of i "requests h ers" "(replicate (length ers) [], s)" 0] assms(1)
    unfolding interleave_def by auto
  moreover have "next_call (requests h ers ! i) ?as = None" if "7 \<le> length ?as"
  proof -
    obtain G where "lawful answering q G" "cl_left G + length ?as = 7"
      using lawful_after [OF p(2) q] by (auto simp: first_claims_def)
    with that have "lawful answering q G" "cl_left G = 0" by simp_all
    then have "\<exists>x. q = Done x"
    proof (cases q)
      case (Ask c k)
      with \<open>lawful answering q G\<close> have "permitted c G" by simp
      then show ?thesis using \<open>cl_left G = 0\<close> by (cases c) auto
    qed simp
    then show ?thesis using nxt by auto
  qed
  ultimately show ?thesis using assms(2) by (auto simp: response_of_def)
qed

text \<open>A request whose calls are not interrupted does what the handler does in one step.\<close>

lemma fold_alone:
  assumes "\<And>t. (fs ! i) t = run_tree asked p t" "i < length fs" "length (fst c) = length fs"
    and "after p (fst c ! i) = Some q" "lawful \<gamma> q G" "cl_left G \<le> n"
  shows "\<exists>as. fold (tick h fs) (replicate n i) c = ((fst c)[i := as], snd (run_tree (perform h) q (snd c))) \<and>
    after p as = Some (Done (fst (run_tree (perform h) q (snd c))))"
  using assms(3-6)
proof (induction q arbitrary: c n G)
  case (Done x)
  then have "tick h fs i c = c" using next_call_tree(1) [of "fs ! i", OF assms(1) Done.prems(2)] by (simp add: tick_def)
  then have "fold (tick h fs) (replicate n i) c = c" by (induction n) auto
  then show ?case using Done.prems by (intro exI [of _ "fst c ! i"]) simp
next
  case (Ask cl k)
  have "0 < cl_left G" using Ask.prems(3) by (cases cl) auto
  then obtain m where m: "n = Suc m" using Ask.prems(4) by (cases n) auto
  obtain a s where a: "perform h cl (snd c) = (a, s)" by (cases "perform h cl (snd c)")
  have t: "tick h fs i c = ((fst c)[i := fst c ! i @ [a]], s)"
    using next_call_tree(1) [of "fs ! i", OF assms(1) Ask.prems(2)] assms(2) a by (simp add: tick_def)
  have "after p (fst c ! i @ [a]) = Some (k a)" using Ask.prems(2) by (simp add: after_append)
  then have "\<exists>as. fold (tick h fs) (replicate m i) (tick h fs i c) =
      ((fst (tick h fs i c))[i := as], snd (run_tree (perform h) (k a) (snd (tick h fs i c)))) \<and>
      after p as = Some (Done (fst (run_tree (perform h) (k a) (snd (tick h fs i c)))))"
    using Ask.prems assms(2) m t by (intro Ask.IH [where G = "owed cl a G"]) auto
  then show ?case by (simp add: m t a)
qed

definition served :: "'s handler \<Rightarrow> (env \<times> request) list \<Rightarrow> 's \<Rightarrow> 's" where
  "served h ers s = fold (\<lambda>er s. snd (serve h (fst er) (arrives (snd er)) s)) ers s"

lemma served_alone:
  assumes "k \<le> length ers"
  shows "\<exists>ass. fold (tick h (requests h ers)) (concat (map (replicate 7) [0..<k])) (replicate (length ers) [], s) =
      (ass, served h (take k ers) s) \<and> length ass = length ers \<and>
    (\<forall>j < k. response_of (requests h ers ! j) (ass ! j) =
       Some (fst (serve h (fst (ers ! j)) (arrives (snd (ers ! j))) (served h (take j ers) s)))) \<and>
    (\<forall>j. k \<le> j \<longrightarrow> j < length ers \<longrightarrow> ass ! j = [])"
  using assms
proof (induction k)
  case 0
  then show ?case by (simp add: served_def)
next
  case (Suc k)
  let ?fs = "requests h ers" and ?s = "served h (take k ers) s"
  obtain ass where ass: "fold (tick h ?fs) (concat (map (replicate 7) [0..<k])) (replicate (length ers) [], s) = (ass, ?s)"
      "length ass = length ers" "\<forall>j. k \<le> j \<longrightarrow> j < length ers \<longrightarrow> ass ! j = []"
      "\<forall>j < k. response_of (?fs ! j) (ass ! j) =
         Some (fst (serve h (fst (ers ! j)) (arrives (snd (ers ! j))) (served h (take j ers) s)))"
    using Suc by auto
  have k: "k < length ers" using Suc.prems by simp
  obtain p where p: "\<And>t. (?fs ! k) t = run_tree asked p t" "lawful answering p (first_claims (ers ! k))"
      "\<And>s. serve h (fst (ers ! k)) (arrives (snd (ers ! k))) s = run_tree (perform h) p s"
    using requests_tree [OF k] by blast
  obtain as where as: "fold (tick h ?fs) (replicate 7 k) (ass, ?s) = (ass[k := as], snd (run_tree (perform h) p ?s))"
      "after p as = Some (Done (fst (run_tree (perform h) p ?s)))"
    using fold_alone [of ?fs k p "(ass, ?s)" p, OF p(1) _ _ _ p(2), of 7 h] ass k by (auto simp: first_claims_def)
  have "served h (take (Suc k) ers) s = snd (run_tree (perform h) p ?s)"
    using k p(3) by (simp add: served_def take_Suc_conv_app_nth)
  moreover have "response_of (?fs ! k) as = Some (fst (run_tree (perform h) p ?s))"
    using next_call_tree(2) [of "?fs ! k", OF p(1) as(2)] by simp
  ultimately show ?case
    using ass as k p(3) by (intro exI [of _ "ass[k := as]"]) (auto simp: nth_list_update less_Suc_eq)
qed

end
