(* ===== verification/Http_Sharing.thy ===== *)
theory Http_Sharing
  imports Http_Programs Http_Spec
begin

text \<open>
  What requests that run at the same time share: a view whose rows are sound while each request
  holds blobs of its own, and what the change of one row or blob by one request means for the
  claims of all.
\<close>

section \<open>What holds between any two calls\<close>

text \<open>A consistent view, but for the buckets of the rows.\<close>

definition sound :: "view \<Rightarrow> bool" where
  "sound v \<longleftrightarrow>
     (\<forall>n b. v_buckets v n = Some b \<longrightarrow> b_Name b = n \<and> ValidateBucketName n = None) \<and>
     (\<forall>b k ob. v_objects v (b, k) = Some ob \<longrightarrow> o_Bucket ob = b \<and> o_Key ob = k \<and> ValidateObjectKey k = None) \<and>
     (\<forall>i se. v_uploads v i = Some se \<longrightarrow> u_ID se = i \<and> ValidateObjectKey (u_Key se) = None) \<and>
     (\<forall>x i. blob_of v x = Some i \<longrightarrow> v_blobs v i \<noteq> None) \<and>
     (\<forall>x y i. blob_of v x = Some i \<longrightarrow> blob_of v y = Some i \<longrightarrow> x = y)"

definition in_buckets :: "view \<Rightarrow> bool" where
  "in_buckets v \<longleftrightarrow>
     (\<forall>b k. v_objects v (b, k) \<noteq> None \<longrightarrow> v_buckets v b \<noteq> None) \<and>
     (\<forall>i se. v_uploads v i = Some se \<longrightarrow> v_buckets v (u_Bucket se) \<noteq> None)"

lemma consistent_sound: "consistent v \<longleftrightarrow> sound v \<and> in_buckets v"
  unfolding consistent_def sound_def in_buckets_def by blast

definition free :: "view \<Rightarrow> gostring \<Rightarrow> bool" where
  "free v i \<longleftrightarrow> v_blobs v i \<noteq> None \<and> unowned v i"

text \<open>
  What each request holds exists, belongs to no row and to no other request; what it knows of a
  session is still so as long as the session is there; the session id it may draw is unused.
\<close>

definition safe :: "view \<Rightarrow> (nat \<Rightarrow> claims) \<Rightarrow> bool" where
  "safe v g \<longleftrightarrow> sound v \<and>
     (\<forall>j. \<forall>i \<in> cl_held (g j). free v i \<and> (\<forall>k. k \<noteq> j \<longrightarrow> i \<notin> cl_held (g k))) \<and>
     (\<forall>j. \<forall>x \<in> cl_known (g j). \<forall>se. v_uploads v (fst x) = Some se \<longrightarrow> session_facts se = x) \<and>
     (\<forall>j. \<forall>n \<in> cl_fresh (g j). v_uploads v n = None \<and>
        (\<forall>k. n \<notin> fst ` cl_known (g k) \<and> (k \<noteq> j \<longrightarrow> n \<notin> cl_fresh (g k))))"

lemma soundD:
  assumes "sound v"
  shows "v_buckets v n = Some b \<Longrightarrow> b_Name b = n \<and> ValidateBucketName n = None"
    "v_objects v (n, k) = Some ob \<Longrightarrow> o_Bucket ob = n \<and> o_Key ob = k \<and> ValidateObjectKey k = None"
    "v_uploads v i = Some se \<Longrightarrow> u_ID se = i \<and> ValidateObjectKey (u_Key se) = None"
    "blob_of v x = Some i \<Longrightarrow> v_blobs v i \<noteq> None"
    "blob_of v x = Some i \<Longrightarrow> blob_of v y = Some i \<Longrightarrow> x = y"
  using assms unfolding sound_def by blast+

lemma safeD:
  assumes "safe v g"
  shows "sound v" "i \<in> cl_held (g j) \<Longrightarrow> free v i" "i \<in> cl_held (g j) \<Longrightarrow> k \<noteq> j \<Longrightarrow> i \<notin> cl_held (g k)"
    "x \<in> cl_known (g j) \<Longrightarrow> v_uploads v (fst x) = Some se \<Longrightarrow> session_facts se = x"
    "n \<in> cl_fresh (g j) \<Longrightarrow> v_uploads v n = None" "n \<in> cl_fresh (g j) \<Longrightarrow> n \<notin> fst ` cl_known (g k)"
    "n \<in> cl_fresh (g j) \<Longrightarrow> k \<noteq> j \<Longrightarrow> n \<notin> cl_fresh (g k)"
  using assms unfolding safe_def by blast+

lemma held_not_owned: "safe v g \<Longrightarrow> i \<in> cl_held (g j) \<Longrightarrow> blob_of v x \<noteq> Some i"
  using safeD(2) by (auto simp: free_def unowned_def)

text \<open>One request changes the view and its own claims.\<close>

lemma safe_step:
  assumes "safe v g" "sound v'"
    and held: "\<And>i. i \<in> cl_held G \<Longrightarrow> free v' i"
    and others: "\<And>k i. k \<noteq> j \<Longrightarrow> i \<in> cl_held (g k) \<Longrightarrow> free v' i \<and> i \<notin> cl_held G"
    and known: "\<And>x. x \<in> cl_known G \<Longrightarrow>
      x \<in> cl_known (g j) \<or> (\<exists>se. v_uploads v (fst x) = Some se \<and> session_facts se = x)"
    and uploads: "\<And>n se. v_uploads v' n = Some se \<Longrightarrow>
      (\<exists>se0. v_uploads v n = Some se0 \<and> session_facts se0 = session_facts se) \<or> n \<in> cl_fresh (g j) - cl_fresh G"
    and fresh: "cl_fresh G \<subseteq> cl_fresh (g j)"
  shows "safe v' (g(j := G))"
proof -
  let ?g = "g(j := G)"
  have k: "x \<in> cl_known (?g k) \<Longrightarrow> (\<exists>l. x \<in> cl_known (g l)) \<or> (\<exists>se. v_uploads v (fst x) = Some se \<and> session_facts se = x)" for x k
    using known by (metis fun_upd_apply)
  have f: "n \<in> cl_fresh (?g k) \<Longrightarrow> n \<in> cl_fresh (g k)" for n k using fresh by (cases "k = j") auto
  have 1: "free v' i \<and> (\<forall>l. l \<noteq> k \<longrightarrow> i \<notin> cl_held (?g l))" if "i \<in> cl_held (?g k)" for i k
    using that held others safeD(3) [OF assms(1)] by (cases "k = j") auto
  have 2: "session_facts se = x" if "x \<in> cl_known (?g k)" "v_uploads v' (fst x) = Some se" for x k se
  proof -
    have "\<exists>se0. v_uploads v (fst x) = Some se0 \<and> session_facts se0 = session_facts se"
      using uploads [OF that(2)] k [OF that(1)] safeD(5,6) [OF assms(1)] by force
    then show ?thesis using k [OF that(1)] safeD(4) [OF assms(1)] by (metis option.inject)
  qed
  have 3: "v_uploads v' n = None \<and> (\<forall>l. n \<notin> fst ` cl_known (?g l) \<and> (l \<noteq> k \<longrightarrow> n \<notin> cl_fresh (?g l)))"
    if "n \<in> cl_fresh (?g k)" for n k
  proof -
    note n = safeD(5-7) [OF assms(1) f [OF that]]
    have "v_uploads v' n = None"
    proof (rule ccontr)
      assume "v_uploads v' n \<noteq> None"
      then have "n \<in> cl_fresh (g j) - cl_fresh G" using uploads n(1) by fastforce
      then show False using n(3) [of j] that by (cases "k = j") auto
    qed
    moreover have "n \<notin> fst ` cl_known (?g l)" for l using k [of _ l] n(1,2) by force
    moreover have "l \<noteq> k \<longrightarrow> n \<notin> cl_fresh (?g l)" for l using n(3) f by blast
    ultimately show ?thesis by blast
  qed
  show ?thesis unfolding safe_def using assms(2) 1 2 3 by blast
qed

text \<open>The rows stay as they are.\<close>

lemma safe_same:
  assumes "safe v g" "cl_held G \<subseteq> cl_held (g j)" "cl_fresh G \<subseteq> cl_fresh (g j)"
    and "\<And>x. x \<in> cl_known G \<Longrightarrow>
      x \<in> cl_known (g j) \<or> (\<exists>se. v_uploads v (fst x) = Some se \<and> session_facts se = x)"
  shows "safe v (g(j := G))"
proof (rule safe_step [OF assms(1) safeD(1) [OF assms(1)] _ _ assms(4)])
qed (use assms(2,3) safeD(2,3) [OF assms(1)] in auto)

text \<open>A request holds a blob that was not there, or a blob that is no one's and that no one holds.\<close>

lemma free_blobs: "free v i \<Longrightarrow> B i \<noteq> None \<Longrightarrow> free (v\<lparr>v_blobs := B\<rparr>) i"
  by (simp add: free_def unowned_def)

lemma sound_blobs: "sound v \<Longrightarrow> (\<And>x i. blob_of v x = Some i \<Longrightarrow> B i \<noteq> None) \<Longrightarrow> sound (v\<lparr>v_blobs := B\<rparr>)"
  by (simp add: sound_def)

lemma safe_blobs:
  assumes "safe v g" "\<And>i. v_blobs v i \<noteq> None \<Longrightarrow> B i \<noteq> None" "cl_held G \<subseteq> cl_held (g j)"
    "cl_fresh G \<subseteq> cl_fresh (g j)" "cl_known G \<subseteq> cl_known (g j)"
  shows "safe (v\<lparr>v_blobs := B\<rparr>) (g(j := G))"
proof (rule safe_step [OF assms(1)])
  show "sound (v\<lparr>v_blobs := B\<rparr>)"
    using assms(2) soundD(4) [OF safeD(1) [OF assms(1)]] by (intro sound_blobs safeD(1) [OF assms(1)]) auto
qed (use assms safeD(2,3) [OF assms(1)] in \<open>auto simp: free_def unowned_def\<close>)

text \<open>The row of an object: put on a blob the request holds, put on the blob of a session that goes, dropped.\<close>

lemma safe_put_object:
  assumes "safe v g" "o_BlobID ob \<in> cl_held (g j)" "ValidateObjectKey (o_Key ob) = None"
    and cell: "o_Bucket c = o_Bucket ob" "o_Key c = o_Key ob" "o_BlobID c = o_BlobID ob"
    and G: "\<And>i. i \<in> cl_held G \<Longrightarrow> (i \<in> cl_held (g j) \<and> i \<noteq> o_BlobID ob) \<or>
        blob_of v (ObjectAt (o_Bucket ob) (o_Key ob)) = Some i"
      "cl_fresh G \<subseteq> cl_fresh (g j)" "cl_known G \<subseteq> cl_known (g j)"
  shows "safe (v\<lparr>v_objects := (v_objects v)((o_Bucket ob, o_Key ob) \<mapsto> c)\<rparr>) (g(j := G))" (is "safe ?v' _")
proof -
  note sound = safeD(1) [OF assms(1)]
  let ?x = "ObjectAt (o_Bucket ob) (o_Key ob)"
  have owners: "blob_of ?v' x = (if x = ?x then Some (o_BlobID ob) else blob_of v x)" for x
    by (simp add: blob_of_object_put cell)
  have "free v (o_BlobID ob)" using safeD(2) assms(1,2) by blast
  then have "sound ?v'"
    using assms(3) cell soundD [OF sound] unfolding sound_def owners free_def unowned_def by (auto split: if_splits)
  moreover have keep: "free ?v' i" if "free v i" "i \<noteq> o_BlobID ob" for i
    using that owners unfolding free_def unowned_def by (auto split: if_splits)
  moreover have "free ?v' i" if "blob_of v ?x = Some i" for i
  proof -
    have "i \<noteq> o_BlobID ob" using held_not_owned [OF assms(1,2)] that by metis
    moreover have "blob_of v y \<noteq> Some i" if "y \<noteq> ?x" for y
      using soundD(5) [OF sound \<open>blob_of v ?x = Some i\<close>] that by blast
    ultimately show ?thesis
      using soundD(4) [OF sound that] owners unfolding free_def unowned_def by (auto split: if_splits)
  qed
  ultimately show ?thesis
  proof (intro safe_step [OF assms(1)])
    fix k i assume "k \<noteq> j" "i \<in> cl_held (g k)"
    then have "i \<noteq> o_BlobID ob" "i \<notin> cl_held (g j)" "blob_of v ?x \<noteq> Some i" "free v i"
      using safeD(2,3) [OF assms(1)] held_not_owned [OF assms(1)] assms(2) by blast+
    then show "free ?v' i \<and> i \<notin> cl_held G" using G(1) keep by blast
  next
    show "free ?v' i" if "i \<in> cl_held G" for i
      using G(1) [OF that] keep safeD(2) [OF assms(1)] \<open>\<And>i. blob_of v ?x = Some i \<Longrightarrow> free ?v' i\<close> by blast
  qed (use G in auto)
qed

lemma safe_drop_object:
  assumes "safe v g"
    and G: "\<And>i. i \<in> cl_held G \<Longrightarrow> i \<in> cl_held (g j) \<or> blob_of v (ObjectAt b k) = Some i"
      "cl_fresh G \<subseteq> cl_fresh (g j)" "cl_known G \<subseteq> cl_known (g j)"
  shows "safe (v\<lparr>v_objects := (v_objects v)((b, k) := None)\<rparr>) (g(j := G))" (is "safe ?v' _")
proof -
  note sound = safeD(1) [OF assms(1)] and owners = blob_of_object_del [of v b k]
  have "sound ?v'"
    using soundD [OF sound] unfolding sound_def owners by (auto split: if_splits)
  moreover have keep: "free ?v' i" if "free v i" for i
    using that owners unfolding free_def unowned_def by (auto split: if_splits)
  moreover have gone: "free ?v' i" if "blob_of v (ObjectAt b k) = Some i" for i
    using that soundD(4) [OF sound that] soundD(5) [OF sound that] owners
    unfolding free_def unowned_def by (auto split: if_splits)
  ultimately show ?thesis
  proof (intro safe_step [OF assms(1)])
    fix l i assume "l \<noteq> j" "i \<in> cl_held (g l)"
    then have "i \<notin> cl_held (g j)" "blob_of v (ObjectAt b k) \<noteq> Some i" "free v i"
      using safeD(2,3) [OF assms(1)] held_not_owned [OF assms(1)] by blast+
    then show "free ?v' i \<and> i \<notin> cl_held G" using G(1) keep by blast
  next
    show "free ?v' i" if "i \<in> cl_held G" for i
      using G(1) [OF that] keep gone safeD(2) [OF assms(1)] by blast
  qed (use G in auto)
qed

text \<open>The row of a session: new, with a part more, dropped.\<close>

lemma safe_new_session:
  assumes "safe v g" "u_BlobID se \<in> cl_held (g j)" "ValidateObjectKey (u_Key se) = None" "u_ID se \<in> cl_fresh (g j)"
    and cell: "session_facts c = session_facts se"
    and G: "cl_held G \<subseteq> cl_held (g j) - {u_BlobID se}" "cl_fresh G \<subseteq> cl_fresh (g j) - {u_ID se}"
      "cl_known G \<subseteq> cl_known (g j)"
  shows "safe (v\<lparr>v_uploads := (v_uploads v)(u_ID se \<mapsto> c)\<rparr>) (g(j := G))" (is "safe ?v' _")
proof -
  note sound = safeD(1) [OF assms(1)]
  have c: "u_ID c = u_ID se" "u_BlobID c = u_BlobID se" "u_Key c = u_Key se" using cell by (simp_all add: session_facts_def)
  have owners: "blob_of ?v' x = (if x = SessionOf (u_ID se) then Some (u_BlobID se) else blob_of v x)" for x
    by (simp add: blob_of_session_put c)
  have "free v (u_BlobID se)" using safeD(2) assms(1,2) by blast
  then have "sound ?v'"
    using assms(3) c soundD [OF sound] unfolding sound_def owners free_def unowned_def by (auto split: if_splits)
  moreover have keep: "free ?v' i" if "free v i" "i \<noteq> u_BlobID se" for i
    using that owners unfolding free_def unowned_def by (auto split: if_splits)
  ultimately show ?thesis
  proof (intro safe_step [OF assms(1)])
    fix l i assume "l \<noteq> j" "i \<in> cl_held (g l)"
    then have "i \<notin> cl_held (g j)" "free v i" "i \<noteq> u_BlobID se"
      using safeD(2,3) [OF assms(1)] assms(2) by blast+
    then show "free ?v' i \<and> i \<notin> cl_held G" using G(1) keep by blast
  next
    show "free ?v' i" if "i \<in> cl_held G" for i
      using G(1) that keep safeD(2) [OF assms(1)] by blast
  qed (use G assms(4) in \<open>auto split: if_splits\<close>)
qed

lemma safe_set_session:
  assumes "safe v g" "v_uploads v n = Some se" "session_facts c = session_facts se"
    and G: "cl_held G \<subseteq> cl_held (g j)" "cl_fresh G \<subseteq> cl_fresh (g j)" "cl_known G \<subseteq> cl_known (g j)"
  shows "safe (v\<lparr>v_uploads := (v_uploads v)(n \<mapsto> c)\<rparr>) (g(j := G))" (is "safe ?v' _")
proof -
  note sound = safeD(1) [OF assms(1)]
  have c: "u_ID c = u_ID se" "u_BlobID c = u_BlobID se" "u_Key c = u_Key se"
    using assms(3) by (simp_all add: session_facts_def)
  have owners: "blob_of ?v' = blob_of v"
    by (rule ext) (auto simp: blob_of_session_put c assms(2))
  have "sound ?v'"
    using c soundD [OF sound] assms(2) unfolding sound_def owners by (auto split: if_splits)
  moreover have keep: "free ?v' i \<longleftrightarrow> free v i" for i
    using owners unfolding free_def unowned_def by simp
  ultimately show ?thesis
    using assms(2,3) G safeD(2,3) [OF assms(1)]
    by (intro safe_step [OF assms(1)]) (auto split: if_splits)
qed

lemma safe_drop_session:
  assumes "safe v g" "v_uploads v n = Some se"
    and G: "cl_held G \<subseteq> insert (u_BlobID se) (cl_held (g j))" "cl_fresh G \<subseteq> cl_fresh (g j)"
      "cl_known G \<subseteq> cl_known (g j)"
  shows "safe (v\<lparr>v_uploads := (v_uploads v)(n := None)\<rparr>) (g(j := G))" (is "safe ?v' _")
proof -
  note sound = safeD(1) [OF assms(1)] and owners = blob_of_session_del [of v n]
  have own: "blob_of v (SessionOf n) = Some (u_BlobID se)" using assms(2) by simp
  have "sound ?v'"
    using soundD [OF sound] unfolding sound_def owners by (auto split: if_splits)
  moreover have keep: "free ?v' i" if "free v i" for i
    using that owners unfolding free_def unowned_def by (auto split: if_splits)
  moreover have gone: "free ?v' (u_BlobID se)"
    using soundD(4) [OF sound own] soundD(5) [OF sound own] owners
    unfolding free_def unowned_def by (auto split: if_splits)
  ultimately show ?thesis
  proof (intro safe_step [OF assms(1)])
    fix l i assume "l \<noteq> j" "i \<in> cl_held (g l)"
    then have "i \<notin> cl_held (g j)" "i \<noteq> u_BlobID se" "free v i"
      using safeD(2,3) [OF assms(1)] held_not_owned [OF assms(1)] own by blast+
    then show "free ?v' i \<and> i \<notin> cl_held G" using G(1) keep by blast
  next
    show "free ?v' i" if "i \<in> cl_held G" for i
      using G(1) that keep gone safeD(2) [OF assms(1)] by blast
  qed (use G in \<open>auto split: if_splits\<close>)
qed

lemma safe_finish:
  assumes "safe v g" "(n, o_BlobID ob, o_Bucket ob, o_Key ob) \<in> cl_known (g j)" "v_uploads v n \<noteq> None"
    and cell: "o_Bucket c = o_Bucket ob" "o_Key c = o_Key ob" "o_BlobID c = o_BlobID ob"
    and G: "\<And>i. i \<in> cl_held G \<Longrightarrow> i \<in> cl_held (g j) \<or> blob_of v (ObjectAt (o_Bucket ob) (o_Key ob)) = Some i"
      "cl_fresh G \<subseteq> cl_fresh (g j)" "cl_known G \<subseteq> cl_known (g j)"
  shows "safe (v\<lparr>v_objects := (v_objects v)((o_Bucket ob, o_Key ob) \<mapsto> c), v_uploads := (v_uploads v)(n := None)\<rparr>) (g(j := G))"
proof -
  obtain se where se: "v_uploads v n = Some se" "session_facts se = (n, o_BlobID ob, o_Bucket ob, o_Key ob)"
    using assms(2,3) safeD(4) [OF assms(1,2)] by auto
  let ?G = "(g j)\<lparr>cl_held := insert (o_BlobID ob) (cl_held (g j))\<rparr>" and ?v = "v\<lparr>v_uploads := (v_uploads v)(n := None)\<rparr>"
  have blob: "u_BlobID se = o_BlobID ob" "u_Key se = o_Key ob" using se(2) by (simp_all add: session_facts_def)
  have "safe ?v (g(j := ?G))"
    by (rule safe_drop_session [OF assms(1) se(1)]) (auto simp: blob)
  moreover have "blob_of ?v (ObjectAt b k) = blob_of v (ObjectAt b k)" for b k by simp
  moreover have "o_BlobID ob \<notin> cl_held (g j)" "blob_of v (ObjectAt b k) \<noteq> Some (o_BlobID ob)" for b k
  proof -
    have own: "blob_of v (SessionOf n) = Some (o_BlobID ob)" using se(1) blob by simp
    show "o_BlobID ob \<notin> cl_held (g j)" using held_not_owned [OF assms(1)] own by blast
    show "blob_of v (ObjectAt b k) \<noteq> Some (o_BlobID ob)"
      using soundD(5) [OF safeD(1) [OF assms(1)] own, of "ObjectAt b k"] by blast
  qed
  moreover have "ValidateObjectKey (o_Key ob) = None"
    using soundD(3) [OF safeD(1) [OF assms(1)] se(1)] blob by simp
  ultimately have "safe (?v\<lparr>v_objects := (v_objects ?v)((o_Bucket ob, o_Key ob) \<mapsto> c)\<rparr>) ((g(j := ?G))(j := G))"
    using G cell by (intro safe_put_object) (simp_all, blast+)
  moreover have "?v\<lparr>v_objects := (v_objects ?v)((o_Bucket ob, o_Key ob) \<mapsto> c)\<rparr> =
      v\<lparr>v_objects := (v_objects v)((o_Bucket ob, o_Key ob) \<mapsto> c), v_uploads := (v_uploads v)(n := None)\<rparr>"
    by (rule view.equality) simp_all
  ultimately show ?thesis by (simp only: fun_upd_upd)
qed

lemma safe_hold_new:
  assumes "safe v g" "v_blobs v i = None" "cl_held G \<subseteq> insert i (cl_held (g j))"
    "cl_fresh G \<subseteq> cl_fresh (g j)" "cl_known G \<subseteq> cl_known (g j)"
  shows "safe (v\<lparr>v_blobs := (v_blobs v)(i \<mapsto> [])\<rparr>) (g(j := G))" (is "safe ?v' _")
proof -
  note sound = safeD(1) [OF assms(1)]
  have "free ?v' i" using soundD(4) [OF sound, of _ i] assms(2) by (auto simp: free_def unowned_def)
  moreover have "i \<notin> cl_held (g k)" for k using safeD(2) [OF assms(1), of i k] assms(2) by (auto simp: free_def)
  ultimately show ?thesis
    using assms(3-5) safeD(2,3) [OF assms(1)] soundD(4) [OF sound]
    by (intro safe_step [OF assms(1)] sound_blobs sound) (auto simp: free_def unowned_def)
qed

lemma safe_remove:
  assumes "safe v g" "i \<in> cl_held (g j)" "\<And>k. k \<noteq> i \<Longrightarrow> B k = v_blobs v k"
    "cl_held G \<subseteq> cl_held (g j) - {i}" "cl_fresh G \<subseteq> cl_fresh (g j)" "cl_known G \<subseteq> cl_known (g j)"
  shows "safe (v\<lparr>v_blobs := B\<rparr>) (g(j := G))" (is "safe ?v' _")
proof -
  note sound = safeD(1) [OF assms(1)]
  have "k \<noteq> i" if "blob_of v x = Some k" for x k using held_not_owned [OF assms(1,2)] that by metis
  then have "sound ?v'" using assms(3) soundD(4) [OF sound] by (intro sound_blobs sound) auto
  moreover have keep: "free ?v' k" if "free v k" "k \<noteq> i" for k
    using that assms(3) by (simp add: free_def unowned_def)
  ultimately show ?thesis
  proof (intro safe_step [OF assms(1)])
    fix l k assume "l \<noteq> j" "k \<in> cl_held (g l)"
    then have "k \<notin> cl_held (g j)" "free v k" "k \<noteq> i" using safeD(2,3) [OF assms(1)] assms(2) by blast+
    then show "free ?v' k \<and> k \<notin> cl_held G" using assms(4) keep by blast
  next
    show "free ?v' k" if "k \<in> cl_held G" for k
      using assms(4) that keep safeD(2) [OF assms(1)] by blast
  qed (use assms(5,6) in auto)
qed

lemma safe_keys: "safe v g \<Longrightarrow> safe (v\<lparr>v_keys := K\<rparr>) g"
  by (simp add: safe_def sound_def free_def unowned_def)

lemma safe_buckets:
  assumes "safe v g" "\<And>n b. K n = Some b \<Longrightarrow> b_Name b = n \<and> ValidateBucketName n = None"
  shows "safe (v\<lparr>v_buckets := K\<rparr>) g"
  using assms by (simp add: safe_def sound_def free_def unowned_def)

end
