(* ===== verification/Http_Concurrent.thy ===== *)
theory Http_Concurrent
  imports Http_Interleaving Http_Sharing
begin

text \<open>
  The server under any interleaving of requests: a permitted call keeps the claims of all the
  requests, on any stores that keep their contracts, so the rows stay consistent between any two
  calls.
\<close>

section \<open>A permitted call keeps the claims of all\<close>

text \<open>
  A configuration of requests between two calls: each has a tree, what is left of it is lawful for
  its claims, and the claims fit the view.
\<close>

definition running ::
  "('s \<Rightarrow> view) \<Rightarrow> ('s \<Rightarrow> bool) \<Rightarrow> program list \<Rightarrow> (nat \<Rightarrow> response tree) \<Rightarrow> (nat \<Rightarrow> claims) \<Rightarrow>
     answer list list \<times> 's \<Rightarrow> bool" where
  "running vw I fs p g c \<longleftrightarrow> length (fst c) = length fs \<and> I (snd c) \<and> safe (vw (snd c)) g \<and>
     (\<forall>i < length fs. (\<forall>t. (fs ! i) t = run_tree asked (p i) t) \<and>
        (\<exists>q. after (p i) (fst c ! i) = Some q \<and> lawful answering q (g i)))"

context service begin

lemma permitted_object_call:
  assumes "inv s" "safe (view s) g" "perform h c s = (a, s')" "permitted c (g j)"
    and "c = OS_PutObject ob \<or> c = OS_DeleteObject b k \<or> c = US_CompleteUpload i ob"
  shows "inv s' \<and> safe (view s') (g(j := owed c a (g j)))"
proof -
  note sound = safeD(1) [OF assms(2)]
  have prev: "x = blob_previous (view s) ob \<Longrightarrow> x \<noteq> [] \<Longrightarrow> blob_of (view s) (ObjectAt (o_Bucket ob) (o_Key ob)) = Some x" for x
    by (auto simp: blob_previous_def split: option.splits)
  from assms(5) show ?thesis
  proof (elim disjE)
    assume c: "c = OS_PutObject ob"
    then obtain r where r: "os_PutObject (h_objects h) ob s = (r, s')" "a = IdAnswer r"
      using assms(3) by (cases "os_PutObject (h_objects h) ob s") auto
    show ?thesis
    proof (cases r)
      case (Inl e)
      then show ?thesis using put_object [OF assms(1) r(1)] assms(2) by (auto simp: c r intro!: safe_same)
    next
      case (Inr x)
      note law = put_object [OF assms(1) r(1), unfolded Inr sum.case]
      have "safe ((view s)\<lparr>v_objects := (v_objects (view s))((o_Bucket ob, o_Key ob) \<mapsto> ocell ob)\<rparr>) (g(j := owed c a (g j)))"
        using assms(4) cell_keys [of ob] prev law
        by (intro safe_put_object [OF assms(2)]) (auto simp: c r Inr)
      with law show ?thesis by simp
    qed
  next
    assume c: "c = OS_DeleteObject b k"
    then obtain r where r: "os_DeleteObject (h_objects h) b k s = (r, s')" "a = IdAnswer r"
      using assms(3) by (cases "os_DeleteObject (h_objects h) b k s") auto
    show ?thesis
    proof (cases r)
      case (Inl e)
      then show ?thesis using delete_object [OF assms(1) r(1)] assms(2) by (auto simp: c r intro!: safe_same)
    next
      case (Inr x)
      note law = delete_object [OF assms(1) r(1), unfolded Inr sum.case]
      have "safe ((view s)\<lparr>v_objects := (v_objects (view s))((b, k) := None)\<rparr>) (g(j := owed c a (g j)))"
        using law by (intro safe_drop_object [OF assms(2)]) (auto simp: c r Inr)
      with law show ?thesis by simp
    qed
  next
    assume c: "c = US_CompleteUpload i ob"
    then obtain r where r: "us_CompleteUpload (h_uploads h) i ob s = (r, s')" "a = IdAnswer r"
      using assms(3) by (cases "us_CompleteUpload (h_uploads h) i ob s") auto
    show ?thesis
    proof (cases r)
      case (Inl e)
      then show ?thesis using complete_upload [OF assms(1) r(1)] assms(2) by (auto simp: c r intro!: safe_same)
    next
      case (Inr x)
      note law = complete_upload [OF assms(1) r(1), unfolded Inr sum.case]
      have "safe ((view s)\<lparr>v_objects := (v_objects (view s))((o_Bucket ob, o_Key ob) \<mapsto> ocell ob),
          v_uploads := (v_uploads (view s))(i := None)\<rparr>) (g(j := owed c a (g j)))"
        using assms(4) cell_keys [of ob] prev law
        by (intro safe_finish [OF assms(2)]) (auto simp: c r Inr)
      with law show ?thesis by simp
    qed
  qed
qed

lemma permitted_session_call:
  assumes "inv s" "safe (view s) g" "perform h c s = (a, s')" "permitted c (g j)"
    and "c = US_CreateUpload se \<or> c = US_GetUpload i \<or> c = US_PutPart i n p \<or> c = US_DeleteUpload i"
  shows "inv s' \<and> safe (view s') (g(j := owed c a (g j)))"
  using assms(5)
proof (elim disjE)
  assume c: "c = US_CreateUpload se"
  then obtain r where r: "us_CreateUpload (h_uploads h) se s = (r, s')" "a = DoneAnswer r"
    using assms(3) by (cases "us_CreateUpload (h_uploads h) se s") auto
  show ?thesis
  proof (cases r)
    case (Inl e)
    then show ?thesis using create_upload [OF assms(1) r(1)] assms(2) by (auto simp: c r intro!: safe_same)
  next
    case (Inr x)
    note law = create_upload [OF assms(1) r(1), unfolded Inr sum.case]
    have "safe ((view s)\<lparr>v_uploads := (v_uploads (view s))(u_ID se \<mapsto> ucell se)\<rparr>) (g(j := owed c a (g j)))"
      using assms(4) cell_upload [of se]
      by (intro safe_new_session [OF assms(2)]) (auto simp: c r Inr session_facts_def)
    with law show ?thesis by simp
  qed
next
  assume c: "c = US_GetUpload i"
  then obtain r where r: "us_GetUpload (h_uploads h) i s = (r, s')" "a = SessionAnswer r"
    using assms(3) by (cases "us_GetUpload (h_uploads h) i s") auto
  note law = get_upload [OF assms(1) r(1)]
  have "safe (view s) (g(j := owed c a (g j)))"
    using law by (intro safe_same [OF assms(2)]) (auto simp: c r session_facts_def split: sum.splits)
  with law show ?thesis by simp
next
  assume c: "c = US_PutPart i n p"
  then obtain r where r: "us_PutPart (h_uploads h) i n p s = (r, s')" "a = DoneAnswer r"
    using assms(3) by (cases "us_PutPart (h_uploads h) i n p s") auto
  show ?thesis
  proof (cases r)
    case (Inl e)
    then show ?thesis using put_part [OF assms(1) r(1)] assms(2) by (auto simp: c r intro!: safe_same)
  next
    case (Inr x)
    then obtain se where law: "inv s'" "v_uploads (view s) i = Some se"
      "view s' = (view s)\<lparr>v_uploads := (v_uploads (view s))(i \<mapsto> se\<lparr>u_Parts := map_put (u_Parts se) n p\<rparr>)\<rparr>"
      using put_part [OF assms(1) r(1)] by auto
    have "safe ((view s)\<lparr>v_uploads := (v_uploads (view s))(i \<mapsto> se\<lparr>u_Parts := map_put (u_Parts se) n p\<rparr>)\<rparr>)
        (g(j := owed c a (g j)))"
      by (rule safe_set_session [OF assms(2) law(2)]) (simp_all add: c session_facts_def)
    with law show ?thesis by simp
  qed
next
  assume c: "c = US_DeleteUpload i"
  then obtain r where r: "us_DeleteUpload (h_uploads h) i s = (r, s')" "a = SessionAnswer r"
    using assms(3) by (cases "us_DeleteUpload (h_uploads h) i s") auto
  show ?thesis
  proof (cases r)
    case (Inl e)
    then show ?thesis using delete_upload [OF assms(1) r(1)] assms(2) by (auto simp: c r intro!: safe_same)
  next
    case (Inr se)
    note law = delete_upload [OF assms(1) r(1), unfolded Inr sum.case]
    have "safe ((view s)\<lparr>v_uploads := (v_uploads (view s))(i := None)\<rparr>) (g(j := owed c a (g j)))"
      using law by (intro safe_drop_session [OF assms(2)]) (auto simp: c r Inr)
    with law show ?thesis by simp
  qed
qed

lemma written:
  assumes "inv s" "bl_Write (h_blobs h) i off rd s = (r, s')"
  shows "inv s' \<and> (\<exists>B. view s' = (view s)\<lparr>v_blobs := B\<rparr> \<and> (\<forall>k. v_blobs (view s) k \<noteq> None \<longrightarrow> B k \<noteq> None))"
proof -
  obtain n e where "r = (n, e)" by (cases r)
  note law = write_blob [OF assms(1) assms(2) [unfolded this]]
  show ?thesis
  proof (cases "v_blobs (view s) i")
    case None
    then have "view s' = (view s)\<lparr>v_blobs := v_blobs (view s)\<rparr>" "inv s'" using law by simp_all
    then show ?thesis by blast
  next
    case (Some old)
    then obtain x where "view s' = (view s)\<lparr>v_blobs := (v_blobs (view s))(i \<mapsto> x)\<rparr>" "inv s'" using law by auto
    then show ?thesis by (intro conjI exI [of _ "(v_blobs (view s))(i \<mapsto> x)"]) auto
  qed
qed

lemma permitted_blob_call:
  assumes "inv s" "safe (view s) g" "perform h c s = (a, s')" "permitted c (g j)"
    and "c = BL_Create raw \<or> c = BL_Write i off rd \<or> c = BL_Remove i"
  shows "inv s' \<and> safe (view s') (g(j := owed c a (g j)))"
  using assms(5)
proof (elim disjE)
  assume c: "c = BL_Create raw"
  then obtain r where r: "bl_Create (h_blobs h) raw s = (r, s')" "a = IdAnswer r"
    using assms(3) by (cases "bl_Create (h_blobs h) raw s") auto
  have new: "v_blobs (view s) i = None \<Longrightarrow> (case r of Inl e \<Rightarrow> True | Inr k \<Rightarrow> k = i) \<Longrightarrow>
      safe ((view s)\<lparr>v_blobs := (v_blobs (view s))(i \<mapsto> [])\<rparr>) (g(j := owed c a (g j)))" for i
    by (rule safe_hold_new [OF assms(2)]) (auto simp: c r split: sum.splits)
  show ?thesis
  proof (cases r)
    case (Inl e)
    have "safe (view s) (g(j := owed c a (g j)))" by (rule safe_same [OF assms(2)]) (simp_all add: c r Inl)
    then show ?thesis using create_blob [OF assms(1) r(1)] new by (auto simp: Inl)
  next
    case (Inr k)
    then show ?thesis using create_blob [OF assms(1) r(1)] new [of k] by simp
  qed
next
  assume c: "c = BL_Write i off rd"
  then obtain r where r: "bl_Write (h_blobs h) i off rd s = (r, s')" "a = WriteAnswer r"
    using assms(3) by (cases "bl_Write (h_blobs h) i off rd s") auto
  from written [OF assms(1) r(1)] obtain B where B: "inv s'" "view s' = (view s)\<lparr>v_blobs := B\<rparr>"
    "\<forall>k. v_blobs (view s) k \<noteq> None \<longrightarrow> B k \<noteq> None" by blast
  have "safe ((view s)\<lparr>v_blobs := B\<rparr>) (g(j := owed c a (g j)))"
    using B(3) by (intro safe_blobs [OF assms(2)]) (simp_all add: c)
  with B show ?thesis by simp
next
  assume c: "c = BL_Remove i"
  then have s': "s' = snd (bl_Remove (h_blobs h) i s)"
    using assms(3) by (cases "bl_Remove (h_blobs h) i s") auto
  obtain B where B: "inv s'" "view s' = (view s)\<lparr>v_blobs := B\<rparr>" "\<forall>k. k \<noteq> i \<longrightarrow> B k = v_blobs (view s) k"
    using removed [OF assms(1), of i] unfolding s' by blast
  have "safe ((view s)\<lparr>v_blobs := B\<rparr>) (g(j := owed c a (g j)))"
    using B(3) assms(4) by (intro safe_remove [OF assms(2), of i]) (simp_all add: c)
  with B show ?thesis by simp
qed

lemma spent_call:
  assumes "safe v g" "held_after c a (cl_held (g j)) \<subseteq> cl_held (g j)" "known_after c a (cl_known (g j)) \<subseteq> cl_known (g j)"
  shows "safe v (g(j := owed c a (g j)))"
proof -
  have "fresh_after c F \<subseteq> F" for F by (cases c) auto
  then show ?thesis using assms by (intro safe_same) auto
qed

lemma permitted_key_call:
  assumes "inv s" "safe (view s) g" "perform h c s = (a, s')"
    and "c = KS_GetKey i \<or> c = KS_CreateKey k \<or> c = KS_UpdateKey k \<or> c = KS_DeleteKey i \<or> c = KS_ListKeys"
  shows "inv s' \<and> safe (view s') (g(j := owed c a (g j)))"
proof -
  have "inv s' \<and> (\<exists>K. view s' = (view s)\<lparr>v_keys := K\<rparr>)"
    using assms(4)
  proof (elim disjE)
    assume "c = KS_GetKey i"
    then obtain r where "ks_GetKey (h_keys h) i s = (r, s')" using assms(3) by (cases "ks_GetKey (h_keys h) i s") auto
    from get_key [OF assms(1) this] show ?thesis by (auto intro: exI [of _ "v_keys (view s)"])
  next
    assume "c = KS_CreateKey k"
    then obtain r where "ks_CreateKey (h_keys h) k s = (r, s')" using assms(3) by (cases "ks_CreateKey (h_keys h) k s") auto
    from create_key [OF assms(1) this] show ?thesis by (auto intro: exI [of _ "v_keys (view s)"] split: sum.splits)
  next
    assume "c = KS_UpdateKey k"
    then obtain r where "ks_UpdateKey (h_keys h) k s = (r, s')" using assms(3) by (cases "ks_UpdateKey (h_keys h) k s") auto
    from update_key [OF assms(1) this] show ?thesis by (auto intro: exI [of _ "v_keys (view s)"] split: sum.splits)
  next
    assume "c = KS_DeleteKey i"
    then obtain r where "ks_DeleteKey (h_keys h) i s = (r, s')" using assms(3) by (cases "ks_DeleteKey (h_keys h) i s") auto
    from delete_key [OF assms(1) this] show ?thesis by (auto intro: exI [of _ "v_keys (view s)"] split: sum.splits)
  next
    assume "c = KS_ListKeys"
    then obtain r where "ks_ListKeys (h_keys h) s = (r, s')" using assms(3) by (cases "ks_ListKeys (h_keys h) s") auto
    from list_keys [OF assms(1) this] show ?thesis by (auto intro: exI [of _ "v_keys (view s)"])
  qed
  then have "inv s'" "safe (view s') g" using safe_keys [OF assms(2)] by auto
  moreover have "safe (view s') (g(j := owed c a (g j)))"
    by (rule spent_call) (use calculation assms(4) in auto)
  ultimately show ?thesis by blast
qed

lemma permitted_bucket_call:
  assumes "inv s" "safe (view s) g" "perform h c s = (a, s')" "permitted c (g j)"
    and "c = BS_CreateBucket b \<or> c = BS_GetBucket n \<or> c = BS_ListBuckets \<or> c = BS_DeleteBucket n \<or> c = BS_UpdateBucket b"
  shows "inv s' \<and> safe (view s') (g(j := owed c a (g j)))"
proof -
  note named = soundD(1) [OF safeD(1) [OF assms(2)]]
  have "inv s' \<and> safe (view s') g"
    using assms(5)
  proof (elim disjE)
    assume c: "c = BS_CreateBucket b"
    then obtain r where r: "bs_CreateBucket (h_buckets h) b s = (r, s')"
      using assms(3) by (cases "bs_CreateBucket (h_buckets h) b s") auto
    show ?thesis
    proof (cases r)
      case (Inr u)
      have "safe ((view s)\<lparr>v_buckets := (v_buckets (view s))(b_Name b \<mapsto> bcell b)\<rparr>) g"
        using named assms(4) cell_bucket [of b] by (intro safe_buckets [OF assms(2)]) (auto simp: c split: if_splits)
      with create_bucket [OF assms(1) r] Inr show ?thesis by simp
    qed (use create_bucket [OF assms(1) r] assms(2) in simp)
  next
    assume "c = BS_GetBucket n"
    then obtain r where "bs_GetBucket (h_buckets h) n s = (r, s')" using assms(3) by (cases "bs_GetBucket (h_buckets h) n s") auto
    from get_bucket [OF assms(1) this] show ?thesis using assms(2) by simp
  next
    assume "c = BS_ListBuckets"
    then obtain r where "bs_ListBuckets (h_buckets h) s = (r, s')" using assms(3) by (cases "bs_ListBuckets (h_buckets h) s") auto
    from list_buckets [OF assms(1) this] show ?thesis using assms(2) by simp
  next
    assume "c = BS_DeleteBucket n"
    then obtain r where r: "bs_DeleteBucket (h_buckets h) n s = (r, s')" using assms(3) by (cases "bs_DeleteBucket (h_buckets h) n s") auto
    have "safe ((view s)\<lparr>v_buckets := (v_buckets (view s))(n := None)\<rparr>) g"
      using named by (intro safe_buckets [OF assms(2)]) (auto split: if_splits)
    with delete_bucket [OF assms(1) r] assms(2) show ?thesis by (cases r) auto
  next
    assume "c = BS_UpdateBucket b"
    then obtain r where r: "bs_UpdateBucket (h_buckets h) b s = (r, s')" using assms(3) by (cases "bs_UpdateBucket (h_buckets h) b s") auto
    have "safe ((view s)\<lparr>v_buckets := (v_buckets (view s))(b_Name b \<mapsto> old\<lparr>b_Public := b_Public b\<rparr>)\<rparr>) g"
      if "v_buckets (view s) (b_Name b) = Some old" for old
      using named that by (intro safe_buckets [OF assms(2)]) (auto split: if_splits)
    with update_bucket [OF assms(1) r] assms(2) show ?thesis by (cases r) auto
  qed
  moreover from this have "safe (view s') (g(j := owed c a (g j)))"
    by (intro spent_call) (use assms(5) in auto)
  ultimately show ?thesis by blast
qed

lemma permitted_read_call:
  assumes "inv s" "safe (view s) g" "perform h c s = (a, s')"
    and "c = OS_GetObject b k \<or> c = OS_ListObjects b k aft l \<or> c = US_CountUploads b \<or> c = BL_Sync i \<or> c = BL_Open i"
  shows "inv s' \<and> safe (view s') (g(j := owed c a (g j)))"
proof -
  have "inv s' \<and> view s' = view s"
    using assms(4)
  proof (elim disjE)
    assume "c = OS_GetObject b k"
    then obtain r where "os_GetObject (h_objects h) b k s = (r, s')" using assms(3) by (cases "os_GetObject (h_objects h) b k s") auto
    from get_object [OF assms(1) this] show ?thesis by simp
  next
    assume "c = OS_ListObjects b k aft l"
    then obtain r where "os_ListObjects (h_objects h) b k aft l s = (r, s')"
      using assms(3) by (cases "os_ListObjects (h_objects h) b k aft l s") auto
    from list_objects [OF assms(1) this] show ?thesis by simp
  next
    assume "c = US_CountUploads b"
    then obtain r where "us_CountUploads (h_uploads h) b s = (r, s')" using assms(3) by (cases "us_CountUploads (h_uploads h) b s") auto
    from count_uploads [OF assms(1) this] show ?thesis by simp
  next
    assume "c = BL_Sync i"
    then obtain r where "bl_Sync (h_blobs h) i s = (r, s')" using assms(3) by (cases "bl_Sync (h_blobs h) i s") auto
    from sync_blob [OF assms(1) this] show ?thesis by simp
  next
    assume "c = BL_Open i"
    then obtain r where "bl_Open (h_blobs h) i s = (r, s')" using assms(3) by (cases "bl_Open (h_blobs h) i s") auto
    from open_blob [OF assms(1) this] show ?thesis by simp
  qed
  moreover have "safe (view s) (g(j := owed c a (g j)))"
    by (rule spent_call [OF assms(2)]) (use assms(4) in auto)
  ultimately show ?thesis by simp
qed

lemma permitted_call:
  assumes "inv s" "safe (view s) g" "permitted c (g j)" "perform h c s = (a, s')"
  shows "inv s' \<and> safe (view s') (g(j := owed c a (g j)))"
  by (cases c; ((rule permitted_key_call [OF assms(1,2,4)], blast) | (rule permitted_bucket_call [OF assms(1,2,4,3)], blast) |
    (rule permitted_object_call [OF assms(1,2,4,3)], blast) | (rule permitted_session_call [OF assms(1,2,4,3)], blast) |
    (rule permitted_blob_call [OF assms(1,2,4,3)], blast) | (rule permitted_read_call [OF assms(1,2,4)], blast)))

text \<open>So does any schedule of lawful trees.\<close>

lemma running_tick:
  assumes "running view inv fs p g c"
  shows "\<exists>g. running view inv fs p g (tick h fs i c)"
proof (cases "i < length fs")
  case True
  note run = assms [unfolded running_def]
  obtain q where q: "after (p i) (fst c ! i) = Some q" "lawful answering q (g i)" using run True by blast
  have f: "(fs ! i) t = run_tree asked (p i) t" for t using run True by blast
  note nxt = next_call_tree(1) [of "fs ! i", OF f q(1)]
  show ?thesis
  proof (cases q)
    case (Done x)
    then have "tick h fs i c = c" using nxt True by (simp add: tick_def)
    then show ?thesis using assms by auto
  next
    case (Ask cl k)
    obtain a s' where a: "perform h cl (snd c) = (a, s')" by (cases "perform h cl (snd c)")
    let ?g = "g(i := owed cl a (g i))"
    have t: "tick h fs i c = ((fst c)[i := fst c ! i @ [a]], s')" using nxt True Ask a by (simp add: tick_def)
    have "inv s' \<and> safe (view s') ?g"
      using run q(2) Ask a by (intro permitted_call [of "snd c"]) auto
    moreover have "after (p i) (fst c ! i @ [a]) = Some (k a)" "lawful answering (k a) (?g i)"
      using q Ask by (simp_all add: after_append)
    ultimately have "running view inv fs p ?g (tick h fs i c)"
      using run unfolding running_def t by (auto simp: nth_list_update)
    then show ?thesis by blast
  qed
qed (use assms in \<open>auto simp: tick_def\<close>)

lemma running_schedule: "running view inv fs p g c \<Longrightarrow> \<exists>g. running view inv fs p g (fold (tick h fs) schedule c)"
proof (induction schedule arbitrary: g c)
  case (Cons i schedule)
  from running_tick [OF Cons.prems] Cons.IH show ?case by (simp, blast)
qed auto

lemma running_start:
  assumes "inv s" "sound (view s)" "distinct (map session_draw ers)"
    and "\<forall>er \<in> set ers. v_uploads (view s) (session_draw er) = None"
  shows "\<exists>p g. running view inv (requests h ers) p g (replicate (length ers) [], s)"
proof -
  let ?g = "\<lambda>i. if i < length ers then first_claims (ers ! i) else no_claims"
  obtain p where p: "\<And>i t. i < length ers \<Longrightarrow> (requests h ers ! i) t = run_tree asked (p i) t"
    "\<And>i. i < length ers \<Longrightarrow> lawful answering (p i) (first_claims (ers ! i))"
    using requests_tree [of _ ers h] by metis
  have "safe (view s) ?g"
    unfolding safe_def using assms(2-4) by (auto simp: first_claims_def distinct_conv_nth)
  with p assms(1) show ?thesis
    unfolding running_def by (intro exI [of _ p] exI [of _ ?g]) simp
qed

lemma interleaving_keeps:
  assumes "inv s" "sound (view s)" "distinct (map session_draw ers)"
    and "\<forall>er \<in> set ers. v_uploads (view s) (session_draw er) = None"
  shows "\<exists>p g. running view inv (requests h ers) p g (interleave h (requests h ers) schedule s)"
  using running_start [OF assms] running_schedule unfolding interleave_def length_requests by metis

end

section \<open>Properties\<close>

lemma sq_in_buckets: "sq_inv s \<Longrightarrow> in_buckets (sq_view s)"
  unfolding in_buckets_def sq_view_def sq_inv_def view.simps prod.case option.map_disc_iff
  by (elim conjE) (intro conjI allI impI, blast, auto simp: scan_upload_def)

text \<open>
  C7. Requests served at the same time do not corrupt the server: after a start and any history,
  take any requests, whose session ids the random source draws apart and unused, and let their
  calls to the stores fall in any order, stopping anywhere; the rows are consistent, objects and
  sessions lie in existing buckets, the blob of every row exists and no two rows share one.
\<close>

theorem concurrent_requests_stay_consistent:
  assumes "distinct (map session_draw ers)"
    and "\<forall>er \<in> set ers. v_uploads (sq_view (after_history cfg now io db history)) (session_draw er) = None"
  shows "consistent (sq_view (snd (interleave (new_handler (server_options cfg))
    (requests (new_handler (server_options cfg)) ers) schedule (after_history cfg now io db history))))"
proof -
  have "sound (sq_view (after_history cfg now io db history))"
    using history_keeps consistent_sound by blast
  then obtain p g where "running sq_view sq_inv (requests (new_handler (server_options cfg)) ers) p g
      (interleave (new_handler (server_options cfg)) (requests (new_handler (server_options cfg)) ers) schedule
        (after_history cfg now io db history))"
    using sq.interleaving_keeps [OF _ _ assms, where cfg = cfg] history_keeps by blast
  then show ?thesis
    using sq_in_buckets safeD(1) unfolding running_def consistent_sound by blast
qed



end
