(* ===== verification/Http_Ranges.thy ===== *)
theory Http_Ranges
  imports Http_Storage
begin

text \<open>
  GET with a range: what \<open>http.ServeContent\<close> makes of the bytes of a stored object on the server of
  \<open>cmd/tunna\<close>.
\<close>

context service begin

lemma getObject_content:
  assumes "inv s" "stored (view s) (PathValue r ''bucket'') (PathValue r ''key'') ob bytes"
  shows "sat (\<lambda>rs s'. inv s' \<and> (refusal rs \<or>
      rs = ServeContent (ev_ParseTime ev) (ev_boundary ev) (object_headers w ob) r (o_CreatedAt ob) bytes)) (getObject h ev w r s)"
  using assms(2) unfolding getObject_def Let_def
  by (intro walk) (auto simp: assms(1) sat_def stored_def refusals)

end

lemma slice_whole: "0 \<le> a \<Longrightarrow> a < int (length bytes) \<Longrightarrow>
    byte_slice bytes (a, min z (int (length bytes) - 1) - a + 1) = take (nat (z - a + 1)) (drop (nat a) bytes)"
  by (cases "z < int (length bytes)") (auto simp: byte_slice_def min_def)


section \<open>An object of three bytes\<close>

definition ranged_world :: sq_world where
  "ranged_world = listing_world\<lparr>dk_files := [(up_path, [104, 105, 33])]\<rparr>"

definition ranged_get :: "gostring \<Rightarrow> request" where
  "ranged_get spec = (object_request ''GET'' [])\<lparr>rq_Header := [(''Range'', [''bytes='' @ spec])]\<rparr>"

definition three_bytes :: object where
  "three_bytes = scan_object ''photos'' ''cat'' (snd (hd (sq_objects listing_world)))"

lemma ranged_world_ok: "sq_inv ranged_world" "stored (sq_view ranged_world) ''photos'' ''cat'' three_bytes [104, 105, 33]"
proof -
  have "sq_inv ranged_world \<longleftrightarrow> sq_inv listing_world" by (simp only: sq_inv_def) (simp add: ranged_world_def)
  then show "sq_inv ranged_world" using listing_world_ok(1) by blast
  show "stored (sq_view ranged_world) ''photos'' ''cat'' three_bytes [104, 105, 33]"
    by (simp add: stored_def sq_view_def ranged_world_def listing_world_def three_bytes_def scan_object_def blobs_of_def up_blob_path)
qed

lemma range_headers:
  "\<forall>n \<in> set (''If-Range'' # precondition_headers). Header_Get (rq_Header (ranged_get t)) n = []"
  "Header_Get (rq_Header (ranged_get t)) ''Range'' = ''bytes='' @ t" "rq_Method (ranged_get t) = ''GET''"
  "PathValue (ranged_get t) ''bucket'' = ''photos''" "PathValue (ranged_get t) ''key'' = ''cat''"
proof -
  have "\<forall>n \<in> set (''If-Range'' # precondition_headers). CanonicalHeaderKey n \<noteq> ''Range''" "CanonicalHeaderKey ''Range'' = ''Range''"
    by code_simp+
  then show "\<forall>n \<in> set (''If-Range'' # precondition_headers). Header_Get (rq_Header (ranged_get t)) n = []"
    "Header_Get (rq_Header (ranged_get t)) ''Range'' = ''bytes='' @ t"
    by (auto simp: Header_Get_def Values_Get_def ranged_get_def)
qed (simp_all add: ranged_get_def object_request_def PathValue_def)

lemma ranged_get_answer:
  assumes "parseRange (''bytes='' @ t) 3 = Inr rs" "sum_list (map snd rs) \<le> 3"
  shows "\<exists>rsp. getObject (server plain_config) plain_env [] (ranged_get t) ranged_world = (rsp, ranged_world) \<and> \<not> refusal rsp"
proof -
  let ?w = "dated (object_headers [] three_bytes) (o_CreatedAt three_bytes)"
  have "getObject (server plain_config) plain_env [] (ranged_get t) ranged_world =
      (ServeContent (\<lambda>_. None) ''b0'' (object_headers [] three_bytes) (ranged_get t) (o_CreatedAt three_bytes) [104, 105, 33], ranged_world)"
    using ranged_world_ok(2)
    by (subst quiet_get [where ob = three_bytes and bytes = "[104, 105, 33]"])
      (simp_all add: range_headers plain_names, simp_all add: ranged_world_def listing_world_def plain_world_def sq_empty_def
        may_read_def plain_env_def)
  also have "ServeContent (\<lambda>_. None) ''b0'' (object_headers [] three_bytes) (ranged_get t) (o_CreatedAt three_bytes) [104, 105, 33] =
      serve_ranges ''b0'' ?w (ranged_get t) [104, 105, 33] rs"
    using assms(1) range_headers(1) by (intro ServeContent_ranges) (simp_all add: range_headers(2))
  moreover have "accepted (serve_ranges bd w r bytes rs)" for bd w r bytes
    by (simp add: serve_ranges_def Let_def answer_content_def accepted_def split: list.split)
  ultimately show ?thesis by (metis refusal_not_accepted)
qed


end
