(* ===== verification/Http_Races.thy ===== *)
theory Http_Races
  imports Http_Concurrent Http_Ranges
begin

text \<open>
  What two requests can do to each other: schedules in which an answer is not what either request
  would have got, or left behind, alone.
\<close>

lemma replay_ops [simp]:
  "ks_GetKey replay_keys i t = apfst key_answer (asked (KS_GetKey i) t)"
  "ks_UpdateKey replay_keys k t = apfst done_answer (asked (KS_UpdateKey k) t)"
  "bs_GetBucket replay_buckets n t = apfst bucket_answer (asked (BS_GetBucket n) t)"
  "os_GetObject replay_objects b n t = apfst object_answer (asked (OS_GetObject b n) t)"
  "os_DeleteObject replay_objects b n t = apfst id_answer (asked (OS_DeleteObject b n) t)"
  "us_GetUpload replay_uploads i t = apfst session_answer (asked (US_GetUpload i) t)"
  "us_PutPart replay_uploads i m p t = apfst done_answer (asked (US_PutPart i m p) t)"
  "us_CompleteUpload replay_uploads i ob t = apfst id_answer (asked (US_CompleteUpload i ob) t)"
  "os_PutObject replay_objects ob t = apfst id_answer (asked (OS_PutObject ob) t)"
  "bl_Create replay_blobs raw t = apfst id_answer (asked (BL_Create raw) t)"
  "bl_Write replay_blobs i off rd t = apfst write_answer (asked (BL_Write i off rd) t)"
  "bl_Sync replay_blobs i t = apfst done_answer (asked (BL_Sync i) t)"
  "bl_Open replay_blobs i t = apfst bytes_answer (asked (BL_Open i) t)"
  "bl_Remove replay_blobs i t = apfst done_answer (asked (BL_Remove i) t)"
  by (simp_all add: replay_stores)

lemma plain_limits: "h_maxParts (server plain_config) = 10000"
  by (simp add: new_handler_def server_options_def default_def)

section \<open>A part that arrives late\<close>

definition late_row :: upload_row where
  "late_row = \<lparr>ur_bucket = ''photos'', ur_key = ''cat'', ur_blob_id = up_blob, ur_part_size = 2,
     ur_content_type = ''image/png'', ur_metadata = [], ur_parts = [(1, record_of [104])], ur_created = 0, ur_expires = 2000\<rparr>"

definition late_world :: sq_world where
  "late_world = upload_world\<lparr>dk_files := [(up_path, [104])], sq_uploads := [(''up'', late_row)]\<rparr>"

definition late_part :: "program list" where
  "late_part =
     [putUploadPart (replaying (server plain_config)) plain_env [] (upload_request ''1'' [33, 33] JsonEOF),
      completeUpload (replaying (server plain_config)) plain_env [] (upload_request [] [] (count_parts 1))]"

definition late_se :: upload_session where
  "late_se = scan_upload ''up'' late_row"

lemma late_se_simps [simp]:
  "u_ID late_se = ''up''" "u_Bucket late_se = ''photos''" "u_Key late_se = ''cat''" "u_BlobID late_se = up_blob"
  "u_PartSize late_se = 2" "u_Parts late_se = [(1, record_of [104])]" "u_ExpiresAt late_se = time_Unix 2000"
  by (simp_all add: late_se_def scan_upload_def late_row_def)

definition late_object :: object where
  "late_object = upload_object late_se (crc32c [104]) 1 (ev_now plain_env 2)"

lemma late_session:
  "activeSession (replaying h) plain_env w (upload_request n body js) (log, SessionAnswer (Inr late_se) # as) =
     (Inr late_se, (log @ [(US_GetUpload ''up'', SessionAnswer (Inr late_se))], as))"
  "activeSession (replaying h) plain_env w (upload_request n body js) (log, []) =
     (Inl (writeError w codeInternal ''upload lookup failed'' []), (log @ [(US_GetUpload ''up'', NoAnswer)], []))"
  using upload_facts(3)
  by (simp_all add: activeSession_def Let_def sessionWritable_def plain_env_def time_Unix_def Second_def)

lemma late_part_calls:
  "next_call (late_part ! 0) [] = Some (US_GetUpload ''up'')"
  "next_call (late_part ! 0) [SessionAnswer (Inr late_se)] =
     Some (BL_Write up_blob 0 \<lparr>rd_bytes = [33, 33], rd_end = BodyEOF\<rparr>)"
  "next_call (late_part ! 0) [SessionAnswer (Inr late_se), WriteAnswer (2, None)] = Some (BL_Sync up_blob)"
  "next_call (late_part ! 0) [SessionAnswer (Inr late_se), WriteAnswer (2, None), DoneAnswer (Inr ())] =
     Some (US_PutPart ''up'' 1 (record_of [33, 33]))"
  "response_of (late_part ! 0) [SessionAnswer (Inr late_se), WriteAnswer (2, None), DoneAnswer (Inr ()),
     DoneAnswer (Inl ErrNotFound)] = Some (writeError [] codeInternal ''recording part failed'' [])"
  using upload_facts
  by (simp_all add: late_part_def response_of_def next_call_def putUploadPart_def plain_limits late_session storePart_def
    Let_def record_of_def int64_small)

lemma late_completion_calls:
  "next_call (late_part ! 1) [] = Some (US_GetUpload ''up'')"
  "next_call (late_part ! 1) [SessionAnswer (Inr late_se)] = Some (US_CompleteUpload ''up'' late_object)"
  "\<exists>rs. response_of (late_part ! 1) [SessionAnswer (Inr late_se), IdAnswer (Inr [])] = Some rs \<and> rs_status rs = 201"
proof -
  have body: "decode_body complete_fields \<lparr>cm_Parts = 0, cm_Checksums = None\<rparr> (rq_json (upload_request [] [] (count_parts 1))) =
      Decoded \<lparr>cm_Parts = 1, cm_Checksums = None\<rparr>"
    using completion_counts(1) by (simp add: completion_def)
  have ok: "complete_error [] late_se \<lparr>cm_Parts = 1, cm_Checksums = None\<rparr> = None"
    "fold_upload late_se 1 = Some (crc32c [104], 1)"
    by (simp_all add: complete_error_def missing_parts_def short_part_def
      fold_upload_def upto_facts record_of_def part_at_def)
  have f: "late_part ! 1 = completeUpload (replaying (server plain_config)) plain_env [] (upload_request [] [] (count_parts 1))"
    by (simp add: late_part_def)
  show "next_call (late_part ! 1) [] = Some (US_GetUpload ''up'')"
    unfolding f by (simp add: next_call_def completeUpload_def body late_session)
  show "next_call (late_part ! 1) [SessionAnswer (Inr late_se)] = Some (US_CompleteUpload ''up'' late_object)"
    unfolding f by (simp add: next_call_def completeUpload_def body late_session ok finishUpload_def late_object_def)
  show "\<exists>rs. response_of (late_part ! 1) [SessionAnswer (Inr late_se), IdAnswer (Inr [])] = Some rs \<and> rs_status rs = 201"
    unfolding f response_of_def
    by (simp add: next_call_def completeUpload_def body late_session ok finishUpload_def late_object_def Let_def writeJSON_def)
qed

lemma key_stores [simp]:
  "ks_GetKey sq_key_store = sq_GetKey" "ks_UpdateKey sq_key_store = sq_UpdateKey"
  by (simp_all add: sq_key_store_def)

definition late_done :: sq_world where
  "late_done = late_world\<lparr>sq_objects := [((''photos'', ''cat''), object_values late_object)], sq_uploads := []\<rparr>"

lemma late_performs:
  "sq_GetUpload ''up'' late_world = (Inr late_se, late_world)"
  "sq_CompleteUpload ''up'' late_object late_world = (Inr [], late_done)"
  "disk_Write up_blob 0 \<lparr>rd_bytes = [33, 33], rd_end = BodyEOF\<rparr> late_done =
     ((2, None), late_done\<lparr>dk_files := [(up_path, [33, 33])]\<rparr>)"
  "disk_Sync up_blob (late_done\<lparr>dk_files := [(up_path, [33, 33])]\<rparr>) = (Inr (), late_done\<lparr>dk_files := [(up_path, [33, 33])]\<rparr>)"
  "sq_PutPart ''up'' 1 p (late_done\<lparr>dk_files := [(up_path, [33, 33])]\<rparr>) =
     (Inl ErrNotFound, late_done\<lparr>dk_files := [(up_path, [33, 33])]\<rparr>)"
proof -
  have quiet: "sq_faults late_world = []" "dk_faults late_world = []" "sq_buckets late_world = [(''photos'', \<lparr>br_public = True, br_created = 0\<rparr>)]"
    "sq_objects late_world = []" "sq_uploads late_world = [(''up'', late_row)]" "dk_files late_world = [(up_path, [104])]"
    by (simp_all add: late_world_def upload_world_def plain_world_def sq_empty_def)
  have ob: "o_Bucket late_object = ''photos''" "o_Key late_object = ''cat''"
    by (simp_all add: late_object_def upload_object_def)
  show "sq_GetUpload ''up'' late_world = (Inr late_se, late_world)"
    by (simp add: sq_GetUpload_def quiet late_se_def)
  show "sq_CompleteUpload ''up'' late_object late_world = (Inr [], late_done)"
    by (simp add: sq_CompleteUpload_def db_tx_def putObjectTx_def db_commit_def db_pop_def quiet ob late_done_def
      map_put_def map_del_def)
  have ended: "sq_faults late_done = []" "dk_faults late_done = []" "sq_uploads late_done = []" "dk_files late_done = [(up_path, [104])]"
    by (simp_all add: late_done_def quiet)
  show "disk_Write up_blob 0 \<lparr>rd_bytes = [33, 33], rd_end = BodyEOF\<rparr> late_done =
      ((2, None), late_done\<lparr>dk_files := [(up_path, [33, 33])]\<rparr>)"
    by (simp add: disk_Write_def upload_facts ended Let_def end_error_def write_at_def map_put_def)
  show "disk_Sync up_blob (late_done\<lparr>dk_files := [(up_path, [33, 33])]\<rparr>) = (Inr (), late_done\<lparr>dk_files := [(up_path, [33, 33])]\<rparr>)"
    by (simp add: disk_Sync_def upload_facts ended Let_def)
  show "sq_PutPart ''up'' 1 p (late_done\<lparr>dk_files := [(up_path, [33, 33])]\<rparr>) =
      (Inl ErrNotFound, late_done\<lparr>dk_files := [(up_path, [33, 33])]\<rparr>)"
    by (simp add: sq_PutPart_def ended)
qed

text \<open>
  C12. A part can change a finished object: a part is sent again while the upload is completed; the
  completion is answered 201, the part is refused with 500, and the bytes of the committed object
  are those of the refused part, not of its size and checksum.  One after the other, in either
  order, the same two requests leave the object whole.
\<close>

theorem late_part_spoils_object:
  "case interleave (server plain_config) late_part [0, 1, 1, 0, 0, 0] late_world of
     (ass, s) \<Rightarrow> map_option rs_status (response_of (late_part ! 0) (ass ! 0)) = Some 500 \<and>
       map_option rs_status (response_of (late_part ! 1) (ass ! 1)) = Some 201 \<and>
       (\<exists>ob. stored (sq_view s) ''photos'' ''cat'' ob [33, 33] \<and>
          o_Size ob = 1 \<and> o_Checksum ob = EncodeCRC32C (crc32c [104]) \<and> \<not> intact (sq_view s) ob)"
proof -
  let ?A = "[SessionAnswer (Inr late_se), WriteAnswer (2, None), DoneAnswer (Inr ()), DoneAnswer (Inl ErrNotFound)]"
    and ?B = "[SessionAnswer (Inr late_se), IdAnswer (Inr [])]"
    and ?s = "late_done\<lparr>dk_files := [(up_path, [33, 33])]\<rparr>"
  have "length late_part = 2" by (simp add: late_part_def)
  then have run: "interleave (server plain_config) late_part [0, 1, 1, 0, 0, 0] late_world = ([?A, ?B], ?s)"
    by (simp add: interleave_def numeral_2_eq_2 tick_def late_part_calls late_completion_calls late_performs
      late_part_calls [unfolded One_nat_def] late_completion_calls [unfolded One_nat_def])
  have ob: "stored (sq_view ?s) ''photos'' ''cat'' (scan_object ''photos'' ''cat'' (object_values late_object)) [33, 33]"
    by (simp add: stored_def sq_view_def late_done_def blobs_of_def upload_facts scan_object_def object_values_def
      late_object_def upload_object_def)
  show ?thesis
    unfolding run using ob late_part_calls(5) late_completion_calls(3)
    by (auto simp: intact_def stored_def scan_object_def object_values_def late_object_def upload_object_def
      writeError_status statusOf_def intro!: exI [of _ "scan_object ''photos'' ''cat'' (object_values late_object)"])
qed

section \<open>A key rotated while it is disabled\<close>

definition leaked_row :: key_row where
  "leaked_row = \<lparr>kr_name = ''ci'', kr_secret = ''leaked'', kr_admin = True, kr_scopes = [], kr_disabled = False, kr_created = 0\<rparr>"

definition leaked_world :: sq_world where
  "leaked_world = plain_world\<lparr>sq_keys := [(''tk'', leaked_row)]\<rparr>"

definition key_request :: "json_body \<Rightarrow> request" where
  "key_request js =
     \<lparr>rq_Method = ''POST'', rq_Path = ''/-/keys/tk'', rq_EscapedPath = ''/-/keys/tk'', rq_RawQuery = [], rq_Header = [],
      rq_ContentLength = 0, rq_Body = \<lparr>rd_bytes = [], rd_end = BodyEOF\<rparr>, rq_json = js,
      rq_PathValues = [(''id'', ''tk'')], rq_caller = Some (writer_key\<lparr>k_Admin := True\<rparr>)\<rparr>"

definition rotating_env :: env where
  "rotating_env = plain_env\<lparr>ev_secret := Some (replicate 32 7)\<rparr>"

definition rotate_and_disable :: "program list" where
  "rotate_and_disable =
     [rotateKey (replaying (server plain_config)) rotating_env [] (key_request JsonEOF),
      patchKey (replaying (server plain_config)) [] (key_request (JsonValue (JObj [(''disabled'', JBool True)])))]"

definition leaked_key :: apikey where
  "leaked_key = scan_key ''tk'' leaked_row"

definition new_secret :: gostring where
  "new_secret = the (newSecret rotating_env)"

lemma leaked_key_simps [simp]:
  "k_ID leaked_key = ''tk''" "k_Name leaked_key = ''ci''" "k_Admin leaked_key" "k_Scopes leaked_key = []" "\<not> k_Disabled leaked_key"
  by (simp_all add: leaked_key_def scan_key_def leaked_row_def)

lemma rotate_calls:
  "next_call (rotate_and_disable ! 0) [] = Some (KS_GetKey ''tk'')"
  "next_call (rotate_and_disable ! 0) [KeyAnswer (Inr leaked_key)] = Some (KS_UpdateKey (leaked_key\<lparr>k_Secret := new_secret\<rparr>))"
  "map_option rs_status (response_of (rotate_and_disable ! 0) [KeyAnswer (Inr leaked_key), DoneAnswer (Inr ())]) = Some 200"
proof -
  have new: "newSecret rotating_env = Some new_secret"
    by (simp add: new_secret_def newSecret_def rotating_env_def)
  have i: "PathValue (key_request js) ''id'' = ''tk''" for js by (simp add: key_request_def PathValue_def)
  show "next_call (rotate_and_disable ! 0) [] = Some (KS_GetKey ''tk'')"
    "next_call (rotate_and_disable ! 0) [KeyAnswer (Inr leaked_key)] = Some (KS_UpdateKey (leaked_key\<lparr>k_Secret := new_secret\<rparr>))"
    "map_option rs_status (response_of (rotate_and_disable ! 0) [KeyAnswer (Inr leaked_key), DoneAnswer (Inr ())]) = Some 200"
    by (simp_all add: rotate_and_disable_def response_of_def next_call_def rotateKey_def Let_def new i writeJSON_def)
qed

lemma disable_calls:
  "next_call (rotate_and_disable ! 1) [] = Some (KS_GetKey ''tk'')"
  "next_call (rotate_and_disable ! 1) [KeyAnswer (Inr leaked_key)] = Some (KS_UpdateKey (leaked_key\<lparr>k_Disabled := True\<rparr>))"
  "map_option rs_status (response_of (rotate_and_disable ! 1) [KeyAnswer (Inr leaked_key), DoneAnswer (Inr ())]) = Some 200"
proof -
  have body: "decode_body patch_key_fields no_key_patch (rq_json (key_request (JsonValue (JObj [(''disabled'', JBool True)])))) =
      Decoded (no_key_patch\<lparr>pk_Disabled := Some True\<rparr>)"
    by (simp add: key_request_def) code_simp
  have merge: "merge_key (no_key_patch\<lparr>pk_Disabled := Some True\<rparr>) k = k\<lparr>k_Disabled := True\<rparr>" for k
    by (simp add: merge_key_def no_key_patch_def)
  have shape: "validateKeyShape ''ci'' True [] = None" by code_simp
  have i: "PathValue (key_request js) ''id'' = ''tk''" for js by (simp add: key_request_def PathValue_def)
  show "next_call (rotate_and_disable ! 1) [] = Some (KS_GetKey ''tk'')"
    "next_call (rotate_and_disable ! 1) [KeyAnswer (Inr leaked_key)] = Some (KS_UpdateKey (leaked_key\<lparr>k_Disabled := True\<rparr>))"
    "map_option rs_status (response_of (rotate_and_disable ! 1) [KeyAnswer (Inr leaked_key), DoneAnswer (Inr ())]) = Some 200"
    by (simp_all add: rotate_and_disable_def response_of_def next_call_def patchKey_def Let_def body shape i writeJSON_def
      merge)
qed

lemma key_performs:
  "sq_faults s = [] \<Longrightarrow> map_of (sq_keys s) i = Some r \<Longrightarrow> sq_GetKey i s = (Inr (scan_key i r), s)"
  "sq_faults s = [] \<Longrightarrow> map_of (sq_keys s) (k_ID k) = Some r \<Longrightarrow>
     sq_UpdateKey k s = (Inr (), s\<lparr>sq_keys := map_put (sq_keys s) (k_ID k) (key_values k (kr_created r))\<rparr>)"
  by (simp_all add: sq_GetKey_def sq_UpdateKey_def)

text \<open>
  C13. A disabled key can come back: a key is rotated while it is disabled; both requests are
  answered 200, and the key ends enabled, with the new secret.  One after the other, in either
  order, the key would end disabled.
\<close>

theorem rotation_revives_disabled_key:
  "case interleave (server plain_config) rotate_and_disable [0, 1, 1, 0] leaked_world of
     (ass, s) \<Rightarrow> map2 (\<lambda>f as. map_option rs_status (response_of f as)) rotate_and_disable ass = [Some 200, Some 200] \<and>
       (\<exists>k. v_keys (sq_view s) ''tk'' = Some k \<and> \<not> k_Disabled k \<and> k_Secret k = new_secret)"
proof -
  let ?A = "[KeyAnswer (Inr leaked_key), DoneAnswer (Inr ())]"
  let ?s1 = "leaked_world\<lparr>sq_keys := [(''tk'', key_values (leaked_key\<lparr>k_Disabled := True\<rparr>) 0)]\<rparr>"
  let ?s2 = "leaked_world\<lparr>sq_keys := [(''tk'', key_values (leaked_key\<lparr>k_Secret := new_secret\<rparr>) 0)]\<rparr>"
  have quiet: "sq_faults leaked_world = []" "sq_keys leaked_world = [(''tk'', leaked_row)]" "kr_created leaked_row = 0"
    by (simp_all add: leaked_world_def plain_world_def sq_empty_def leaked_row_def)
  have runs: "sq_GetKey ''tk'' leaked_world = (Inr leaked_key, leaked_world)"
    "sq_UpdateKey (leaked_key\<lparr>k_Disabled := True\<rparr>) leaked_world = (Inr (), ?s1)"
    "sq_UpdateKey (leaked_key\<lparr>k_Secret := new_secret\<rparr>) ?s1 = (Inr (), ?s2)"
    by (simp_all add: key_performs quiet leaked_key_def [symmetric] map_put_def key_values_def)
  have "length rotate_and_disable = 2" by (simp add: rotate_and_disable_def)
  then have run: "interleave (server plain_config) rotate_and_disable [0, 1, 1, 0] leaked_world = ([?A, ?A], ?s2)"
    by (simp add: interleave_def numeral_2_eq_2 tick_def rotate_calls disable_calls [unfolded One_nat_def] runs)
  have two: "rotate_and_disable = [rotate_and_disable ! 0, rotate_and_disable ! 1]" by (simp add: rotate_and_disable_def)
  have "map2 (\<lambda>f as. map_option rs_status (response_of f as)) rotate_and_disable [?A, ?A] = [Some 200, Some 200]"
    by (subst two) (simp add: rotate_calls(3) disable_calls(3) [unfolded One_nat_def])
  then show ?thesis
    unfolding run by (simp add: sq_view_def scan_key_def key_values_def)
qed

section \<open>An object read while it is replaced\<close>

definition new_blob :: gostring where "new_blob = hex_encode (replicate 16 1)"

definition new_path :: "gostring list" where "new_path = [''objects'', ''01'', new_blob]"

lemma new_blob_path: "blob_path new_blob = Some new_path" "new_path \<noteq> up_path"
proof -
  have "take 2 new_blob = ''01''" "new_blob \<noteq> up_blob" by code_simp+
  then show "blob_path new_blob = Some new_path" "new_path \<noteq> up_path"
    using validID_hex [of "replicate 16 1"] by (simp_all add: blob_path_def new_blob_def [symmetric] new_path_def up_path_def)
qed

definition replacing_env :: env where
  "replacing_env = plain_env\<lparr>ev_blob := replicate 16 1\<rparr>"

definition read_and_replace :: "program list" where
  "read_and_replace =
     [getObject (replaying (server plain_config)) plain_env [] (object_request ''GET'' []),
      putObject (replaying (server plain_config)) replacing_env [] (object_request ''PUT'' [33])]"

definition photos :: bucket where
  "photos = scan_bucket ''photos'' \<lparr>br_public = True, br_created = 0\<rparr>"

definition new_object :: object where
  "new_object = \<lparr>o_Bucket = ''photos'', o_Key = ''cat'', o_BlobID = new_blob, o_Size = 1,
     o_ContentType = ''application/octet-stream'', o_Checksum = EncodeCRC32C (crc32c [33]), o_Metadata = [],
     o_CreatedAt = ev_now replacing_env 1\<rparr>"

lemma photos_simps [simp]: "b_Public photos" "b_Name photos = ''photos''"
  by (simp_all add: photos_def scan_bucket_def)

lemma three_bytes_simps [simp]: "o_BlobID three_bytes = up_blob"
  by (simp add: three_bytes_def scan_object_def listing_world_def)

lemma read_calls:
  "next_call (read_and_replace ! 0) [] = Some (BS_GetBucket ''photos'')"
  "next_call (read_and_replace ! 0) [BucketAnswer (Inr photos)] = Some (OS_GetObject ''photos'' ''cat'')"
  "next_call (read_and_replace ! 0) [BucketAnswer (Inr photos), ObjectAnswer (Inr three_bytes)] = Some (BL_Open up_blob)"
  "map_option rs_status (response_of (read_and_replace ! 0)
     [BucketAnswer (Inr photos), ObjectAnswer (Inr three_bytes), BytesAnswer (Inl ErrNotFound)]) = Some 500"
  by (simp_all add: read_and_replace_def response_of_def next_call_def getObject_def readableBucket_def Let_def plain_names
    writeError_status statusOf_def)

lemma replace_calls:
  "next_call (read_and_replace ! 1) [] = Some (BS_GetBucket ''photos'')"
  "next_call (read_and_replace ! 1) [BucketAnswer (Inr photos)] = Some (BL_Create (replicate 16 1))"
  "next_call (read_and_replace ! 1) [BucketAnswer (Inr photos), IdAnswer (Inr new_blob)] =
     Some (BL_Write new_blob 0 \<lparr>rd_bytes = [33], rd_end = BodyEOF\<rparr>)"
  "next_call (read_and_replace ! 1) [BucketAnswer (Inr photos), IdAnswer (Inr new_blob), WriteAnswer (1, None)] =
     Some (BL_Sync new_blob)"
  "next_call (read_and_replace ! 1) [BucketAnswer (Inr photos), IdAnswer (Inr new_blob), WriteAnswer (1, None), DoneAnswer (Inr ())] =
     Some (OS_PutObject new_object)"
  "next_call (read_and_replace ! 1) [BucketAnswer (Inr photos), IdAnswer (Inr new_blob), WriteAnswer (1, None), DoneAnswer (Inr ()),
     IdAnswer (Inr up_blob)] = Some (BL_Remove up_blob)"
  "map_option rs_status (response_of (read_and_replace ! 1) [BucketAnswer (Inr photos), IdAnswer (Inr new_blob), WriteAnswer (1, None),
     DoneAnswer (Inr ()), IdAnswer (Inr up_blob), DoneAnswer (Inr ())]) = Some 201"
proof -
  have blob: "ev_blob replacing_env = replicate 16 1" by (simp add: replacing_env_def)
  have up: "up_blob \<noteq> []" by (simp add: up_blob_def)
  have ct: "Header_Get [] n = []" for n by (simp add: Header_Get_def Values_Get_def)
  note run = read_and_replace_def response_of_def next_call_def putObject_def storeBody_def recordObject_def Let_def plain_names blob
    maxBodyLength_def ct new_object_def up writeJSON_def
  show "next_call (read_and_replace ! 1) [] = Some (BS_GetBucket ''photos'')" by (simp add: run)
  show "next_call (read_and_replace ! 1) [BucketAnswer (Inr photos)] = Some (BL_Create (replicate 16 1))" by (simp add: run)
  show "next_call (read_and_replace ! 1) [BucketAnswer (Inr photos), IdAnswer (Inr new_blob)] =
     Some (BL_Write new_blob 0 \<lparr>rd_bytes = [33], rd_end = BodyEOF\<rparr>)" by (simp add: run)
  show "next_call (read_and_replace ! 1) [BucketAnswer (Inr photos), IdAnswer (Inr new_blob), WriteAnswer (1, None)] =
     Some (BL_Sync new_blob)" by (simp add: run)
  show "next_call (read_and_replace ! 1) [BucketAnswer (Inr photos), IdAnswer (Inr new_blob), WriteAnswer (1, None), DoneAnswer (Inr ())] =
     Some (OS_PutObject new_object)" by (simp add: run)
  show "next_call (read_and_replace ! 1) [BucketAnswer (Inr photos), IdAnswer (Inr new_blob), WriteAnswer (1, None), DoneAnswer (Inr ()),
     IdAnswer (Inr up_blob)] = Some (BL_Remove up_blob)" by (simp add: run)
  show "map_option rs_status (response_of (read_and_replace ! 1) [BucketAnswer (Inr photos), IdAnswer (Inr new_blob), WriteAnswer (1, None),
     DoneAnswer (Inr ()), IdAnswer (Inr up_blob), DoneAnswer (Inr ())]) = Some 201" by (simp add: run)
qed

text \<open>
  C14. An overwrite is not atomic to readers: an object is read while a PUT replaces it; the PUT is
  answered 201, and the GET, of a key that has bytes before and after, neither with the old bytes
  nor with the new ones but with 500.
\<close>

theorem overwrite_breaks_reader:
  "case interleave (server plain_config) read_and_replace [0, 0, 1, 1, 1, 1, 1, 1, 0] ranged_world of
     (ass, s) \<Rightarrow> map2 (\<lambda>f as. map_option rs_status (response_of f as)) read_and_replace ass = [Some 500, Some 201] \<and>
       (\<exists>ob. stored (sq_view ranged_world) ''photos'' ''cat'' ob [104, 105, 33]) \<and>
       (\<exists>ob. stored (sq_view s) ''photos'' ''cat'' ob [33])"
proof -
  let ?A = "[BucketAnswer (Inr photos), ObjectAnswer (Inr three_bytes), BytesAnswer (Inl ErrNotFound)]"
    and ?B = "[BucketAnswer (Inr photos), IdAnswer (Inr new_blob), WriteAnswer (1, None), DoneAnswer (Inr ()), IdAnswer (Inr up_blob),
      DoneAnswer (Inr ())]"
  define w1 where "w1 = ranged_world\<lparr>dk_files := map_put (dk_files ranged_world) new_path []\<rparr>"
  define w2 where "w2 = w1\<lparr>dk_files := map_put (dk_files w1) new_path [33]\<rparr>"
  define w3 where "w3 = w2\<lparr>sq_objects := map_put (sq_objects w2) (''photos'', ''cat'') (object_values new_object)\<rparr>"
  define w4 where "w4 = w3\<lparr>dk_files := map_del (dk_files w3) up_path\<rparr>"
  note world = w1_def w2_def w3_def w4_def
  have quiet: "sq_faults ranged_world = []" "dk_faults ranged_world = []" "dk_files ranged_world = [(up_path, [104, 105, 33])]"
    "sq_objects ranged_world = sq_objects listing_world" "sq_buckets ranged_world = [(''photos'', \<lparr>br_public = True, br_created = 0\<rparr>)]"
    by (simp_all add: ranged_world_def listing_world_def plain_world_def sq_empty_def)
  have row: "map_of (sq_objects listing_world) (''photos'', ''cat'') = Some (snd (hd (sq_objects listing_world)))"
    "or_blob_id (snd (hd (sq_objects listing_world))) = up_blob" by (simp_all add: listing_world_def)
  have runs: "sq_GetBucket ''photos'' ranged_world = (Inr photos, ranged_world)"
    "sq_GetObject ''photos'' ''cat'' ranged_world = (Inr three_bytes, ranged_world)"
    "disk_Create (replicate 16 1) ranged_world = (Inr new_blob, w1)"
    "disk_Write new_blob 0 \<lparr>rd_bytes = [33], rd_end = BodyEOF\<rparr> w1 = ((1, None), w2)"
    "disk_Sync new_blob w2 = (Inr (), w2)" "sq_PutObject new_object w2 = (Inr up_blob, w3)"
    "disk_Remove up_blob w3 = (Inr (), w4)" "disk_Open up_blob w4 = (Inl ErrNotFound, w4)"
    using new_blob_path upload_facts(4)
    by (simp_all add: world sq_GetBucket_def sq_GetObject_def disk_Create_def disk_Write_def disk_Sync_def disk_Remove_def
      disk_Open_def sq_PutObject_def db_tx_def putObjectTx_def db_commit_def db_pop_def quiet row photos_def three_bytes_def
      new_blob_def [symmetric] Let_def end_error_def new_object_def)
  have "length read_and_replace = 2" by (simp add: read_and_replace_def)
  then have run: "interleave (server plain_config) read_and_replace [0, 0, 1, 1, 1, 1, 1, 1, 0] ranged_world = ([?A, ?B], w4)"
    by (simp add: interleave_def numeral_2_eq_2 tick_def read_calls replace_calls [unfolded One_nat_def] runs)
  have two: "read_and_replace = [read_and_replace ! 0, read_and_replace ! 1]" by (simp add: read_and_replace_def)
  have "map2 (\<lambda>f as. map_option rs_status (response_of f as)) read_and_replace [?A, ?B] = [Some 500, Some 201]"
    by (subst two) (simp add: read_calls(4) replace_calls(7) [unfolded One_nat_def])
  moreover have "stored (sq_view w4) ''photos'' ''cat'' (scan_object ''photos'' ''cat'' (object_values new_object)) [33]"
    using new_blob_path upload_facts(4)
    by (simp add: stored_def sq_view_def world blobs_of_def scan_object_def object_values_def new_object_def)
  ultimately show ?thesis unfolding run using ranged_world_ok(2) by auto
qed

section \<open>Two requests on a new server\<close>

definition two_requests :: "(env \<times> request) list" where
  "two_requests = [(plain_env, object_request ''PUT'' [104, 105]), (plain_env\<lparr>ev_session := [1]\<rparr>, upload_request [] [] JsonEOF)]"

lemma concurrent_requests_stay_consistent_witness:
  "consistent (sq_view (snd (interleave (server plain_config) (requests (server plain_config) two_requests) [0, 1, 1, 0]
    (after_history plain_config 0 [] [] []))))"
proof (rule concurrent_requests_stay_consistent)
  have "hex_encode [1] \<noteq> []" by code_simp
  then show "distinct (map session_draw two_requests)"
    by (simp add: two_requests_def session_draw_def plain_env_def hex_encode_def)
  show "\<forall>er \<in> set two_requests. v_uploads (sq_view (after_history plain_config 0 [] [] [])) (session_draw er) = None"
    by (simp add: after_history_def start_def plain_config_def sq_empty_def sq_view_def)
qed


end
