(* ===== verification/Storetest_Keys.thy ===== *)
theory Storetest_Keys
  imports Store_Spec
begin

text \<open>
  The store contract tests of \<open>internal/storetest\<close>: the vocabulary of a test, and the suite every
  \<open>KeyStore\<close> must pass (\<open>keystore.go\<close>).  A suite runs over a store, a record of operations, and a
  factory that builds its state; a subtest is true when it reports nothing, and a suite is the list of the
  subtests that failed.  The text of the reports is left out.
\<close>

section \<open>Tests\<close>

text \<open>
  \<open>must\<close> goes on with the value of a call that has to succeed and is \<open>t.Fatalf\<close> otherwise;
  \<open>must_fail e\<close> goes on when the error is \<open>e\<close> in the sense of \<open>errors.Is\<close>; \<open>fails_with e\<close> is the
  check alone.  \<open>value_of z\<close> is the value of a call whose error is dropped: with an error the
  stores return the zero value \<open>z\<close>.
\<close>

fun must :: "(store_err + 'a) \<times> 's \<Rightarrow> ('a \<Rightarrow> 's \<Rightarrow> bool) \<Rightarrow> bool" where
  "must (Inl e, s) rest = False"
| "must (Inr x, s) rest = rest x s"

fun fails_with :: "store_err \<Rightarrow> store_err + 'a \<Rightarrow> bool" where
  "fails_with e (Inl e') = (e' = e)"
| "fails_with e (Inr _) = False"

definition must_fail :: "store_err \<Rightarrow> (store_err + 'a) \<times> 's \<Rightarrow> ('s \<Rightarrow> bool) \<Rightarrow> bool" where
  "must_fail e c rest = (fails_with e (fst c) \<and> rest (snd c))"

fun value_of :: "'a \<Rightarrow> store_err + 'a \<Rightarrow> 'a" where
  "value_of z (Inl _) = z"
| "value_of z (Inr x) = x"

text \<open>\<open>t.Run\<close>, and a suite: the names of the subtests that failed, in order.\<close>

definition failures :: "(gostring \<times> bool) list \<Rightarrow> gostring list" where
  "failures tests = map fst (filter (\<lambda>(name, passed). \<not> passed) tests)"

text \<open>\<open>reflect.DeepEqual\<close> on Go maps: the same entries, in whatever order.\<close>

definition same_map :: "('k, 'v) gomap \<Rightarrow> ('k, 'v) gomap \<Rightarrow> bool" where
  "same_map m n \<longleftrightarrow>
     list_all (\<lambda>k. map_of m k = map_of n k) (map_keys m) \<and> list_all (\<lambda>k. map_of m k = map_of n k) (map_keys n)"

lemma failures_simps [simp]:
  "failures [] = []" "failures ((n, True) # ts) = failures ts" "failures ((n, False) # ts) = n # failures ts"
  by (simp_all add: failures_def)

lemma must_fail_simps [simp]:
  "must_fail e (Inl e', s) rest \<longleftrightarrow> e' = e \<and> rest s" "must_fail e (Inr x, s) rest \<longleftrightarrow> False"
  by (simp_all add: must_fail_def)

lemma same_map_iff: "same_map m n \<longleftrightarrow> map_of m = map_of n"
proof
  assume *: "same_map m n"
  show "map_of m = map_of n"
  proof
    fix k
    show "map_of m k = map_of n k"
    proof (cases "k \<in> set (map fst m) \<union> set (map fst n)")
      case True
      with * show ?thesis by (auto simp: same_map_def map_keys_def list_all_iff)
    next
      case False
      then have "map_of m k = None" "map_of n k = None" by (simp_all add: map_of_eq_None_iff)
      then show ?thesis by simp
    qed
  qed
qed (simp add: same_map_def list_all_iff)

section \<open>The keys of the suite\<close>

definition no_key :: apikey where
  "no_key = \<lparr>k_ID = [], k_Secret = [], k_Name = [], k_Admin = False, k_Scopes = [], k_Disabled = False,
     k_CreatedAt = 0\<rparr>"

definition created :: time where "created = time_Unix 1788912000"

definition alice :: apikey where
  "alice = no_key\<lparr>k_ID := ''tk_alice'', k_Secret := ''s-alice'', k_Name := ''alice'', k_Admin := True,
     k_CreatedAt := created\<rparr>"

definition revoked :: apikey where
  "revoked = no_key\<lparr>k_ID := ''tk_revoked'', k_Secret := ''s-revoked'', k_Name := ''revoked'', k_Admin := True,
     k_Disabled := True, k_CreatedAt := created\<rparr>"

definition scoped_reader :: apikey where
  "scoped_reader = no_key\<lparr>k_ID := ''tk_reader'', k_Secret := ''s-reader'', k_Name := ''reader'',
     k_Scopes := [(''photos'', Read), (''*'', Read)], k_CreatedAt := created\<rparr>"

text \<open>
  The first field in which two keys differ, or the empty string; the text of the two times is left
  out of the report.
\<close>

definition diffKey :: "apikey \<Rightarrow> apikey \<Rightarrow> gostring" where
  "diffKey got want =
     (if k_ID got \<noteq> k_ID want then ''ID = '' @ k_ID got @ '', want '' @ k_ID want
      else if k_Secret got \<noteq> k_Secret want then ''Secret differs''
      else if k_Name got \<noteq> k_Name want then ''Name = '' @ k_Name got @ '', want '' @ k_Name want
      else if k_Admin got \<noteq> k_Admin want then ''Admin differs''
      else if k_Disabled got \<noteq> k_Disabled want then ''Disabled differs''
      else if k_CreatedAt got \<noteq> k_CreatedAt want then ''CreatedAt''
      else if (length (k_Scopes got) \<noteq> 0 \<or> length (k_Scopes want) \<noteq> 0) \<and>
              \<not> same_map (k_Scopes got) (k_Scopes want) then ''Scopes differ''
      else [])"

section \<open>The subtests\<close>

fun keys_get_each :: "'s key_store \<Rightarrow> apikey list \<Rightarrow> 's \<Rightarrow> bool" where
  "keys_get_each st [] s = True"
| "keys_get_each st (want # rest) s =
     must (ks_GetKey st (k_ID want) s) (\<lambda>got s1. diffKey got want = [] \<and> keys_get_each st rest s1)"

definition keys_every_field :: "'s key_store \<Rightarrow> (apikey list \<Rightarrow> 's) \<Rightarrow> bool" where
  "keys_every_field st newStore = keys_get_each st [alice, scoped_reader] (newStore [alice, revoked, scoped_reader])"

definition keys_disabled :: "'s key_store \<Rightarrow> (apikey list \<Rightarrow> 's) \<Rightarrow> bool" where
  "keys_disabled st newStore =
     must (ks_GetKey st ''tk_revoked'' (newStore [alice, revoked])) (\<lambda>got s. k_Disabled got)"

definition keys_unknown :: "'s key_store \<Rightarrow> (apikey list \<Rightarrow> 's) \<Rightarrow> bool" where
  "keys_unknown st newStore =
     (let (got, s) = ks_GetKey st ''tk_nobody'' (newStore [alice]) in
      if \<not> fails_with ErrNotFound got then False
      else diffKey (value_of no_key got) no_key = [])"

definition keys_exact_ids :: "'s key_store \<Rightarrow> (apikey list \<Rightarrow> 's) \<Rightarrow> bool" where
  "keys_exact_ids st newStore = fails_with ErrNotFound (fst (ks_GetKey st ''TK_ALICE'' (newStore [alice])))"

definition keys_empty :: "'s key_store \<Rightarrow> (apikey list \<Rightarrow> 's) \<Rightarrow> bool" where
  "keys_empty st newStore =
     (let (got, s) = ks_GetKey st ''tk_alice'' (newStore []) in
      fails_with ErrNotFound got \<and> must (ks_ListKeys st s) (\<lambda>keys s1. length keys = 0))"

definition keys_create :: "'s key_store \<Rightarrow> (apikey list \<Rightarrow> 's) \<Rightarrow> bool" where
  "keys_create st newStore =
     must (ks_CreateKey st scoped_reader (newStore [])) (\<lambda>_ s.
     must (ks_GetKey st ''tk_reader'' s) (\<lambda>got s1. diffKey got scoped_reader = []))"

definition keys_create_twice :: "'s key_store \<Rightarrow> (apikey list \<Rightarrow> 's) \<Rightarrow> bool" where
  "keys_create_twice st newStore =
     (let dup = alice\<lparr>k_Secret := ''s-other'', k_Name := ''impostor''\<rparr> in
      must_fail ErrConflict (ks_CreateKey st dup (newStore [alice])) (\<lambda>s.
      must (ks_GetKey st ''tk_alice'' s) (\<lambda>got s1. diffKey got alice = [])))"

definition keys_no_scopes :: "'s key_store \<Rightarrow> (apikey list \<Rightarrow> 's) \<Rightarrow> bool" where
  "keys_no_scopes st newStore =
     (let none = no_key\<lparr>k_ID := ''tk_none'', k_Secret := ''s'', k_Name := ''none'', k_CreatedAt := created\<rparr> in
      must (ks_CreateKey st none (newStore [])) (\<lambda>_ s.
      must (ks_GetKey st ''tk_none'' s) (\<lambda>got s1. length (k_Scopes got) = 0)))"

definition keys_list :: "'s key_store \<Rightarrow> (apikey list \<Rightarrow> 's) \<Rightarrow> bool" where
  "keys_list st newStore =
     must (ks_ListKeys st (newStore [revoked, alice, scoped_reader])) (\<lambda>keys s.
       (let want = [alice, scoped_reader, revoked] in
        if length keys \<noteq> length want then False
        else list_all (\<lambda>(got, want). diffKey got want = []) (zip keys want)))"

definition keys_update :: "'s key_store \<Rightarrow> (apikey list \<Rightarrow> 's) \<Rightarrow> bool" where
  "keys_update st newStore =
     (let changed = scoped_reader\<lparr>k_Secret := ''s-rotated'', k_Name := ''reader-2'', k_Admin := True, k_Scopes := [],
            k_Disabled := True, k_CreatedAt := created + 3600 * Second\<rparr> in
      must (ks_UpdateKey st changed (newStore [scoped_reader])) (\<lambda>_ s.
      must (ks_GetKey st ''tk_reader'' s) (\<lambda>got s1. diffKey got (changed\<lparr>k_CreatedAt := created\<rparr>) = [])))"

definition keys_update_scopes :: "'s key_store \<Rightarrow> (apikey list \<Rightarrow> 's) \<Rightarrow> bool" where
  "keys_update_scopes st newStore =
     (let changed = scoped_reader\<lparr>k_Scopes := [(''photos'', Write)]\<rparr> in
      must (ks_UpdateKey st changed (newStore [scoped_reader])) (\<lambda>_ s.
      must (ks_GetKey st ''tk_reader'' s) (\<lambda>got s1.
        diffKey got changed = [] \<and> map_of (k_Scopes got) ''*'' = None)))"

definition keys_update_unknown :: "'s key_store \<Rightarrow> (apikey list \<Rightarrow> 's) \<Rightarrow> bool" where
  "keys_update_unknown st newStore =
     must_fail ErrNotFound (ks_UpdateKey st (scoped_reader\<lparr>k_ID := ''tk_ghost''\<rparr>) (newStore [alice])) (\<lambda>s.
       fails_with ErrNotFound (fst (ks_GetKey st ''tk_ghost'' s)))"

definition keys_delete :: "'s key_store \<Rightarrow> (apikey list \<Rightarrow> 's) \<Rightarrow> bool" where
  "keys_delete st newStore =
     must (ks_DeleteKey st ''tk_reader'' (newStore [alice, scoped_reader])) (\<lambda>_ s.
       (let (got, s1) = ks_GetKey st ''tk_reader'' s; (again, s2) = ks_DeleteKey st ''tk_reader'' s1 in
        fails_with ErrNotFound got \<and> fails_with ErrNotFound again \<and>
        must (ks_ListKeys st s2) (\<lambda>keys s3. length keys = 1 \<and> k_ID (keys ! 0) = ''tk_alice'')))"

text \<open>The caller's own copy is changed and thrown away; the store is read again.\<close>

definition keys_copy :: "'s key_store \<Rightarrow> (apikey list \<Rightarrow> 's) \<Rightarrow> bool" where
  "keys_copy st newStore =
     must (ks_GetKey st ''tk_reader'' (newStore [scoped_reader])) (\<lambda>got s.
       (let mutated = got\<lparr>k_Scopes := map_put (k_Scopes got) ''photos'' Write\<rparr> in
        must (ks_GetKey st ''tk_reader'' s) (\<lambda>again s1. scope_of (k_Scopes again) ''photos'' = Read)))"

section \<open>The suite\<close>

definition KeyStore :: "'s key_store \<Rightarrow> (apikey list \<Rightarrow> 's) \<Rightarrow> gostring list" where
  "KeyStore st newStore = failures
     [(''GetKey returns the key with every field'', keys_every_field st newStore),
      (''GetKey returns a disabled key rather than hiding it'', keys_disabled st newStore),
      (''GetKey unknown id is ErrNotFound with a zero key'', keys_unknown st newStore),
      (''ids are exact, not case-insensitive'', keys_exact_ids st newStore),
      (''empty store finds and lists nothing'', keys_empty st newStore),
      (''CreateKey stores the key and GetKey returns it'', keys_create st newStore),
      (''CreateKey with an existing id is ErrConflict and changes nothing'', keys_create_twice st newStore),
      (''a key with no scopes reads back with none'', keys_no_scopes st newStore),
      (''ListKeys returns every key ordered by id'', keys_list st newStore),
      (''UpdateKey replaces the mutable fields and keeps created_at'', keys_update st newStore),
      (''UpdateKey replaces scopes rather than merging them'', keys_update_scopes st newStore),
      (''UpdateKey unknown id is ErrNotFound and creates nothing'', keys_update_unknown st newStore),
      (''DeleteKey removes the key; a second delete is ErrNotFound'', keys_delete st newStore),
      (''a returned key is a copy: mutating its scopes does not change the store'', keys_copy st newStore)]"

lemmas keys_subtests = keys_every_field_def keys_disabled_def keys_unknown_def keys_exact_ids_def keys_empty_def
  keys_create_def keys_create_twice_def keys_no_scopes_def keys_list_def keys_update_def keys_update_scopes_def
  keys_update_unknown_def keys_delete_def keys_copy_def

end
