(* ===== verification/Storetest_Buckets.thy ===== *)
theory Storetest_Buckets
  imports Storetest_Keys
begin

text \<open>
  The suite every \<open>BucketStore\<close> must pass (\<open>internal/storetest/bucketstore.go\<close>).  The factory is the
  state of a fresh, empty store.
\<close>

definition no_bucket :: bucket where "no_bucket = \<lparr>b_Name = [], b_Public = False, b_CreatedAt = 0\<rparr>"

text \<open>2026-09-10 12:00:00 UTC.\<close>

definition bucket_time :: time where "bucket_time = time_Unix 1789041600"

definition bucket_at :: "gostring \<Rightarrow> bool \<Rightarrow> bucket" where
  "bucket_at name public = \<lparr>b_Name = name, b_Public = public, b_CreatedAt = bucket_time\<rparr>"

definition buckets_create :: "'s bucket_store \<Rightarrow> 's \<Rightarrow> bool" where
  "buckets_create st new =
     (let want = bucket_at ''photos'' True in
      must (bs_CreateBucket st want new) (\<lambda>_ s. must (bs_GetBucket st ''photos'' s) (\<lambda>got s1. got = want)))"

definition buckets_unknown :: "'s bucket_store \<Rightarrow> 's \<Rightarrow> bool" where
  "buckets_unknown st new =
     (let (got, s) = bs_GetBucket st ''nope'' new in
      if \<not> fails_with ErrNotFound got then False else value_of no_bucket got = no_bucket)"

definition buckets_create_twice :: "'s bucket_store \<Rightarrow> 's \<Rightarrow> bool" where
  "buckets_create_twice st new =
     (let first = bucket_at ''photos'' False;
          second = \<lparr>b_Name = ''photos'', b_Public = True, b_CreatedAt = bucket_time + 3600 * Second\<rparr> in
      must (bs_CreateBucket st first new) (\<lambda>_ s.
      must_fail ErrConflict (bs_CreateBucket st second s) (\<lambda>s1.
        value_of no_bucket (fst (bs_GetBucket st ''photos'' s1)) = first)))"

text \<open>The loops that create a list of buckets, each of which must succeed.\<close>

fun create_buckets :: "'s bucket_store \<Rightarrow> gostring list \<Rightarrow> 's \<Rightarrow> ('s \<Rightarrow> bool) \<Rightarrow> bool" where
  "create_buckets st [] s rest = rest s"
| "create_buckets st (name # names) s rest =
     must (bs_CreateBucket st (bucket_at name False) s) (\<lambda>_ s1. create_buckets st names s1 rest)"

definition buckets_list :: "'s bucket_store \<Rightarrow> 's \<Rightarrow> bool" where
  "buckets_list st new =
     must (bs_ListBuckets st new) (\<lambda>list s.
       if length list \<noteq> 0 then False
       else create_buckets st [''zeta'', ''alpha'', ''mid''] s (\<lambda>s1.
         must (bs_ListBuckets st s1) (\<lambda>list s2. map b_Name list = [''alpha'', ''mid'', ''zeta''])))"

text \<open>
  The listed slice is the caller's: its first bucket is renamed there (which panics when the list is
  empty), and the store is read again.
\<close>

definition buckets_list_copy :: "'s bucket_store \<Rightarrow> 's \<Rightarrow> bool" where
  "buckets_list_copy st new =
     must (bs_CreateBucket st (bucket_at ''photos'' False) new) (\<lambda>_ s.
       (let (list, s1) = bs_ListBuckets st s in
        case value_of [] list of
          [] \<Rightarrow> False
        | b # bs \<Rightarrow>
            (let mutated = b\<lparr>b_Name := ''mutated''\<rparr> # bs in
             must (bs_GetBucket st ''photos'' s1) (\<lambda>got s2. b_Name got = ''photos''))))"

definition buckets_delete :: "'s bucket_store \<Rightarrow> 's \<Rightarrow> bool" where
  "buckets_delete st new =
     must (bs_CreateBucket st (bucket_at ''photos'' False) new) (\<lambda>_ s.
     must (bs_DeleteBucket st ''photos'' s) (\<lambda>_ s1.
       (let (got, s2) = bs_GetBucket st ''photos'' s1; (list, s3) = bs_ListBuckets st s2 in
        fails_with ErrNotFound got \<and> length (value_of [] list) = 0)))"

definition buckets_delete_unknown :: "'s bucket_store \<Rightarrow> 's \<Rightarrow> bool" where
  "buckets_delete_unknown st new = fails_with ErrNotFound (fst (bs_DeleteBucket st ''nope'' new))"

definition buckets_recreate :: "'s bucket_store \<Rightarrow> 's \<Rightarrow> bool" where
  "buckets_recreate st new =
     (let b = bucket_at ''photos'' False in
      must (bs_CreateBucket st b new) (\<lambda>_ s.
      must (bs_DeleteBucket st ''photos'' s) (\<lambda>_ s1.
      must (bs_CreateBucket st b s1) (\<lambda>_ s2. True))))"

definition buckets_update :: "'s bucket_store \<Rightarrow> 's \<Rightarrow> bool" where
  "buckets_update st new =
     (let changed = \<lparr>b_Name = ''photos'', b_Public = True, b_CreatedAt = bucket_time + 3600 * Second\<rparr> in
      must (bs_CreateBucket st (bucket_at ''photos'' False) new) (\<lambda>_ s.
      must (bs_UpdateBucket st changed s) (\<lambda>_ s1.
      must (bs_GetBucket st ''photos'' s1) (\<lambda>got s2. b_Public got \<and> b_CreatedAt got = bucket_time))))"

definition buckets_update_unknown :: "'s bucket_store \<Rightarrow> 's \<Rightarrow> bool" where
  "buckets_update_unknown st new =
     must_fail ErrNotFound (bs_UpdateBucket st (bucket_at ''ghost'' True) new) (\<lambda>s.
       fails_with ErrNotFound (fst (bs_GetBucket st ''ghost'' s)))"

definition BucketStore :: "'s bucket_store \<Rightarrow> 's \<Rightarrow> gostring list" where
  "BucketStore st new = failures
     [(''create then get returns every field'', buckets_create st new),
      (''get unknown is ErrNotFound with a zero bucket'', buckets_unknown st new),
      (''create twice is ErrConflict and keeps the first'', buckets_create_twice st new),
      (''list is ordered by name and empty when empty'', buckets_list st new),
      (''list returns a copy the caller may modify'', buckets_list_copy st new),
      (''delete removes and then get is ErrNotFound'', buckets_delete st new),
      (''delete unknown is ErrNotFound'', buckets_delete_unknown st new),
      (''delete then create again succeeds'', buckets_recreate st new),
      (''update replaces public and keeps created_at'', buckets_update st new),
      (''update unknown is ErrNotFound and creates nothing'', buckets_update_unknown st new)]"

lemmas buckets_subtests = buckets_create_def buckets_unknown_def buckets_create_twice_def buckets_list_def
  buckets_list_copy_def buckets_delete_def buckets_delete_unknown_def buckets_recreate_def buckets_update_def
  buckets_update_unknown_def

end
