(* ===== verification/Storetest_Objects.thy ===== *)
theory Storetest_Objects
  imports Storetest_Buckets
begin

text \<open>
  The suite every \<open>ObjectStore\<close> must pass (\<open>internal/storetest/objectstore.go\<close>).  Calls whose results
  the tests drop run for their effect.
\<close>

definition no_object :: object where
  "no_object = \<lparr>o_Bucket = [], o_Key = [], o_BlobID = [], o_Size = 0, o_ContentType = [], o_Checksum = [],
     o_Metadata = [], o_CreatedAt = 0\<rparr>"

text \<open>2026-09-11 12:00:00 UTC.\<close>

definition object_time :: time where "object_time = time_Unix 1789128000"

definition test_object :: "gostring \<Rightarrow> gostring \<Rightarrow> gostring \<Rightarrow> object" where
  "test_object bucket key blob =
     \<lparr>o_Bucket = bucket, o_Key = key, o_BlobID = blob, o_Size = 3, o_ContentType = ''text/plain'',
      o_Checksum = ''crc32c=AAAAAA=='', o_Metadata = [(''title'', ''t'')], o_CreatedAt = object_time\<rparr>"

text \<open>\<open>reflect.DeepEqual\<close> of two objects.\<close>

definition same_object :: "object \<Rightarrow> object \<Rightarrow> bool" where
  "same_object a b \<longleftrightarrow>
     a\<lparr>o_Metadata := []\<rparr> = b\<lparr>o_Metadata := []\<rparr> \<and> same_map (o_Metadata a) (o_Metadata b)"

definition keysOf :: "object list \<Rightarrow> gostring list" where "keysOf list = map o_Key list"

definition objects_put :: "'s object_store \<Rightarrow> 's \<Rightarrow> bool" where
  "objects_put st new =
     (let want = test_object ''photos'' ''a.txt'' ''blob-1'' in
      must (os_PutObject st want new) (\<lambda>prev s. prev = [] \<and>
      must (os_GetObject st ''photos'' ''a.txt'' s) (\<lambda>got s1. same_object got want)))"

definition objects_unknown :: "'s object_store \<Rightarrow> 's \<Rightarrow> bool" where
  "objects_unknown st new =
     (let (got, s) = os_GetObject st ''photos'' ''nope'' new in
      if \<not> fails_with ErrNotFound got then False else same_object (value_of no_object got) no_object)"

definition objects_overwrite :: "'s object_store \<Rightarrow> 's \<Rightarrow> bool" where
  "objects_overwrite st new =
     must (os_PutObject st (test_object ''photos'' ''a.txt'' ''blob-1'') new) (\<lambda>_ s.
     must (os_PutObject st (test_object ''photos'' ''a.txt'' ''blob-2''\<lparr>o_Size := 99\<rparr>) s) (\<lambda>prev s1.
       prev = ''blob-1'' \<and>
       (let got = value_of no_object (fst (os_GetObject st ''photos'' ''a.txt'' s1))
        in o_BlobID got = ''blob-2'' \<and> o_Size got = 99)))"

definition objects_two_buckets :: "'s object_store \<Rightarrow> 's \<Rightarrow> bool" where
  "objects_two_buckets st new =
     (let s = snd (os_PutObject st (test_object ''photos'' ''a.txt'' ''blob-p'') new);
          s1 = snd (os_PutObject st (test_object ''docs'' ''a.txt'' ''blob-d'') s);
          (p, s2) = os_GetObject st ''photos'' ''a.txt'' s1;
          (d, s3) = os_GetObject st ''docs'' ''a.txt'' s2
      in o_BlobID (value_of no_object p) = ''blob-p'' \<and> o_BlobID (value_of no_object d) = ''blob-d'')"

definition objects_delete :: "'s object_store \<Rightarrow> 's \<Rightarrow> bool" where
  "objects_delete st new =
     (let s = snd (os_PutObject st (test_object ''photos'' ''a.txt'' ''blob-1'') new) in
      must (os_DeleteObject st ''photos'' ''a.txt'' s) (\<lambda>blob s1.
        blob = ''blob-1'' \<and> fails_with ErrNotFound (fst (os_GetObject st ''photos'' ''a.txt'' s1))))"

definition objects_delete_unknown :: "'s object_store \<Rightarrow> 's \<Rightarrow> bool" where
  "objects_delete_unknown st new = fails_with ErrNotFound (fst (os_DeleteObject st ''photos'' ''nope'' new))"

text \<open>The loops that put objects under a list of keys.\<close>

fun put_keys :: "'s object_store \<Rightarrow> (gostring \<Rightarrow> gostring) \<Rightarrow> gostring list \<Rightarrow> 's \<Rightarrow> 's" where
  "put_keys st blob [] s = s"
| "put_keys st blob (k # ks) s = put_keys st blob ks (snd (os_PutObject st (test_object ''photos'' k (blob k)) s))"

definition objects_list :: "'s object_store \<Rightarrow> 's \<Rightarrow> bool" where
  "objects_list st new =
     (let s = put_keys st (\<lambda>k. ''blob-'' @ k) [''b'', ''a'', ''B'', ''a/b'', ''a.b''] new;
          s1 = snd (os_PutObject st (test_object ''docs'' ''a'' ''blob-other'') s) in
      must (os_ListObjects st ''photos'' [] [] 100 s1) (\<lambda>list s2.
        keysOf list = [''B'', ''a'', ''a.b'', ''a/b'', ''b'']))"

definition objects_prefix :: "'s object_store \<Rightarrow> 's \<Rightarrow> bool" where
  "objects_prefix st new =
     (let s = put_keys st (\<lambda>_. ''blob'') [''2025/x'', ''2026/a'', ''2026/b'', ''2027/y'', ''2026''] new;
          (list, s1) = os_ListObjects st ''photos'' ''2026/'' [] 100 s;
          (list2, s2) = os_ListObjects st ''photos'' ''2026'' [] 100 s1
      in keysOf (value_of [] list) = [''2026/a'', ''2026/b''] \<and>
         keysOf (value_of [] list2) = [''2026'', ''2026/a'', ''2026/b''])"

definition objects_pages :: "'s object_store \<Rightarrow> 's \<Rightarrow> bool" where
  "objects_pages st new =
     (let s = put_keys st (\<lambda>_. ''blob'') [''a'', ''b'', ''c'', ''d'', ''e''] new;
          (page1, s1) = os_ListObjects st ''photos'' [] [] 2 s in
      if keysOf (value_of [] page1) \<noteq> [''a'', ''b''] then False
      else (let (page2, s2) = os_ListObjects st ''photos'' [] ''b'' 2 s1 in
      if keysOf (value_of [] page2) \<noteq> [''c'', ''d''] then False
      else (let (page3, s3) = os_ListObjects st ''photos'' [] ''d'' 2 s2 in
      if keysOf (value_of [] page3) \<noteq> [''e''] then False
      else (let (empty, s4) = os_ListObjects st ''photos'' [] ''e'' 2 s3 in
        length (value_of [] empty) = 0))))"

definition objects_empty_bucket :: "'s object_store \<Rightarrow> 's \<Rightarrow> bool" where
  "objects_empty_bucket st new =
     must (os_ListObjects st ''nothing-here'' [] [] 10 new) (\<lambda>list s. length list = 0)"

definition objects_copy :: "'s object_store \<Rightarrow> 's \<Rightarrow> bool" where
  "objects_copy st new =
     (let s = snd (os_PutObject st (test_object ''photos'' ''a.txt'' ''blob-1'') new);
          (got, s1) = os_GetObject st ''photos'' ''a.txt'' s;
          mutated = (value_of no_object got)\<lparr>o_Metadata := map_put (o_Metadata (value_of no_object got)) ''title'' ''mutated''\<rparr>;
          (again, s2) = os_GetObject st ''photos'' ''a.txt'' s1
      in map_of (o_Metadata (value_of no_object again)) ''title'' = Some ''t'')"

definition ObjectStore :: "'s object_store \<Rightarrow> 's \<Rightarrow> gostring list" where
  "ObjectStore st new = failures
     [(''put then get returns every field'', objects_put st new),
      (''get unknown is ErrNotFound with a zero object'', objects_unknown st new),
      (''overwrite replaces the row and returns the previous blob id'', objects_overwrite st new),
      (''same key in two buckets is two objects'', objects_two_buckets st new),
      (''delete returns the blob id and then get is ErrNotFound'', objects_delete st new),
      (''delete unknown is ErrNotFound'', objects_delete_unknown st new),
      (''list is ordered by key bytewise and scoped to the bucket'', objects_list st new),
      (''list filters by prefix'', objects_prefix st new),
      (''list pages with after and limit'', objects_pages st new),
      (''list of an empty or unknown bucket is empty, not an error'', objects_empty_bucket st new),
      (''returned metadata is a copy'', objects_copy st new)]"

end
