(* ===== verification/Storetest_Uploads.thy ===== *)
theory Storetest_Uploads
  imports Storetest_Objects
begin

text \<open>
  The suite every \<open>UploadStore\<close> must pass (\<open>internal/storetest/uploadstore.go\<close>), together with the
  object store it completes into; the two share the state, in which the buckets \<open>photos\<close> and
  \<open>docs\<close> are usable.
\<close>

definition no_session :: upload_session where
  "no_session = \<lparr>u_ID = [], u_Bucket = [], u_Key = [], u_BlobID = [], u_PartSize = 0, u_ContentType = [],
     u_Metadata = [], u_Parts = [], u_CreatedAt = 0, u_ExpiresAt = 0\<rparr>"

text \<open>2026-09-13 12:00:00 UTC.\<close>

definition upload_time :: time where "upload_time = time_Unix 1789300800"

definition test_session :: "gostring \<Rightarrow> gostring \<Rightarrow> gostring \<Rightarrow> upload_session" where
  "test_session i bucket key =
     \<lparr>u_ID = i, u_Bucket = bucket, u_Key = key, u_BlobID = ''blob-'' @ i, u_PartSize = 5 * 2 ^ 20,
      u_ContentType = ''application/octet-stream'', u_Metadata = [(''title'', ''t'')], u_Parts = [],
      u_CreatedAt = upload_time, u_ExpiresAt = upload_time + 24 * 3600 * Second\<rparr>"

definition aaaa :: gostring where "aaaa = ''crc32c=AAAAAA==''"

text \<open>The objects the tests complete into; a field a test does not give is the zero value.\<close>

definition completed_object :: "gostring \<Rightarrow> gostring \<Rightarrow> int \<Rightarrow> object" where
  "completed_object key blob n =
     no_object\<lparr>o_Bucket := ''photos'', o_Key := key, o_BlobID := blob, o_Size := n, o_ContentType := ''x'',
       o_Checksum := aaaa, o_CreatedAt := upload_time\<rparr>"

text \<open>\<open>reflect.DeepEqual\<close> of two sessions.\<close>

definition same_session :: "upload_session \<Rightarrow> upload_session \<Rightarrow> bool" where
  "same_session a b \<longleftrightarrow>
     a\<lparr>u_Metadata := [], u_Parts := []\<rparr> = b\<lparr>u_Metadata := [], u_Parts := []\<rparr> \<and>
     same_map (u_Metadata a) (u_Metadata b) \<and> same_map (u_Parts a) (u_Parts b)"

definition uploads_create :: "'s upload_store \<Rightarrow> 's \<Rightarrow> bool" where
  "uploads_create st new =
     (let want = test_session ''up1'' ''photos'' ''a.bin'' in
      must (us_CreateUpload st want new) (\<lambda>_ s. must (us_GetUpload st ''up1'' s) (\<lambda>got s1. same_session got want)))"

definition uploads_unknown :: "'s upload_store \<Rightarrow> 's \<Rightarrow> bool" where
  "uploads_unknown st new =
     (let (got, s) = us_GetUpload st ''nope'' new in
      if \<not> fails_with ErrNotFound got then False else same_session (value_of no_session got) no_session)"

definition uploads_create_twice :: "'s upload_store \<Rightarrow> 's \<Rightarrow> bool" where
  "uploads_create_twice st new =
     (let s = snd (us_CreateUpload st (test_session ''up1'' ''photos'' ''a.bin'') new)
      in fails_with ErrConflict (fst (us_CreateUpload st (test_session ''up1'' ''photos'' ''b.bin'') s)))"

definition uploads_parts :: "'s upload_store \<Rightarrow> 's \<Rightarrow> bool" where
  "uploads_parts st new =
     (let s = snd (us_CreateUpload st (test_session ''up1'' ''photos'' ''a.bin'') new);
          want = [(1, \<lparr>p_Size = 5 * 2 ^ 20, p_Checksum = ''crc32c=CCCCCC==''\<rparr>), (3, \<lparr>p_Size = 1024, p_Checksum = aaaa\<rparr>)] in
      must (us_PutPart st ''up1'' 3 \<lparr>p_Size = 1024, p_Checksum = aaaa\<rparr> s) (\<lambda>_ s1.
      must (us_PutPart st ''up1'' 1 \<lparr>p_Size = 5 * 2 ^ 20, p_Checksum = ''crc32c=BBBBBB==''\<rparr> s1) (\<lambda>_ s2.
      must (us_PutPart st ''up1'' 1 \<lparr>p_Size = 5 * 2 ^ 20, p_Checksum = ''crc32c=CCCCCC==''\<rparr> s2) (\<lambda>_ s3.
        same_map (u_Parts (value_of no_session (fst (us_GetUpload st ''up1'' s3)))) want))))"

definition uploads_part_unknown :: "'s upload_store \<Rightarrow> 's \<Rightarrow> bool" where
  "uploads_part_unknown st new =
     fails_with ErrNotFound (fst (us_PutPart st ''nope'' 1 \<lparr>p_Size = 1, p_Checksum = []\<rparr> new))"

definition uploads_complete :: "'s upload_store \<Rightarrow> 's object_store \<Rightarrow> 's \<Rightarrow> bool" where
  "uploads_complete st objects new =
     (let s = snd (us_CreateUpload st (test_session ''up1'' ''photos'' ''a.bin'') new);
          s1 = snd (us_PutPart st ''up1'' 1 \<lparr>p_Size = 10, p_Checksum = aaaa\<rparr> s);
          obj = (completed_object ''a.bin'' ''blob-up1'' 10)\<lparr>o_ContentType := ''application/octet-stream'',
            o_Metadata := [(''title'', ''t'')]\<rparr> in
      must (us_CompleteUpload st ''up1'' obj s1) (\<lambda>prev s2. prev = [] \<and>
      must (os_GetObject objects ''photos'' ''a.bin'' s2) (\<lambda>got s3.
        same_object got obj \<and> fails_with ErrNotFound (fst (us_GetUpload st ''up1'' s3)))))"

definition uploads_complete_over :: "'s upload_store \<Rightarrow> 's object_store \<Rightarrow> 's \<Rightarrow> bool" where
  "uploads_complete_over st objects new =
     (let s = snd (os_PutObject objects (completed_object ''a.bin'' ''old-blob'' 1) new);
          s1 = snd (us_CreateUpload st (test_session ''up1'' ''photos'' ''a.bin'') s) in
      must (us_CompleteUpload st ''up1'' (completed_object ''a.bin'' ''blob-up1'' 2) s1) (\<lambda>prev s2.
        prev = ''old-blob'' \<and>
        (let got = value_of no_object (fst (os_GetObject objects ''photos'' ''a.bin'' s2))
         in o_BlobID got = ''blob-up1'' \<and> o_Size got = 2)))"

definition uploads_complete_unknown :: "'s upload_store \<Rightarrow> 's object_store \<Rightarrow> 's \<Rightarrow> bool" where
  "uploads_complete_unknown st objects new =
     must_fail ErrNotFound (us_CompleteUpload st ''nope'' (completed_object ''ghost.bin'' ''b'' 0) new) (\<lambda>s.
       fails_with ErrNotFound (fst (os_GetObject objects ''photos'' ''ghost.bin'' s)))"

text \<open>Reading a part that is not there gives the zero part, of size 0.\<close>

definition part_size :: "upload_session \<Rightarrow> int \<Rightarrow> int" where
  "part_size se n = (case map_of (u_Parts se) n of None \<Rightarrow> 0 | Some p \<Rightarrow> p_Size p)"

definition uploads_delete :: "'s upload_store \<Rightarrow> 's \<Rightarrow> bool" where
  "uploads_delete st new =
     (let s = snd (us_CreateUpload st (test_session ''up1'' ''photos'' ''a.bin'') new);
          s1 = snd (us_PutPart st ''up1'' 2 \<lparr>p_Size = 7, p_Checksum = aaaa\<rparr> s) in
      must (us_DeleteUpload st ''up1'' s1) (\<lambda>got s2.
        u_BlobID got = ''blob-up1'' \<and> part_size got 2 = 7 \<and>
        (let (gone, s3) = us_GetUpload st ''up1'' s2
         in fails_with ErrNotFound gone \<and> fails_with ErrNotFound (fst (us_DeleteUpload st ''up1'' s3)))))"

definition uploads_count :: "'s upload_store \<Rightarrow> 's \<Rightarrow> bool" where
  "uploads_count st new =
     must (us_CountUploads st ''photos'' new) (\<lambda>n s.
       if n \<noteq> 0 then False
       else (let s1 = snd (us_CreateUpload st (test_session ''up1'' ''photos'' ''a.bin'') s);
                 s2 = snd (us_CreateUpload st (test_session ''up2'' ''photos'' ''b.bin'') s1);
                 s3 = snd (us_CreateUpload st (test_session ''up3'' ''docs'' ''c.bin'') s2) in
       must (us_CountUploads st ''photos'' s3) (\<lambda>p s4.
       must (us_CountUploads st ''docs'' s4) (\<lambda>d s5.
         if p \<noteq> 2 \<or> d \<noteq> 1 then False
         else (let s6 = snd (us_CompleteUpload st ''up1'' (completed_object ''a.bin'' ''blob-up1'' 0) s5);
                   s7 = snd (us_DeleteUpload st ''up2'' s6) in
           must (us_CountUploads st ''photos'' s7) (\<lambda>p s8. p = 0))))))"

definition uploads_copy :: "'s upload_store \<Rightarrow> 's \<Rightarrow> bool" where
  "uploads_copy st new =
     (let s = snd (us_CreateUpload st (test_session ''up1'' ''photos'' ''a.bin'') new);
          s1 = snd (us_PutPart st ''up1'' 1 \<lparr>p_Size = 1, p_Checksum = aaaa\<rparr> s);
          (got, s2) = us_GetUpload st ''up1'' s1;
          mutated = (value_of no_session got)\<lparr>u_Parts := map_put (u_Parts (value_of no_session got)) 9 \<lparr>p_Size = 9, p_Checksum = []\<rparr>,
            u_Metadata := map_put (u_Metadata (value_of no_session got)) ''title'' ''mutated''\<rparr>;
          (again, s3) = us_GetUpload st ''up1'' s2
      in map_of (u_Parts (value_of no_session again)) 9 = None \<and>
         map_of (u_Metadata (value_of no_session again)) ''title'' = Some ''t'')"

definition UploadStore :: "'s upload_store \<Rightarrow> 's object_store \<Rightarrow> 's \<Rightarrow> gostring list" where
  "UploadStore st objects new = failures
     [(''create then get returns every field'', uploads_create st new),
      (''get unknown is ErrNotFound with a zero session'', uploads_unknown st new),
      (''create with a taken id is ErrConflict'', uploads_create_twice st new),
      (''put part records, replaces, and keeps others'', uploads_parts st new),
      (''put part on unknown session is ErrNotFound'', uploads_part_unknown st new),
      (''complete records the object and drops the session'', uploads_complete st objects new),
      (''complete over an existing object returns its blob id'', uploads_complete_over st objects new),
      (''complete unknown session is ErrNotFound and records nothing'', uploads_complete_unknown st objects new),
      (''delete returns the session and then get is ErrNotFound'', uploads_delete st new),
      (''count is per bucket and follows create, complete and delete'', uploads_count st new),
      (''returned maps are copies'', uploads_copy st new)]"

end
