(* ===== verification/Storetest_Blobs.thy ===== *)
theory Storetest_Blobs
  imports Storetest_Keys
begin

text \<open>
  The suite every \<open>BlobStore\<close> must pass (\<open>internal/storetest/blobstore.go\<close>).  \<open>raw n\<close> are the random
  bytes of the n-th blob a subtest creates.  A reader is the bytes of the blob when it was opened, so what
  happens to the blob later does not change them; closing one has no effect.
\<close>

text \<open>\<open>strings.Trim\<close>, and a reader over a string or a byte slice.\<close>

definition Trim :: "gostring \<Rightarrow> gostring \<Rightarrow> gostring" where
  "Trim s cutset = rev (dropWhile (\<lambda>c. c \<in> set cutset) (rev (dropWhile (\<lambda>c. c \<in> set cutset) s)))"

definition bytes_reader :: "byte list \<Rightarrow> reader" where "bytes_reader bs = \<lparr>rd_bytes = bs, rd_end = BodyEOF\<rparr>"

definition string_reader :: "gostring \<Rightarrow> reader" where "string_reader s = bytes_reader (bytes_of s)"

definition zero_id :: gostring where "zero_id = replicate 32 CHR ''0''"

text \<open>\<open>id, _ := s.Create(ctx)\<close>.\<close>

definition create_blob_in :: "'s blob_store \<Rightarrow> byte list \<Rightarrow> 's \<Rightarrow> (gostring \<Rightarrow> 's \<Rightarrow> bool) \<Rightarrow> bool" where
  "create_blob_in st raw s rest = (let (i, s1) = bl_Create st raw s in rest (value_of [] i) s1)"

fun blobs_fresh_loop :: "'s blob_store \<Rightarrow> (nat \<Rightarrow> byte list) \<Rightarrow> nat list \<Rightarrow> gostring list \<Rightarrow> 's \<Rightarrow> bool" where
  "blobs_fresh_loop st raw [] seen s = True"
| "blobs_fresh_loop st raw (n # ns) seen s =
     must (bl_Create st (raw n) s) (\<lambda>i s1.
       length i = 32 \<and> Trim i ''0123456789abcdef'' = [] \<and> i \<notin> set seen \<and>
       blobs_fresh_loop st raw ns (i # seen) s1)"

definition blobs_fresh :: "'s blob_store \<Rightarrow> (nat \<Rightarrow> byte list) \<Rightarrow> 's \<Rightarrow> bool" where
  "blobs_fresh st raw new = blobs_fresh_loop st raw [0..<5] [] new"

definition blobs_write_open :: "'s blob_store \<Rightarrow> (nat \<Rightarrow> byte list) \<Rightarrow> 's \<Rightarrow> bool" where
  "blobs_write_open st raw new = create_blob_in st (raw 0) new (\<lambda>i s.
     (let ((n, err), s1) = bl_Write st i 0 (string_reader ''hello, tunna'') s in
      if err \<noteq> None then False
      else n = 12 \<and>
        must (bl_Sync st i s1) (\<lambda>_ s2. must (bl_Open st i s2) (\<lambda>got s3. got = bytes_of ''hello, tunna''))))"

definition blobs_new_empty :: "'s blob_store \<Rightarrow> (nat \<Rightarrow> byte list) \<Rightarrow> 's \<Rightarrow> bool" where
  "blobs_new_empty st raw new = create_blob_in st (raw 0) new (\<lambda>i s.
     must (bl_Open st i s) (\<lambda>got s1. length got = 0))"

fun write_each :: "'s blob_store \<Rightarrow> gostring \<Rightarrow> (int \<times> gostring) list \<Rightarrow> 's \<Rightarrow> ('s \<Rightarrow> bool) \<Rightarrow> bool" where
  "write_each st i [] s rest = rest s"
| "write_each st i ((off, x) # ws) s rest =
     (let ((n, err), s1) = bl_Write st i off (string_reader x) s in
      if err \<noteq> None then False else write_each st i ws s1 rest)"

definition blobs_any_order :: "'s blob_store \<Rightarrow> (nat \<Rightarrow> byte list) \<Rightarrow> 's \<Rightarrow> bool" where
  "blobs_any_order st raw new = create_blob_in st (raw 0) new (\<lambda>i s.
     write_each st i (rev (zip [0, 1 * 4, 2 * 4] [''aaaa'', ''bbbb'', ''cc''])) s (\<lambda>s1.
       must (bl_Open st i s1) (\<lambda>got s2. got = bytes_of ''aaaabbbbcc'')))"

definition blobs_rewrite :: "'s blob_store \<Rightarrow> (nat \<Rightarrow> byte list) \<Rightarrow> 's \<Rightarrow> bool" where
  "blobs_rewrite st raw new = create_blob_in st (raw 0) new (\<lambda>i s.
     (let s1 = snd (bl_Write st i 0 (string_reader ''aaaabbbb'') s);
          s2 = snd (bl_Write st i 4 (string_reader ''XXXX'') s1)
      in must (bl_Open st i s2) (\<lambda>got s3. got = bytes_of ''aaaaXXXX'')))"

text \<open>\<open>Seek\<close> to 3 and \<open>io.ReadFull\<close> of four bytes, which fails when fewer are left.\<close>

definition blobs_seek :: "'s blob_store \<Rightarrow> (nat \<Rightarrow> byte list) \<Rightarrow> 's \<Rightarrow> bool" where
  "blobs_seek st raw new = create_blob_in st (raw 0) new (\<lambda>i s.
     (let s1 = snd (bl_Write st i 0 (string_reader ''0123456789'') s) in
      must (bl_Open st i s1) (\<lambda>r s2.
        if length (drop 3 r) < 4 then False else take 4 (drop 3 r) = bytes_of ''3456'')))"

text \<open>1 MiB: 65536 times the 16 digits.\<close>

definition large_data :: "byte list" where "large_data = concat (replicate (2 ^ 16) (bytes_of ''0123456789abcdef''))"

definition blobs_large :: "'s blob_store \<Rightarrow> (nat \<Rightarrow> byte list) \<Rightarrow> 's \<Rightarrow> bool" where
  "blobs_large st raw new = create_blob_in st (raw 0) new (\<lambda>i s.
     (let ((n, err), s1) = bl_Write st i 0 (bytes_reader large_data) s in
      if err \<noteq> None \<or> n \<noteq> int (length large_data) then False
      else must (bl_Open st i s1) (\<lambda>got s2. got = large_data)))"

definition blobs_open_unknown :: "'s blob_store \<Rightarrow> 's \<Rightarrow> bool" where
  "blobs_open_unknown st new = fails_with ErrNotFound (fst (bl_Open st zero_id new))"

definition blobs_write_unknown :: "'s blob_store \<Rightarrow> 's \<Rightarrow> bool" where
  "blobs_write_unknown st new = (snd (fst (bl_Write st zero_id 0 (string_reader ''x'') new)) = Some ErrNotFound)"

definition blobs_remove :: "'s blob_store \<Rightarrow> (nat \<Rightarrow> byte list) \<Rightarrow> 's \<Rightarrow> bool" where
  "blobs_remove st raw new = create_blob_in st (raw 0) new (\<lambda>i s.
     (let s1 = snd (bl_Write st i 0 (string_reader ''bye'') s) in
      must (bl_Remove st i s1) (\<lambda>_ s2.
        (let (r, s3) = bl_Open st i s2 in
         fails_with ErrNotFound r \<and> must (bl_Remove st i s3) (\<lambda>_ s4. True)))))"

definition blobs_open_reader :: "'s blob_store \<Rightarrow> (nat \<Rightarrow> byte list) \<Rightarrow> 's \<Rightarrow> bool" where
  "blobs_open_reader st raw new = create_blob_in st (raw 0) new (\<lambda>i s.
     (let s1 = snd (bl_Write st i 0 (string_reader ''old bytes'') s) in
      must (bl_Open st i s1) (\<lambda>r s2. must (bl_Remove st i s2) (\<lambda>_ s3. r = bytes_of ''old bytes''))))"

fun open_fails_each :: "'s blob_store \<Rightarrow> gostring list \<Rightarrow> 's \<Rightarrow> bool" where
  "open_fails_each st [] s = True"
| "open_fails_each st (bad # rest) s =
     (let (r, s1) = bl_Open st bad s in
      (case r of Inl _ \<Rightarrow> True | Inr _ \<Rightarrow> False) \<and> open_fails_each st rest s1)"

definition blobs_bad_ids :: "'s blob_store \<Rightarrow> 's \<Rightarrow> bool" where
  "blobs_bad_ids st new =
     open_fails_each st [[], ''..'', ''../../etc/passwd'', ''ZZ'', ''abc/def'', replicate 31 CHR ''a''] new"

definition BlobStore :: "'s blob_store \<Rightarrow> (nat \<Rightarrow> byte list) \<Rightarrow> 's \<Rightarrow> gostring list" where
  "BlobStore st raw new = failures
     [(''create returns a fresh 32-hex id each time'', blobs_fresh st raw new),
      (''write then open reads the same bytes'', blobs_write_open st raw new),
      (''a new blob is empty'', blobs_new_empty st raw new),
      (''writes at offset in any order compose the whole'', blobs_any_order st raw new),
      (''rewriting an offset replaces those bytes'', blobs_rewrite st raw new),
      (''open supports seeking for range reads'', blobs_seek st raw new),
      (''large write round-trips'', blobs_large st raw new),
      (''open unknown id is ErrNotFound'', blobs_open_unknown st new),
      (''write to unknown id is ErrNotFound'', blobs_write_unknown st new),
      (''remove then open is ErrNotFound; removing again is not an error'', blobs_remove st raw new),
      (''a reader opened before remove keeps reading (ADR-0007 overwrite)'', blobs_open_reader st raw new),
      (''ids are rejected if they are not the store'' @ [CHR 0x27] @ ''s own shape'', blobs_bad_ids st new)]"

end
