(* ===== verification/Storetest_Runs.thy ===== *)
theory Storetest_Runs
  imports Storetest_Uploads Storetest_Blobs Store_Memory Store_Sqlite
begin

text \<open>
  The runs of the contract suites in the tests of the adapters: \<open>internal/memory\<close>, \<open>internal/sqlite\<close>
  and \<open>internal/disk\<close>, with the factories those tests use.
\<close>

section \<open>Factories\<close>

definition mem_fresh :: mem_world where
  "mem_fresh = \<lparr>dk_files = [], dk_faults = [], mm_keys = [], mm_buckets = [], mm_objects = [], mm_sessions = []\<rparr>"

definition mem_with_keys :: "apikey list \<Rightarrow> mem_world" where
  "mem_with_keys keys = mem_fresh\<lparr>mm_keys := mem_NewKeyStore keys\<rparr>"

definition sq_with_keys :: "apikey list \<Rightarrow> sq_world" where
  "sq_with_keys keys = fold (\<lambda>k s. snd (sq_CreateKey k s)) keys (sq_empty [])"

definition sq_with_buckets :: sq_world where
  "sq_with_buckets = fold (\<lambda>name s. snd (sq_CreateBucket (no_bucket\<lparr>b_Name := name\<rparr>) s)) [''photos'', ''docs''] (sq_empty [])"

section \<open>Metadata\<close>

lemma metadata_suites:
  "KeyStore mem_key_store mem_with_keys = [] \<and> KeyStore sq_key_store sq_with_keys = [] \<and>
   BucketStore mem_bucket_store mem_fresh = [] \<and> BucketStore sq_bucket_store (sq_empty []) = [] \<and>
   ObjectStore mem_object_store mem_fresh = [] \<and> ObjectStore sq_object_store sq_with_buckets = [] \<and>
   UploadStore mem_upload_store mem_object_store mem_fresh = [] \<and>
   UploadStore sq_upload_store sq_object_store sq_with_buckets = []"
proof (intro conjI)
  show "KeyStore mem_key_store mem_with_keys = []" by code_simp
  show "KeyStore sq_key_store sq_with_keys = []" by code_simp
  show "BucketStore mem_bucket_store mem_fresh = []" by code_simp
  show "BucketStore sq_bucket_store (sq_empty []) = []" by code_simp
  show "ObjectStore mem_object_store mem_fresh = []" by code_simp
  show "ObjectStore sq_object_store sq_with_buckets = []" by code_simp
  show "UploadStore mem_upload_store mem_object_store mem_fresh = []" by code_simp
  show "UploadStore sq_upload_store sq_object_store sq_with_buckets = []" by code_simp
qed

section \<open>Blobs\<close>

lemma Trim_all: "set s \<subseteq> set cutset \<Longrightarrow> Trim s cutset = []"
  by (auto simp: Trim_def dropWhile_eq_Nil_conv dest!: set_dropWhileD)

lemma hex_cutset: "n < 16 \<Longrightarrow> hex_char n \<in> set ''0123456789abcdef''"
proof -
  have "list_all (\<lambda>n. hex_char n \<in> set ''0123456789abcdef'') [0..<16]" by code_simp
  then show "n < 16 \<Longrightarrow> ?thesis" by (simp only: list_all_iff set_upt) simp
qed

lemma Trim_hex: "Trim (hex_encode bs) ''0123456789abcdef'' = []"
proof (rule Trim_all)
  have "unat (b :: byte) div 16 < 16" for b using unat_byte_less [of b] by linarith
  then have "set (hex_encode bs) \<subseteq> set cs" if "\<And>n. n < 16 \<Longrightarrow> hex_char n \<in> set cs" for cs
    using that by (auto simp: hex_encode_def)
  then show "set (hex_encode bs) \<subseteq> set ''0123456789abcdef''" using hex_cutset by blast
qed

lemma hex_char_inj: "m < 16 \<Longrightarrow> n < 16 \<Longrightarrow> hex_char m = hex_char n \<Longrightarrow> m = n"
proof -
  have "inj_on hex_char {..<16} \<longleftrightarrow> distinct (map hex_char [0..<16])"
    by (simp only: distinct_map distinct_upt set_upt lessThan_atLeast0) simp
  moreover have "distinct (map hex_char [0..<16])" by code_simp
  ultimately show "m < 16 \<Longrightarrow> n < 16 \<Longrightarrow> hex_char m = hex_char n \<Longrightarrow> m = n"
    by (simp add: inj_on_def)
qed

lemma hex_encode_inj: "hex_encode a = hex_encode b \<Longrightarrow> a = b"
proof (induction a arbitrary: b)
  case (Cons x a)
  then obtain y b' where b: "b = y # b'" by (cases b) (auto simp: hex_encode_def)
  have bound: "unat z div 16 < 16" "unat z mod 16 < 16" for z :: byte
    using unat_byte_less [of z] by (linarith, simp)
  have "hex_char (unat x div 16) = hex_char (unat y div 16)" "hex_char (unat x mod 16) = hex_char (unat y mod 16)"
    "hex_encode a = hex_encode b'"
    using Cons.prems by (simp_all add: b hex_encode_def)
  then have "unat x div 16 = unat y div 16" "unat x mod 16 = unat y mod 16" "a = b'"
    using hex_char_inj bound Cons.IH by blast+
  then have "unat x = unat y" by (metis div_mult_mod_eq)
  then show ?case using \<open>a = b'\<close> b by (simp add: word_unat_eq_iff)
qed (auto simp: hex_encode_def neq_Nil_conv)

definition disk_fresh :: disk_world where "disk_fresh = \<lparr>dk_files = [], dk_faults = []\<rparr>"

text \<open>Without faults, and with an id of the store's own shape, the operations are those of a map of blobs.\<close>

lemma quiet_disk:
  assumes "dk_faults s = []" "blob_path i = Some p"
  shows "disk_Open i s = (case map_of (dk_files s) p of None \<Rightarrow> Inl ErrNotFound | Some bs \<Rightarrow> Inr bs, s)"
    "disk_Remove i s = (Inr (), s\<lparr>dk_files := map_del (dk_files s) p\<rparr>)"
    "map_of (dk_files s) p = Some old \<Longrightarrow> 0 \<le> off \<Longrightarrow> disk_Write i off (bytes_reader bs) s =
       ((int (length bs), None), s\<lparr>dk_files := map_put (dk_files s) p (write_at old (nat off) bs)\<rparr>)"
    "map_of (dk_files s) p = None \<Longrightarrow> disk_Write i off (bytes_reader bs) s = ((0, Some ErrNotFound), s)"
    "map_of (dk_files s) p \<noteq> None \<Longrightarrow> disk_Sync i s = (Inr (), s)"
  using assms
  by (auto simp: disk_Open_def disk_Remove_def disk_Write_def disk_Sync_def next_fault_def pop_fault_def Let_def
    bytes_reader_def end_error_def split: option.splits)

lemma disk_fresh_create:
  assumes "length raw = 16" "dk_faults s = []" "blobs_of (dk_files s) (hex_encode raw) = None"
  shows "\<exists>p. blob_path (hex_encode raw) = Some p \<and>
    disk_Create raw s = (Inr (hex_encode raw), s\<lparr>dk_files := map_put (dk_files s) p []\<rparr>)"
  using assms validID_hex [OF assms(1)]
  by (auto simp: disk_Create_def next_fault_def pop_fault_def Let_def validID_path blobs_of_def)

lemma disk_store_simps [simp]:
  "bl_Create disk_store = disk_Create" "bl_Write disk_store = disk_Write" "bl_Sync disk_store = disk_Sync"
  "bl_Open disk_store = disk_Open" "bl_Remove disk_store = disk_Remove"
  by (simp_all add: disk_store_def)

text \<open>The first blob of a subtest; what follows runs in a directory that holds just that empty blob.\<close>

lemma disk_first_blob:
  assumes "length bs = 16"
    and "\<And>i p. blob_path i = Some p \<Longrightarrow> rest i \<lparr>dk_files = [(p, [])], dk_faults = []\<rparr>"
  shows "create_blob_in disk_store bs disk_fresh rest"
proof -
  have "blobs_of [] i = None" for i by (simp add: blobs_of_def split: option.splits)
  then obtain p where "blob_path (hex_encode bs) = Some p"
    "disk_Create bs disk_fresh = (Inr (hex_encode bs), \<lparr>dk_files = [(p, [])], dk_faults = []\<rparr>)"
    using disk_fresh_create [OF assms(1), of disk_fresh] by (auto simp: disk_fresh_def map_put_def)
  then show ?thesis using assms(2) by (simp add: create_blob_in_def)
qed

lemma disk_fresh_ids:
  assumes "distinct (map raw ns)" "\<forall>n \<in> set ns. length (raw n) = 16"
    and "\<forall>n \<in> set ns. hex_encode (raw n) \<notin> set seen \<and> blobs_of (dk_files s) (hex_encode (raw n)) = None"
    and "dk_faults s = []"
  shows "blobs_fresh_loop disk_store raw ns seen s"
  using assms
proof (induction ns arbitrary: seen s)
  case (Cons n ns)
  obtain p where p: "blob_path (hex_encode (raw n)) = Some p"
    "disk_Create (raw n) s = (Inr (hex_encode (raw n)), s\<lparr>dk_files := map_put (dk_files s) p []\<rparr>)"
    using disk_fresh_create [of "raw n" s] Cons.prems by auto
  have "hex_encode (raw m) \<noteq> hex_encode (raw n)" if "m \<in> set ns" for m
    using Cons.prems(1) that hex_encode_inj by (metis distinct.simps(2) image_eqI list.map(2) list.set_map)
  then have "blobs_fresh_loop disk_store raw ns (hex_encode (raw n) # seen) (s\<lparr>dk_files := map_put (dk_files s) p []\<rparr>)"
    using Cons.prems p(1) by (intro Cons.IH) (auto simp: blobs_of_put)
  then show ?case using p(2) Cons.prems by (simp add: Trim_hex)
qed simp

lemma disk_runs:
  assumes "length (raw 0) = 16"
  shows "blobs_write_open disk_store raw disk_fresh" "blobs_new_empty disk_store raw disk_fresh"
    "blobs_any_order disk_store raw disk_fresh" "blobs_rewrite disk_store raw disk_fresh"
    "blobs_seek disk_store raw disk_fresh" "blobs_large disk_store raw disk_fresh"
    "blobs_remove disk_store raw disk_fresh" "blobs_open_reader disk_store raw disk_fresh"
  unfolding blobs_write_open_def blobs_new_empty_def blobs_any_order_def blobs_rewrite_def blobs_seek_def
    blobs_large_def blobs_remove_def blobs_open_reader_def
  by (rule disk_first_blob [OF assms], simp add: quiet_disk string_reader_def bytes_of_def write_at_def map_put_def)+

lemma disk_suite:
  assumes "\<forall>n < 5. length (raw n) = 16" "distinct (map raw [0..<5])"
  shows "BlobStore disk_store raw disk_fresh = []"
proof -
  have none: "blobs_of (dk_files disk_fresh) i = None" for i
    by (simp add: disk_fresh_def blobs_of_def split: option.splits)
  have "blobs_fresh disk_store raw disk_fresh"
    unfolding blobs_fresh_def using assms none by (intro disk_fresh_ids) (auto simp: disk_fresh_def)
  moreover have "\<exists>p. blob_path zero_id = Some p"
    by (simp add: blob_path_def zero_id_def validID_def list_all_iff)
  then have "blobs_open_unknown disk_store disk_fresh" "blobs_write_unknown disk_store disk_fresh"
    by (auto simp: blobs_open_unknown_def blobs_write_unknown_def disk_fresh_def quiet_disk string_reader_def)
  moreover have "blobs_bad_ids disk_store disk_fresh"
    by (simp add: blobs_bad_ids_def disk_Open_def blob_path_def validID_def)
  ultimately show ?thesis
    using disk_runs [of raw] assms(1) by (simp add: BlobStore_def)
qed

section \<open>All adapters\<close>

text \<open>
  C30. The adapters pass the contract suites of their interfaces: neither the memory stores nor the
  SQLite stores fail any subtest of the key, bucket, object and upload suites, and the disk store
  fails none of the blob suite in a fresh directory without faults, whatever 16-byte values the
  random source yields, as long as the five ids drawn in one subtest differ.
\<close>

theorem stores_pass_contract:
  assumes "\<forall>n < 5. length (raw n) = 16" "distinct (map raw [0..<5])"
  shows "(KeyStore mem_key_store mem_with_keys = [] \<and> KeyStore sq_key_store sq_with_keys = [] \<and>
    BucketStore mem_bucket_store mem_fresh = [] \<and> BucketStore sq_bucket_store (sq_empty []) = [] \<and>
    ObjectStore mem_object_store mem_fresh = [] \<and> ObjectStore sq_object_store sq_with_buckets = [] \<and>
    UploadStore mem_upload_store mem_object_store mem_fresh = [] \<and>
    UploadStore sq_upload_store sq_object_store sq_with_buckets = []) \<and>
    BlobStore disk_store raw disk_fresh = []"
  by (intro conjI [OF metadata_suites] disk_suite assms)

lemma stores_pass_contract_witness:
  "BlobStore disk_store (\<lambda>n. replicate 15 0 @ [word_of_nat n]) disk_fresh = []"
  by (rule stores_pass_contract [THEN conjunct2]) (simp_all add: upt_rec)

end
