(* ===== verification/Tunna_Command.thy ===== *)
theory Tunna_Command
  imports Http_Storage Store_Migrations
begin

text \<open>
  \<open>cmd/tunna\<close>: the steps of a start in the order of \<open>run\<close>, with \<open>sqlite.Open\<close>.  What the operating
  system answers is a record; the database is the schema the migrations work on and the tables.
  Logging is left out, and the requests a process serves are a list, one after another.
\<close>

section \<open>Opening the database\<close>

datatype cmd_err =
    CmdConfig config_err | CmdDataDir | CmdDriver | CmdMigrate migration_error | CmdBootstrap store_err | CmdDisk
  | CmdServe | CmdShutdown

text \<open>\<open>sqlite.Open\<close>: \<open>driver\<close> tells whether \<open>sql.Open\<close> knows the driver and can read the path.\<close>

definition sq_Open ::
  "bool \<Rightarrow> (gostring \<Rightarrow> 'sch \<Rightarrow> 'sch option) \<Rightarrow> (gostring \<times> gostring) list \<Rightarrow> 'sch migration_db
     \<Rightarrow> (cmd_err + unit) \<times> 'sch migration_db" where
  "sq_Open driver exec files db =
     (if \<not> driver then (Inl CmdDriver, db)
      else (case migrate exec files db of
              (Inl e, db1) \<Rightarrow> (Inl (CmdMigrate e), db1)
            | (Inr v, db1) \<Rightarrow> (Inr (), db1)))"

section \<open>The command\<close>

text \<open>
  \<open>pr_end\<close> is how serving ends: \<open>None\<close> after a signal and a clean shutdown, else the error of
  \<open>ListenAndServe\<close> or of \<open>Shutdown\<close>.
\<close>

record process =
  pr_environ :: environ
  pr_mkdir :: bool
  pr_driver :: bool
  pr_disk :: bool
  pr_now :: time
  pr_end :: "cmd_err option"
  pr_requests :: "(env \<times> request) list"

fun serve_requests :: "config \<Rightarrow> (env \<times> request) list \<Rightarrow> sq_world \<Rightarrow> response list \<times> sq_world" where
  "serve_requests cfg [] s = ([], s)"
| "serve_requests cfg (er # ers) s =
     (let (rs, s1) = respond cfg er s; (rss, s2) = serve_requests cfg ers s1 in (rs # rss, s2))"

definition run ::
  "(gostring \<Rightarrow> 'sch \<Rightarrow> 'sch option) \<Rightarrow> (gostring \<times> gostring) list \<Rightarrow> process \<Rightarrow> 'sch migration_db \<times> sq_world
     \<Rightarrow> (cmd_err option \<times> response list) \<times> 'sch migration_db \<times> sq_world" where
  "run exec files pr st =
     (case st of (db, s) \<Rightarrow>
      (case Load (pr_environ pr) of
         Inl e \<Rightarrow> ((Some (CmdConfig e), []), db, s)
       | Inr cfg \<Rightarrow>
           if \<not> pr_mkdir pr then ((Some CmdDataDir, []), db, s)
           else (case sq_Open (pr_driver pr) exec files db of
             (Inl e, db1) \<Rightarrow> ((Some e, []), db1, s)
           | (Inr _, db1) \<Rightarrow>
               (case start cfg (pr_now pr) s of
                  (Inl e, s1) \<Rightarrow> ((Some (CmdBootstrap e), []), db1, s1)
                | (Inr _, s1) \<Rightarrow>
                    if \<not> pr_disk pr then ((Some CmdDisk, []), db1, s1)
                    else (let (rss, s2) = serve_requests cfg (pr_requests pr) s1
                          in ((pr_end pr, rss), db1, s2))))))"

text \<open>
  Processes one after another on the same data directory; before each, the faults of the driver and of
  the disk that it will meet are set, and the failing calls of its migrations.
\<close>

fun runs ::
  "(gostring \<Rightarrow> 'sch \<Rightarrow> 'sch option) \<Rightarrow> (gostring \<times> gostring) list \<Rightarrow>
     (process \<times> bool list \<times> bool list \<times> io_fault list) list \<Rightarrow> 'sch migration_db \<times> sq_world
     \<Rightarrow> 'sch migration_db \<times> sq_world" where
  "runs exec files [] st = st"
| "runs exec files ((pr, mig, sql, io) # ps) (db, s) =
     runs exec files ps (snd (run exec files pr (db\<lparr>mg_faults := mig\<rparr>, s\<lparr>sq_faults := sql, dk_faults := io\<rparr>)))"

section \<open>Restarts\<close>

definition kept :: "sq_world \<Rightarrow> bool" where
  "kept s \<longleftrightarrow> sq_inv s \<and> consistent (sq_view s)"

lemma kept_faults: "kept s \<Longrightarrow> kept (s\<lparr>sq_faults := sql, dk_faults := io\<rparr>)"
proof -
  have "sq_inv (s\<lparr>sq_faults := sql, dk_faults := io\<rparr>) = sq_inv s" unfolding sq_inv_def by simp
  moreover have "sq_view (s\<lparr>sq_faults := sql, dk_faults := io\<rparr>) = sq_view s" by (simp add: sq_view_def)
  ultimately show "kept s \<Longrightarrow> kept (s\<lparr>sq_faults := sql, dk_faults := io\<rparr>)" by (simp add: kept_def)
qed

lemma sq_PutKey_view: "\<exists>K. sq_view (snd (sq_PutKey now k s)) = (sq_view s)\<lparr>v_keys := K\<rparr>"
  by (auto simp: sq_PutKey_def db_call_def db_pop_def sq_view_def intro: exI [of _ "v_keys (sq_view s)"])

lemma start_kept: "kept s \<Longrightarrow> kept (snd (start cfg now s))"
proof -
  have "kept (snd (sq_PutKey now k s))" if "kept s" for k
  proof -
    obtain K where "sq_view (snd (sq_PutKey now k s)) = (sq_view s)\<lparr>v_keys := K\<rparr>" using sq_PutKey_view by blast
    with that show ?thesis by (simp add: kept_def sq_PutKey_inv)
  qed
  then show "kept s \<Longrightarrow> ?thesis" by (simp add: start_def)
qed

lemma serve_requests_kept: "kept s \<Longrightarrow> kept (snd (serve_requests cfg ers s))"
  using respond_keeps by (induction ers arbitrary: s) (auto simp: kept_def case_prod_beta)

lemma run_kept: "kept s \<Longrightarrow> kept (snd (snd (run exec files pr (db, s))))"
  using start_kept [of s _ "pr_now pr"] serve_requests_kept
  by (auto simp: run_def case_prod_beta split: sum.splits prod.splits)

lemma runs_kept: "kept s \<Longrightarrow> kept (snd (runs exec files ps (db, s)))"
proof (induction ps arbitrary: db s)
  case (Cons p ps)
  obtain pr mig sql io where p: "p = (pr, mig, sql, io)" by (cases p)
  obtain db1 s1 where r: "snd (run exec files pr (db\<lparr>mg_faults := mig\<rparr>, s\<lparr>sq_faults := sql, dk_faults := io\<rparr>)) = (db1, s1)"
    by fastforce
  have "kept s1" using run_kept [OF kept_faults [OF Cons.prems]] r by (metis snd_conv)
  then show ?case using Cons.IH r by (simp add: p)
qed simp


section \<open>The bootstrap key\<close>

text \<open>
  C24. The operator always gets in: when a start with a configured bootstrap key succeeds and the driver
  does not fail the lookup, a request signed with the configured id and secret, as the client signs it
  and with the clocks within the skew, reaches the route with an admin key as the caller, even when an
  older key of that id was disabled or had another secret.
\<close>

theorem bootstrap_key_is_admin:
  assumes "Load environ = Inr cfg" "cf_BootstrapKeyID cfg \<noteq> []" "CHR '','' \<notin> set (cf_BootstrapKeyID cfg)"
    and "start cfg now s = (Inr (), s1)" "sq_faults s1 = []"
    and "key = \<lparr>sk_ID = cf_BootstrapKeyID cfg, sk_Secret = cf_BootstrapKeySecret cfg\<rparr>"
    and "same_target req r" "rq_RawQuery r = EncodeQuery (sr_Query req)" "ParamSig \<notin> fst ` set (sr_Query req)"
    and "map_of (rq_Header r) ''Authorization'' = Some [Authorization req key ts]"
    and "map_of (rq_Header r) ''X-Tunna-Date'' = Some [FormatInt ts]" "int64_range ts"
    and "\<bar>time_Unix ts - ev_now ev 0\<bar> \<le> 15 * 60 * Second"
  shows "\<exists>k. k_Admin k \<and> k_ID k = cf_BootstrapKeyID cfg \<and>
    authenticate (new_handler (server_options cfg)) ev nxt w r s1 = nxt w (r\<lparr>rq_caller := Some k\<rparr>) s1"
proof -
  obtain row where row: "map_of (sq_keys s1) (cf_BootstrapKeyID cfg) = Some row" "kr_secret row = cf_BootstrapKeySecret cfg"
    "kr_admin row" "\<not> kr_disabled row"
    using assms(2,4) by (auto simp: start_def sq_PutKey_def db_call_def key_values_def split: if_splits option.splits)
  define k where "k = scan_key (cf_BootstrapKeyID cfg) row"
  have "h_skew (new_handler (server_options cfg)) = 15 * 60 * Second"
    by (simp add: new_handler_def server_options_def default_def Second_def)
  moreover have "ks_GetKey (h_keys (new_handler (server_options cfg))) (sk_ID key) s1 = (Inr k, s1)"
    using row assms(5,6) by (simp add: new_handler_def server_options_def sq_key_store_def sq_GetKey_def k_def)
  ultimately have "authenticate (new_handler (server_options cfg)) ev nxt w r s1 = nxt w (r\<lparr>rq_caller := Some k\<rparr>) s1"
    using row assms by (intro signed_request_accepted [where req = req and key = key and ts = ts])
      (simp_all add: k_def scan_key_def)
  then show ?thesis using row by (intro exI [of _ k]) (simp add: k_def scan_key_def)
qed

end
