(* ===== verification/Command_Samples.thy ===== *)
theory Command_Samples
  imports Tunna_Command Http_Samples
begin

text \<open>A start of the server with a bootstrap key in its environment, and the operator's first request.\<close>

definition sample_environ :: environ where
  "sample_environ = map_of [(''TUNNA_ADDR'', '':8000''), (''TUNNA_DATA_DIR'', ''/data''), (''TUNNA_BOOTSTRAP_KEY'', ''k:s'')]"

definition sample_config :: config where
  "sample_config = \<lparr>cf_Addr = '':8000'', cf_DataDir = ''/data'', cf_BootstrapKeyID = ''k'', cf_BootstrapKeySecret = ''s'',
     cf_CORSOrigins = no_origins\<rparr>"

lemma sample_load: "Load sample_environ = Inr sample_config"
  by code_simp

definition operator_request :: request where
  "operator_request = sample_received [] [(''X-Tunna-Date'', [FormatInt 1000]),
     (''Authorization'', [Authorization sample_get \<lparr>sk_ID = ''k'', sk_Secret = ''s''\<rparr> 1000])]"

definition answer_ok :: "sq_world route" where "answer_ok w r s = (writeHeader w 200, s)"

lemma bootstrap_key_is_admin_witness:
  "case start sample_config 0 (sq_empty []) of (e, s) \<Rightarrow>
     authenticate (new_handler (server_options sample_config)) sample_env answer_ok [] operator_request s = (writeHeader [] 200, s)"
proof -
  have hk: "\<forall>k \<in> {''X-Tunna-Date'', ''Authorization''}. CanonicalHeaderKey k = k" by code_simp
  obtain s where s: "start sample_config 0 (sq_empty []) = (Inr (), s)" "sq_faults s = []"
    by (simp add: start_def sample_config_def sq_PutKey_def sq_empty_def)
  have "\<exists>k. k_Admin k \<and> k_ID k = cf_BootstrapKeyID sample_config \<and>
      authenticate (new_handler (server_options sample_config)) sample_env answer_ok [] operator_request s =
        answer_ok [] (operator_request\<lparr>rq_caller := Some k\<rparr>) s"
    by (rule bootstrap_key_is_admin [OF sample_load _ _ s, where key = "\<lparr>sk_ID = ''k'', sk_Secret = ''s''\<rparr>"
          and req = sample_get and ts = 1000])
      (use hk in \<open>auto simp: operator_request_def sample_config_def sample_defs EncodeQuery_def encoded_params_def
        int64_range_def time_Unix_def\<close>)
  then show ?thesis by (auto simp: s answer_ok_def)
qed

end
