(* ===== verification/Tunna_Fixture_Server.thy ===== *)
theory Tunna_Fixture_Server
  imports Http_System Tunna_Fixtures
begin

text \<open>
  \<open>cmd/tunna-fixtures\<close>: a server whose stores hold the conformance fixtures, with a control route that
  rebuilds them.  What the operating system answers to the calls of one build is a record: the name of
  the temporary directory (given the ones that exist), whether \<open>disk.New\<close> succeeds, the clock, the
  random bytes, the faults of the disk, and which directories can be removed.
\<close>

section \<open>Building a server\<close>

record build_env =
  be_TempDir :: "gostring list \<Rightarrow> gostring option"
  be_DiskNew :: bool
  be_now :: time
  be_raws :: "nat \<Rightarrow> byte list"
  be_faults :: "io_fault list"
  be_removable :: "gostring \<Rightarrow> bool"

datatype build_err = BuildTempDir | BuildDisk | BuildObjects store_err | BuildOrigins origin_err

text \<open>One provisioned API handler, its stores and the directory of its blobs.\<close>

record fx_server =
  sv_dir :: gostring
  sv_options :: "mem_world options"
  sv_state :: mem_world

text \<open>\<open>os.RemoveAll\<close>; when it fails the directory stays, which is only logged or ignored.\<close>

definition remove_dir :: "build_env \<Rightarrow> gostring \<Rightarrow> gostring list \<Rightarrow> gostring list" where
  "remove_dir be dir dirs = (if be_removable be dir then removeAll dir dirs else dirs)"

definition fixture_options :: "origins \<Rightarrow> mem_world options" where
  "fixture_options og = (mem_options og)\<lparr>op_ServerVersion := ''fixtures''\<rparr>"

definition fixture_state :: "fx_file \<Rightarrow> time \<Rightarrow> object list \<Rightarrow> mem_world \<Rightarrow> mem_world" where
  "fixture_state fx now objs s =
     s\<lparr>mm_keys := mem_NewKeyStore (fx_APIKeys fx now), mm_buckets := mem_NewBucketStore (fx_BucketRecords fx now),
       mm_objects := mem_NewObjectStore objs, mm_sessions := mem_NewUploadStore []\<rparr>"

definition empty_blobs :: "io_fault list \<Rightarrow> mem_world" where
  "empty_blobs faults =
     \<lparr>dk_files = [], dk_faults = faults, mm_keys = [], mm_buckets = [], mm_objects = [], mm_sessions = []\<rparr>"

text \<open>
  A failed build removes its directory again; a panic in the byte generator leaves it.  The result comes
  with the temporary directories that exist afterwards.
\<close>

definition build :: "build_env \<Rightarrow> fx_file \<Rightarrow> gostring list \<Rightarrow> (build_err + fx_server) \<times> gostring list" where
  "build be fx dirs =
     (case be_TempDir be dirs of
        None \<Rightarrow> (Inl BuildTempDir, dirs)
      | Some dir \<Rightarrow>
          if \<not> be_DiskNew be then (Inl BuildDisk, remove_dir be dir (dir # dirs))
          else (case fx_ObjectRecords fx disk_store (be_now be) (be_raws be) (empty_blobs (be_faults be)) of
            (Inl e, s) \<Rightarrow>
              (Inl (BuildObjects e), if e = ErrPanic then dir # dirs else remove_dir be dir (dir # dirs))
          | (Inr objs, s) \<Rightarrow>
              (case fx_Origins fx of
                 Inl e \<Rightarrow> (Inl (BuildOrigins e), remove_dir be dir (dir # dirs))
               | Inr og \<Rightarrow>
                   (Inr \<lparr>sv_dir = dir, sv_options = fixture_options og,
                         sv_state = fixture_state fx (be_now be) objs s\<rparr>, dir # dirs))))"

section \<open>Serving\<close>

text \<open>The server requests are handed to, swapped at a reset, and the temporary directories that exist.\<close>

record fx_world =
  fw_current :: "fx_server option"
  fw_dirs :: "gostring list"

definition cleanup :: "build_env \<Rightarrow> fx_server option \<Rightarrow> gostring list \<Rightarrow> gostring list" where
  "cleanup be s dirs = (case s of None \<Rightarrow> dirs | Some sv \<Rightarrow> remove_dir be (sv_dir sv) dirs)"

definition rebuild :: "build_env \<Rightarrow> fx_file \<Rightarrow> fx_world \<Rightarrow> build_err option \<times> fx_world" where
  "rebuild be fx w =
     (case build be fx (fw_dirs w) of
        (Inl e, dirs) \<Rightarrow> (Some e, w\<lparr>fw_dirs := dirs\<rparr>)
      | (Inr s, dirs) \<Rightarrow> (None, \<lparr>fw_current = Some s, fw_dirs = cleanup be (fw_current w) dirs\<rparr>))"

text \<open>\<open>POST /reset\<close>; the text of an error is the operating system's, a parameter.\<close>

definition reset :: "(build_err \<Rightarrow> gostring) \<Rightarrow> build_env \<Rightarrow> fx_file \<Rightarrow> fx_world \<Rightarrow> response \<times> fx_world" where
  "reset err_text be fx w =
     (case rebuild be fx w of
        (None, w1) \<Rightarrow> (writeHeader [] 204, w1)
      | (Some e, w1) \<Rightarrow> (if e = BuildObjects ErrPanic then aborted else http_Error [] (err_text e) 500, w1))"

definition forward :: "env \<Rightarrow> request \<Rightarrow> fx_world \<Rightarrow> response \<times> fx_world" where
  "forward ev r w =
     (case fw_current w of
        None \<Rightarrow> (aborted, w)
      | Some sv \<Rightarrow>
          (let (rs, s) = New (sv_options sv) ev (arrives r) (sv_state sv)
           in (rs, w\<lparr>fw_current := Some (sv\<lparr>sv_state := s\<rparr>)\<rparr>)))"

definition fixture_patterns :: "mux_pattern list" where
  "fixture_patterns = map parse_pattern [''POST /reset'', ''/'']"

definition fixture_mux ::
  "(build_err \<Rightarrow> gostring) \<Rightarrow> fx_file \<Rightarrow> build_env \<times> env \<times> request \<Rightarrow> fx_world \<Rightarrow> response \<times> fx_world" where
  "fixture_mux err_text fx input w =
     (case input of (be, ev, r) \<Rightarrow>
        if rq_EscapedPath r = ''*'' then (writeHeader (Header_Set [] ''Connection'' ''close'') 400, w)
        else (case findHandler fixture_patterns r of
          MuxFound p ms \<Rightarrow> if mp_text p = ''POST /reset'' then reset err_text be fx w else forward ev r w
        | MuxRedirect path t \<Rightarrow> (Redirect [] r path, w)
        | MuxNone \<Rightarrow> (NotFound [], w)))"

fun fixture_serve ::
  "(build_err \<Rightarrow> gostring) \<Rightarrow> fx_file \<Rightarrow> (build_env \<times> env \<times> request) list \<Rightarrow> fx_world \<Rightarrow> response list \<times> fx_world" where
  "fixture_serve err_text fx [] w = ([], w)"
| "fixture_serve err_text fx (x # xs) w =
     (let (rs, w1) = fixture_mux err_text fx x w; (rss, w2) = fixture_serve err_text fx xs w1 in (rs # rss, w2))"

section \<open>The command\<close>

text \<open>
  \<open>run\<close>: the outcomes of loading the file, of \<open>net.Listen\<close> and of serving until a signal (or the error
  of \<open>Serve\<close> or \<open>Shutdown\<close>) are parameters; the deferred clean-up runs with the outcomes of \<open>final\<close>.
\<close>

datatype run_err = RunLoad | RunBuild build_err | RunListen | RunServe | RunShutdown

definition run_fixtures ::
  "(build_err \<Rightarrow> gostring) \<Rightarrow> fx_file option \<Rightarrow> build_env \<Rightarrow> bool \<Rightarrow> (build_env \<times> env \<times> request) list \<Rightarrow> run_err option \<Rightarrow>
    build_env \<Rightarrow> gostring list \<Rightarrow> run_err option \<times> response list \<times> gostring list" where
  "run_fixtures err_text loaded be listens requests ends final dirs =
     (case loaded of
        None \<Rightarrow> (Some RunLoad, [], dirs)
      | Some fx \<Rightarrow>
          (case rebuild be fx \<lparr>fw_current = None, fw_dirs = dirs\<rparr> of
             (Some e, w) \<Rightarrow> (Some (RunBuild e), [], fw_dirs w)
           | (None, w) \<Rightarrow>
               if \<not> listens then (Some RunListen, [], cleanup final (fw_current w) (fw_dirs w))
               else (let (rss, w1) = fixture_serve err_text fx requests w
                     in (ends, rss, cleanup final (fw_current w1) (fw_dirs w1)))))"

section \<open>The objects of the fixtures\<close>

context blob_store_laws
begin

lemma fixture_object:
  assumes "inv s" "fx_object_record bl raw bucket now ob s = (Inr rec, s')"
  shows "inv s' \<and> o_Bucket rec = bucket \<and> o_Key rec = fo_Key ob \<and> v_blobs (view s) (o_BlobID rec) = None \<and>
    (\<exists>bytes. view s' = (view s)\<lparr>v_blobs := (v_blobs (view s))(o_BlobID rec \<mapsto> bytes)\<rparr> \<and>
       o_Size rec = int (length bytes) \<and> o_Checksum rec = EncodeCRC32C (crc32c bytes))"
proof -
  from assms(2) obtain bytes i s1 n where steps: "bl_Create bl raw s = (Inr i, s1)"
    "bl_Write bl i 0 \<lparr>rd_bytes = bytes, rd_end = BodyEOF\<rparr> s1 = ((n, None), s')"
    and rec: "o_Bucket rec = bucket" "o_Key rec = fo_Key ob" "o_BlobID rec = i" "o_Size rec = int (length bytes)"
      "o_Checksum rec = EncodeCRC32C (crc32c bytes)"
    by (auto simp: fx_object_record_def split: option.splits prod.splits sum.splits)
  from create_blob [OF assms(1) steps(1)] have c: "inv s1" "v_blobs (view s) i = None"
    "view s1 = (view s)\<lparr>v_blobs := (v_blobs (view s))(i \<mapsto> [])\<rparr>" by simp_all
  with write_blob [OF c(1) steps(2)] rec show ?thesis by auto
qed

lemma fixture_objects:
  assumes "inv s" "fx_records bl now raws n obs s = (Inr recs, s')"
  shows "inv s' \<and> (\<exists>B. view s' = (view s)\<lparr>v_blobs := B\<rparr>) \<and> map (\<lambda>ob. (o_Bucket ob, o_Key ob)) recs = map (\<lambda>(b, ob). (b, fo_Key ob)) obs \<and>
    distinct (map o_BlobID recs) \<and>
    (\<forall>i. v_blobs (view s) i \<noteq> None \<longrightarrow> v_blobs (view s') i = v_blobs (view s) i \<and> i \<notin> o_BlobID ` set recs) \<and>
    (\<forall>ob \<in> set recs. intact (view s') ob)"
  using assms
proof (induction obs arbitrary: n s recs)
  case (Cons x obs)
  obtain bucket ob where x: "x = (bucket, ob)" by (cases x)
  from Cons.prems(2) obtain rec s1 rest where
    r: "fx_object_record bl (raws n) bucket now ob s = (Inr rec, s1)"
    "fx_records bl now raws (n + 1) obs s1 = (Inr rest, s')" "recs = rec # rest"
    by (auto simp: x split: prod.splits sum.splits)
  from fixture_object [OF Cons.prems(1) r(1)] obtain bytes where o: "inv s1" "o_Bucket rec = bucket"
    "o_Key rec = fo_Key ob" "v_blobs (view s) (o_BlobID rec) = None"
    "view s1 = (view s)\<lparr>v_blobs := (v_blobs (view s))(o_BlobID rec \<mapsto> bytes)\<rparr>"
    "o_Size rec = int (length bytes)" "o_Checksum rec = EncodeCRC32C (crc32c bytes)" by blast
  note IH = Cons.IH [OF o(1) r(2)]
  then have rec: "v_blobs (view s') (o_BlobID rec) = Some bytes" "o_BlobID rec \<notin> o_BlobID ` set rest" using o(5) by auto
  have keep: "v_blobs (view s') i = v_blobs (view s) i \<and> i \<notin> o_BlobID ` set recs" if "v_blobs (view s) i \<noteq> None" for i
    using IH o(4,5) that r(3) by auto
  from rec o have "intact (view s') rec" by (simp add: intact_def)
  with IH o rec keep show ?case by (auto simp: x r(3))
next
  case Nil
  then show ?case by (auto intro!: exI [of _ "v_blobs (view s')"])
qed

end

section \<open>The state of a new server\<close>

lemma fold_put_keyed: "keyed_by f m \<Longrightarrow> keyed_by f (fold (\<lambda>x m. map_put m (f x) x) xs m)"
  by (induction xs arbitrary: m) (simp_all add: keyed_by_put)

lemma fold_put_from: "map_of (fold (\<lambda>x m. map_put m (f x) x) xs m) k = Some x \<Longrightarrow> x \<in> set xs \<and> f x = k \<or> map_of m k = Some x"
proof (induction xs arbitrary: m)
  case (Cons a xs)
  from Cons.IH [of "map_put m (f a) a"] Cons.prems show ?case by (auto split: if_splits)
qed simp

lemma fold_put_dom: "x \<in> set xs \<or> map_of m (f x) \<noteq> None \<Longrightarrow> map_of (fold (\<lambda>x m. map_put m (f x) x) xs m) (f x) \<noteq> None"
  by (induction xs arbitrary: m) auto

lemma new_objects:
  fixes m :: "(gostring, (gostring, object) gomap) gomap"
  assumes "is_map m" "\<And>b. inner_ok b (inner_map m b)"
  defines "n \<equiv> \<lambda>obs. fold (\<lambda>ob m. map_put m (o_Bucket ob) (map_put (inner_map m (o_Bucket ob)) (o_Key ob) ob)) obs m"
  shows "is_map (n obs) \<and> (\<forall>b. inner_ok b (inner_map (n obs) b)) \<and>
    (\<forall>b k ob. map_of (inner_map (n obs) b) k = Some ob \<longrightarrow>
       ob \<in> set obs \<and> o_Bucket ob = b \<and> o_Key ob = k \<or> map_of (inner_map m b) k = Some ob)"
  using assms(1,2) unfolding n_def
proof (induction obs arbitrary: m)
  case (Cons ob obs)
  let ?m = "map_put m (o_Bucket ob) (map_put (inner_map m (o_Bucket ob)) (o_Key ob) ob)"
  have ok: "inner_ok b (inner_map ?m b)" for b using Cons.prems by (simp add: inner_map_put inner_ok_put)
  with Cons.IH [of ?m] Cons.prems(1) show ?case by (auto simp: inner_map_put split: if_splits)
qed simp

text \<open>A fixtures file the server can hold: every bucket name and object key in it is valid.\<close>

definition fx_valid :: "fx_file \<Rightarrow> bool" where
  "fx_valid fx = list_all (\<lambda>(key, b). ValidateBucketName (bucketName key b) = None \<and>
     list_all (\<lambda>ob. ValidateObjectKey (fo_Key ob) = None) (fbk_Objects b)) (ff_Buckets fx)"

definition well_kept :: "mem_world \<Rightarrow> bool" where
  "well_kept s \<longleftrightarrow> mem_inv s \<and> consistent (mem_view s)"

lemma fixture_buckets:
  fixes now :: time
  assumes "fx_valid fx"
  defines "bs \<equiv> mem_NewBucketStore (fx_BucketRecords fx now)"
  shows "map_of bs n = Some b \<Longrightarrow> b_Name b = n \<and> ValidateBucketName n = None"
    "(key, fb) \<in> set (ff_Buckets fx) \<Longrightarrow> map_of bs (bucketName key fb) \<noteq> None"
proof -
  assume "map_of bs n = Some b"
  then have "b \<in> set (fx_BucketRecords fx now) \<and> b_Name b = n"
    using fold_put_from [of b_Name _ "[]" n b] by (simp add: bs_def mem_NewBucketStore_def)
  then show "b_Name b = n \<and> ValidateBucketName n = None"
    using assms(1) by (auto simp: fx_BucketRecords_def fx_valid_def list_all_iff)
next
  assume "(key, fb) \<in> set (ff_Buckets fx)"
  then have "\<lparr>b_Name = bucketName key fb, b_Public = fbk_Public fb, b_CreatedAt = now\<rparr> \<in> set (fx_BucketRecords fx now)"
    by (force simp: fx_BucketRecords_def)
  from fold_put_dom [of _ _ "[]" b_Name, OF disjI1, OF this] show "map_of bs (bucketName key fb) \<noteq> None"
    by (simp add: bs_def mem_NewBucketStore_def)
qed

text \<open>Objects whose rows come from a list of intact objects with different blobs.\<close>

lemma seeded_blobs:
  assumes "v_uploads v = Map.empty" "distinct (map o_BlobID objs)" "\<forall>ob \<in> set objs. intact v ob"
    and rows: "\<And>b k ob. v_objects v (b, k) = Some ob \<Longrightarrow> ob \<in> set objs \<and> o_Bucket ob = b \<and> o_Key ob = k"
  shows "blob_of v x = Some i \<Longrightarrow> v_blobs v i \<noteq> None"
    "blob_of v x = Some i \<Longrightarrow> blob_of v y = Some i \<Longrightarrow> x = y"
proof -
  have owner: "\<exists>ob \<in> set objs. x = ObjectAt (o_Bucket ob) (o_Key ob) \<and> o_BlobID ob = i" if "blob_of v x = Some i" for x
    using that rows assms(1) by (cases x) auto
  then show "blob_of v x = Some i \<Longrightarrow> v_blobs v i \<noteq> None"
    using assms(3) by (fastforce simp: intact_def split: option.splits)
  show "blob_of v x = Some i \<Longrightarrow> blob_of v y = Some i \<Longrightarrow> x = y"
    using owner [of x] owner [of y] assms(2) by (auto simp: distinct_map inj_on_def)
qed

lemma seeded_objects:
  fixes objs :: "object list"
  defines "os \<equiv> mem_NewObjectStore objs"
  shows "is_map os \<and> (\<forall>b. inner_ok b (inner_map os b))"
    "map_of (inner_map os b) k = Some ob \<Longrightarrow> ob \<in> set objs \<and> o_Bucket ob = b \<and> o_Key ob = k"
proof -
  have empty: "inner_map [] b = []" for b :: gostring by (simp add: inner_map_def)
  have os: "is_map os \<and> (\<forall>b. inner_ok b (inner_map os b)) \<and> (\<forall>b k ob. map_of (inner_map os b) k = Some ob \<longrightarrow>
      ob \<in> set objs \<and> o_Bucket ob = b \<and> o_Key ob = k \<or> map_of (inner_map [] b) k = Some ob)"
    unfolding os_def mem_NewObjectStore_def by (rule new_objects) (simp_all add: empty)
  then show "is_map os \<and> (\<forall>b. inner_ok b (inner_map os b))" by blast
  assume "map_of (inner_map os b) k = Some ob"
  with os show "ob \<in> set objs \<and> o_Bucket ob = b \<and> o_Key ob = k" unfolding empty map_of.simps(1) by blast
qed

lemma fixture_state_kept:
  assumes "fx_valid fx" "fx_ObjectRecords fx disk_store now raws (empty_blobs faults) = (Inr objs, s)"
  shows "well_kept (fixture_state fx now objs s)"
proof -
  let ?t = "fixture_state fx now objs s" and ?bs = "mem_NewBucketStore (fx_BucketRecords fx now)"
  have "mem_inv (empty_blobs faults)" by (simp add: empty_blobs_def mem_inv_def inner_map_def)
  from mem_blobs.fixture_objects [OF this assms(2) [unfolded fx_ObjectRecords_def]] have
    r: "mem_inv s" "distinct (map o_BlobID objs)" "\<forall>ob \<in> set objs. intact (mem_view s) ob"
    "map (\<lambda>ob. (o_Bucket ob, o_Key ob)) objs = map (\<lambda>(b, ob). (b, fo_Key ob))
      (concat (map (\<lambda>(key, b). map (\<lambda>ob. (bucketName key b, ob)) (fbk_Objects b)) (ff_Buckets fx)))" by auto
  have view: "v_buckets (mem_view ?t) = map_of ?bs" "v_uploads (mem_view ?t) = Map.empty"
    "v_objects (mem_view ?t) = (\<lambda>(b, k). map_of (inner_map (mem_NewObjectStore objs) b) k)"
    "intact (mem_view ?t) = intact (mem_view s)"
    by (auto simp: mem_view_def fixture_state_def mem_NewUploadStore_def intact_def)
  have rows: "ob \<in> set objs \<and> o_Bucket ob = b \<and> o_Key ob = k" if "v_objects (mem_view ?t) (b, k) = Some ob" for b k ob
    using that seeded_objects(2) by (simp add: view)
  have "map_of ?bs (o_Bucket ob) \<noteq> None \<and> ValidateObjectKey (o_Key ob) = None" if "ob \<in> set objs" for ob
  proof -
    from that have "(o_Bucket ob, o_Key ob) \<in> set (map (\<lambda>ob. (o_Bucket ob, o_Key ob)) objs)" by force
    then obtain key b fo where "(key, b) \<in> set (ff_Buckets fx)" "fo \<in> set (fbk_Objects b)"
      "o_Bucket ob = bucketName key b" "o_Key ob = fo_Key fo" unfolding r(4) by force
    then show ?thesis using fixture_buckets(2) [OF assms(1)] assms(1) by (auto simp: fx_valid_def list_all_iff)
  qed
  with rows have "o_Bucket ob = b \<and> o_Key ob = k \<and> v_buckets (mem_view ?t) b \<noteq> None \<and> ValidateObjectKey k = None"
    if "v_objects (mem_view ?t) (b, k) = Some ob" for b k ob using that unfolding view(1) by blast
  moreover have "\<forall>ob \<in> set objs. intact (mem_view ?t) ob" using r(3) by (simp add: view)
  ultimately have "consistent (mem_view ?t)"
    using fixture_buckets(1) [OF assms(1)] seeded_blobs [OF view(2) r(2) _ rows]
    unfolding consistent_def view(1,2) by auto
  moreover have "mem_inv ?t"
    using r(1) seeded_objects(1) [of objs]
    by (simp add: mem_inv_def fixture_state_def mem_NewUploadStore_def mem_NewBucketStore_def mem_NewKeyStore_def fold_put_keyed)
  ultimately show ?thesis by (simp add: well_kept_def)
qed

section \<open>The service of the fixtures\<close>

interpretation fx: service "new_handler (fixture_options og)" mem_view mem_inv
  "\<lambda>k. k" "\<lambda>b. b" "\<lambda>ob. ob" "\<lambda>se. se" "\<lambda>_. True" validID
  using mem.service_axioms [of og]
  by (simp add: service_def service_axioms_def new_handler_def fixture_options_def mem_options_def)

lemma forward_kept:
  assumes "well_kept s"
  shows "well_kept (snd (New (fixture_options og) ev (arrives r) s))"
  using fx.request_step [of s "arrives r" og ev "[]"] assms
  by (auto simp: well_kept_def New_def Let_def arrives_def sat_def post_def intro: transition_consistent)

section \<open>Every moment of the fixture server\<close>

text \<open>The current server, if there is one, is a well-kept one.\<close>

definition fixture_kept :: "fx_world \<Rightarrow> bool" where
  "fixture_kept w \<longleftrightarrow>
     (case fw_current w of None \<Rightarrow> True
      | Some sv \<Rightarrow> well_kept (sv_state sv) \<and> (\<exists>og. sv_options sv = fixture_options og))"

lemma rebuild_kept: "fx_valid fx \<Longrightarrow> fixture_kept w \<Longrightarrow> fixture_kept (snd (rebuild be fx w))"
  using fixture_state_kept [of fx "be_now be" "be_raws be" "be_faults be"]
  by (auto simp: rebuild_def build_def fixture_kept_def split: option.splits sum.splits prod.splits)

lemma mux_kept:
  assumes "fx_valid fx" "fixture_kept w"
  shows "fixture_kept (snd (fixture_mux err_text fx x w))"
proof -
  have "fixture_kept (snd (reset err_text be fx w))" for be
    using rebuild_kept [OF assms, of be] by (auto simp: reset_def split: prod.splits option.splits)
  moreover have "fixture_kept (snd (forward ev r w))" for ev r
    using assms(2) by (auto simp: forward_def fixture_kept_def case_prod_beta forward_kept split: option.splits)
  ultimately show ?thesis using assms(2)
    by (auto simp: fixture_mux_def split: prod.splits mux_result.splits)
qed

lemma serve_kept: "fx_valid fx \<Longrightarrow> fixture_kept w \<Longrightarrow> fixture_kept (snd (fixture_serve err_text fx xs w))"
  by (induction xs arbitrary: w) (simp_all add: case_prod_beta mux_kept)

lemma mux_keeps_a_server: "fw_current w \<noteq> None \<Longrightarrow> fw_current (snd (fixture_mux err_text fx x w)) \<noteq> None"
  by (auto simp: fixture_mux_def reset_def rebuild_def forward_def split: prod.splits mux_result.splits option.splits sum.splits)

lemma serve_keeps_a_server: "fw_current w \<noteq> None \<Longrightarrow> fw_current (snd (fixture_serve err_text fx xs w)) \<noteq> None"
  using mux_keeps_a_server by (induction xs arbitrary: w) (auto simp: case_prod_beta)

text \<open>
  C25. The fixture server never serves a broken state: when every bucket name and object key of the file
  is valid, then after the first build and any requests and resets, whatever fails, there is a current
  server and its stores are consistent: rows carry their own valid names and lie in existing buckets,
  every blob exists and none is shared.
\<close>

theorem fixture_server_stays_consistent:
  assumes "fx_valid fx" "rebuild be fx \<lparr>fw_current = None, fw_dirs = dirs\<rparr> = (None, w)"
  shows "case fw_current (snd (fixture_serve err_text fx requests w)) of
      None \<Rightarrow> False | Some sv \<Rightarrow> consistent (mem_view (sv_state sv))"
proof -
  have "fixture_kept w" using rebuild_kept [OF assms(1), of "\<lparr>fw_current = None, fw_dirs = dirs\<rparr>" be] assms(2)
    by (simp add: fixture_kept_def)
  moreover have "fw_current w \<noteq> None" using assms(2) by (auto simp: rebuild_def split: prod.splits sum.splits)
  ultimately show ?thesis
    using serve_kept [OF assms(1), of w err_text requests] serve_keeps_a_server [of w err_text fx requests]
    by (auto simp: fixture_kept_def well_kept_def split: option.splits)
qed

section \<open>Resets\<close>

definition is_reset :: "request \<Rightarrow> bool" where
  "is_reset r \<longleftrightarrow> rq_EscapedPath r \<noteq> ''*'' \<and>
     (case findHandler fixture_patterns r of MuxFound p ms \<Rightarrow> mp_text p = ''POST /reset'' | _ \<Rightarrow> False)"

definition same_server :: "fx_world \<Rightarrow> fx_world \<Rightarrow> bool" where
  "same_server w w' \<longleftrightarrow> rel_option (\<lambda>a b. sv_options a = sv_options b \<and> sv_state a = sv_state b) (fw_current w) (fw_current w')"

lemma mux_same:
  assumes "same_server w w'" "\<not> is_reset r"
  shows "fst (fixture_mux err_text fx (be, ev, r) w) = fst (fixture_mux err_text fx (be, ev, r) w') \<and>
    same_server (snd (fixture_mux err_text fx (be, ev, r) w)) (snd (fixture_mux err_text fx (be, ev, r) w'))"
proof -
  have "fst (forward ev r w) = fst (forward ev r w') \<and> same_server (snd (forward ev r w)) (snd (forward ev r w'))"
    using assms(1) by (cases "fw_current w"; cases "fw_current w'") (auto simp: same_server_def forward_def Let_def case_prod_beta)
  with assms show ?thesis by (auto simp: fixture_mux_def is_reset_def split: mux_result.splits)
qed

lemma serve_same:
  "same_server w w' \<Longrightarrow> list_all (\<lambda>(be, ev, r). \<not> is_reset r) requests \<Longrightarrow>
     fst (fixture_serve err_text fx requests w) = fst (fixture_serve err_text fx requests w')"
proof (induction requests arbitrary: w w')
  case (Cons x xs)
  obtain be ev r where x: "x = (be, ev, r)" by (cases x)
  from mux_same [OF Cons.prems(1), of r err_text fx be ev] Cons.prems(2) Cons.IH show ?case
    by (auto simp: x case_prod_beta)
qed simp

text \<open>
  A reset forgets everything: after a reset that is answered 204, the requests that follow, up to
  the next reset, get the same answers whatever was served before it; they are the answers of a server
  that has just been started.
\<close>

lemma reset_forgets_everything:
  assumes "reset err_text be fx w = (rs, w1)" "rs_status rs = 204"
    and "reset err_text be fx w' = (rs', w1')" "rs_status rs' = 204"
    and "list_all (\<lambda>(be, ev, r). \<not> is_reset r) requests"
  shows "fst (fixture_serve err_text fx requests w1) = fst (fixture_serve err_text fx requests w1')"
proof -
  have "\<exists>dir og objs s. fx_ObjectRecords fx disk_store (be_now be) (be_raws be) (empty_blobs (be_faults be)) = (Inr objs, s) \<and>
      fx_Origins fx = Inr og \<and> fw_current w1 = Some \<lparr>sv_dir = dir, sv_options = fixture_options og,
        sv_state = fixture_state fx (be_now be) objs s\<rparr>"
    if "reset err_text be fx w = (rs, w1)" "rs_status rs = 204" for w rs w1
    using that by (auto simp: reset_def rebuild_def build_def http_Error_def aborted_def
      split: prod.splits option.splits sum.splits if_splits)
  from this [OF assms(1,2)] this [OF assms(3,4)] have "same_server w1 w1'" by (auto simp: same_server_def)
  then show ?thesis by (rule serve_same) fact
qed

section \<open>Directories\<close>

text \<open>No object asks for a negative number of bytes, so generating them does not panic.\<close>

definition fx_bounded :: "fx_file \<Rightarrow> bool" where
  "fx_bounded fx = list_all (\<lambda>(key, b). list_all (\<lambda>ob. fx_data ob \<noteq> None) (fbk_Objects b)) (ff_Buckets fx)"

lemma disk_no_panic: "disk_Create raw s \<noteq> (Inl ErrPanic, t)" "disk_Write i off rd s \<noteq> ((n, Some ErrPanic), t)"
  by (auto simp: disk_Create_def disk_Write_def Let_def end_error_def split: option.splits io_fault.splits body_end.splits)

lemma fixture_no_panic:
  "\<forall>(b, ob) \<in> set obs. fx_data ob \<noteq> None \<Longrightarrow> fst (fx_records disk_store now raws n obs s) \<noteq> Inl ErrPanic"
proof (induction obs arbitrary: n s)
  case (Cons x obs)
  obtain b ob where x: "x = (b, ob)" by (cases x)
  have "fst (fx_object_record disk_store (raws n) b now ob s) \<noteq> Inl ErrPanic"
    using Cons.prems
    by (auto simp: x fx_object_record_def disk_store_def disk_no_panic split: prod.splits sum.splits option.splits)
  with Cons show ?case by (auto simp: x split: prod.splits sum.splits) (metis fst_conv)+
qed simp

text \<open>What the operating system has to keep: a new directory is new, and directories can be removed.\<close>

definition tidy :: "build_env \<Rightarrow> bool" where
  "tidy be \<longleftrightarrow> (\<forall>dirs d. be_TempDir be dirs = Some d \<longrightarrow> d \<notin> set dirs) \<and> (\<forall>d. be_removable be d)"

definition one_dir :: "gostring list \<Rightarrow> fx_world \<Rightarrow> bool" where
  "one_dir dirs w \<longleftrightarrow>
     (case fw_current w of None \<Rightarrow> fw_dirs w = dirs | Some sv \<Rightarrow> fw_dirs w = sv_dir sv # dirs \<and> sv_dir sv \<notin> set dirs)"

lemma rebuild_dirs:
  assumes "fx_bounded fx" "tidy be" "one_dir dirs w"
  shows "one_dir dirs (snd (rebuild be fx w))"
proof -
  have "fst (fx_ObjectRecords fx disk_store now raws s) \<noteq> Inl ErrPanic" for now raws s
    unfolding fx_ObjectRecords_def using assms(1) by (intro fixture_no_panic) (auto simp: fx_bounded_def list_all_iff)
  then have np: "fx_ObjectRecords fx disk_store now raws s \<noteq> (Inl ErrPanic, t)" for now raws s t by (metis fst_conv)
  have fresh: "be_TempDir be ds = Some d \<Longrightarrow> d \<notin> set ds" and rm: "be_removable be d" for ds d
    using assms(2) by (auto simp: tidy_def)
  show ?thesis
    using assms(3) np
    by (auto simp: rebuild_def build_def one_dir_def remove_dir_def cleanup_def rm removeAll_id dest!: fresh
      split: option.splits sum.splits prod.splits if_splits)
qed

lemma mux_dirs:
  assumes "fx_bounded fx" "tidy be" "one_dir dirs w"
  shows "one_dir dirs (snd (fixture_mux err_text fx (be, ev, r) w))"
proof -
  have "one_dir dirs (snd (reset err_text be fx w))"
    using rebuild_dirs [OF assms] by (auto simp: reset_def split: prod.splits option.splits)
  moreover have "one_dir dirs (snd (forward ev r w))"
    using assms(3) by (auto simp: forward_def one_dir_def case_prod_beta split: option.splits)
  ultimately show ?thesis using assms(3) by (auto simp: fixture_mux_def split: mux_result.splits)
qed

lemma serve_dirs:
  "fx_bounded fx \<Longrightarrow> list_all (\<lambda>(be, ev, r). tidy be) requests \<Longrightarrow> one_dir dirs w \<Longrightarrow>
     one_dir dirs (snd (fixture_serve err_text fx requests w))"
  by (induction requests arbitrary: w) (auto simp: case_prod_beta mux_dirs)

text \<open>
  The command leaves nothing behind: as long as the operating system gives unused names and removes
  what it is asked to, and no object has a negative length, then however the run ends (a build that fails,
  an address that cannot be listened on, an error of the server, a signal) and whatever was requested
  and reset, the temporary directories are those that were there before.
\<close>

lemma fixture_run_leaves_nothing:
  assumes "case loaded of None \<Rightarrow> True | Some fx \<Rightarrow> fx_bounded fx"
    and "tidy be" "list_all (\<lambda>(be, ev, r). tidy be) requests" "tidy final"
  shows "snd (snd (run_fixtures err_text loaded be listens requests ends final dirs)) = dirs"
proof (cases loaded)
  case (Some fx)
  then have fx: "fx_bounded fx" using assms(1) by simp
  obtain e w where b: "rebuild be fx \<lparr>fw_current = None, fw_dirs = dirs\<rparr> = (e, w)" by (metis surj_pair)
  from rebuild_dirs [OF fx assms(2), of dirs "\<lparr>fw_current = None, fw_dirs = dirs\<rparr>"] b
  have w: "one_dir dirs w" by (simp add: one_dir_def)
  have final: "cleanup final (fw_current v) (fw_dirs v) = dirs" if "one_dir dirs v" for v
    using that assms(4) by (auto simp: one_dir_def cleanup_def remove_dir_def tidy_def removeAll_id split: option.splits)
  have "e \<noteq> None \<Longrightarrow> fw_dirs w = dirs"
    using b w by (auto simp: rebuild_def one_dir_def split: prod.splits sum.splits)
  with b final [OF w] final [OF serve_dirs [OF fx assms(3) w]] Some show ?thesis
    by (auto simp: run_fixtures_def case_prod_beta split: option.splits)
qed (simp add: run_fixtures_def)

end
