(* ===== verification/Fixture_Samples.thy ===== *)
theory Fixture_Samples
  imports Tunna_Fixture_Server Http_Storage
begin

text \<open>
  A small fixtures file, an operating system that fails nothing, and requests: the properties of the
  fixture server apply to them.
\<close>

definition sample_file :: fx_file where
  "sample_file = \<lparr>ff_Spec = ''0.1.0-draft'', ff_CORSOrigins = [], ff_Keys = [],
     ff_Buckets = [(''photos'', \<lparr>fbk_Name = [], fbk_Public = True,
       fbk_Objects = [\<lparr>fo_Key = ''cat'', fo_ContentType = [], fo_Text = Some ''hi'', fo_Bytes = None\<rparr>]\<rparr>)]\<rparr>"

text \<open>A name that no existing directory has: one byte longer than all of them together.\<close>

definition sample_build :: build_env where
  "sample_build = \<lparr>be_TempDir = (\<lambda>dirs. Some (replicate (Suc (length (concat dirs))) CHR ''x'')), be_DiskNew = True,
     be_now = 0, be_raws = (\<lambda>n. replicate 15 0 @ [word_of_nat n]), be_faults = [], be_removable = (\<lambda>_. True)\<rparr>"

definition sample_http :: "gostring \<Rightarrow> gostring \<Rightarrow> request" where
  "sample_http m path =
     \<lparr>rq_Method = m, rq_Path = path, rq_EscapedPath = path, rq_RawQuery = [], rq_Header = [], rq_ContentLength = 0,
      rq_Body = \<lparr>rd_bytes = [], rd_end = BodyEOF\<rparr>, rq_json = JsonEOF, rq_PathValues = [], rq_caller = None\<rparr>"

definition sample_inputs :: "(build_env \<times> env \<times> request) list" where
  "sample_inputs = [(sample_build, plain_env, sample_http ''GET'' ''/photos/cat''),
     (sample_build, plain_env, sample_http ''GET'' ''/reset'')]"

definition plain_text :: "build_err \<Rightarrow> gostring" where "plain_text e = ''no space left on device''"

lemma sample_file_facts: "fx_valid sample_file" "fx_bounded sample_file"
  by code_simp+

lemma sample_requests:
  "is_reset (sample_http ''POST'' ''/reset'')" "\<not> is_reset (sample_http ''GET'' ''/photos/cat'')"
  "\<not> is_reset (sample_http ''GET'' ''/reset'')"
  by code_simp+

lemma sample_tidy: "tidy sample_build"
proof -
  have "length d \<le> length (concat dirs)" if "d \<in> set dirs" for d :: gostring and dirs
    using that by (auto simp: length_concat member_le_sum_list)
  then show ?thesis by (fastforce simp: tidy_def sample_build_def)
qed

lemma sample_objects:
  "case fx_ObjectRecords sample_file disk_store 0 (be_raws sample_build) (empty_blobs []) of (Inl e, s) \<Rightarrow> False | (Inr objs, s) \<Rightarrow> True"
proof -
  have "validID (hex_encode (be_raws sample_build 0))" by (rule validID_hex) (simp add: sample_build_def)
  then show ?thesis
    by (simp add: sample_file_def fx_ObjectRecords_def fx_object_record_def fx_data_def disk_store_def disk_Create_def
      disk_Write_def blob_path_def next_fault_def pop_fault_def empty_blobs_def end_error_def Let_def)
qed

lemma sample_origins: "fx_Origins sample_file = Inr no_origins"
  by code_simp

lemma sample_rebuild: "fst (rebuild sample_build sample_file w) = None"
  using sample_objects sample_origins
  by (auto simp: rebuild_def build_def sample_build_def split: prod.splits sum.splits)

lemma sample_reset: "rs_status (fst (reset err_text sample_build sample_file w)) = 204"
  using sample_rebuild [of w] by (auto simp: reset_def writeHeader_def split: prod.splits)

section \<open>Witnesses\<close>

definition no_server :: fx_world where "no_server = \<lparr>fw_current = None, fw_dirs = []\<rparr>"

lemma fixture_server_stays_consistent_witness:
  "case fw_current (snd (fixture_serve plain_text sample_file sample_inputs (snd (rebuild sample_build sample_file no_server)))) of
     None \<Rightarrow> False | Some sv \<Rightarrow> consistent (mem_view (sv_state sv))"
  using sample_rebuild [of no_server]
  by (intro fixture_server_stays_consistent [OF sample_file_facts(1), where be = sample_build and dirs = "[]"])
    (simp add: no_server_def prod_eq_iff)

lemma reset_forgets_everything_sample:
  "fst (fixture_serve plain_text sample_file sample_inputs (snd (reset plain_text sample_build sample_file no_server))) =
   fst (fixture_serve plain_text sample_file sample_inputs
     (snd (reset plain_text sample_build sample_file (snd (rebuild sample_build sample_file no_server)))))"
  by (rule reset_forgets_everything [where be = sample_build and err_text = plain_text,
        OF surjective_pairing sample_reset surjective_pairing sample_reset])
    (simp add: sample_inputs_def sample_requests)

lemma sample_run_leaves_nothing:
  "snd (snd (run_fixtures plain_text (Some sample_file) sample_build True sample_inputs None sample_build [''tmp''])) = [''tmp'']"
  by (rule fixture_run_leaves_nothing) (simp_all add: sample_tidy sample_file_facts sample_inputs_def)

end
