(* ===== verification/Tunna_Load.thy ===== *)
theory Tunna_Load
  imports Auth_Roundtrip
begin

text \<open>
  \<open>cmd/tunna-load\<close>: the load generator.  \<open>client\<close> is the HTTP transport, which answers a request
  with a status and the length of a body, or fails; a worker's turn draws a number, sends one
  request and offers its result to a channel nobody reads before the workers have ended.  The
  turns of all workers are one list, each taken whole.
\<close>

section \<open>One signed request\<close>

record wire_request =
  wr_Method :: gostring
  wr_URL :: gostring
  wr_ContentLength :: int
  wr_Header :: header
  wr_Body :: "byte list"

type_synonym 'e client = "wire_request \<Rightarrow> 'e \<Rightarrow> (int \<times> int) option \<times> 'e"

definition load_headers :: "sig_request \<Rightarrow> sig_key \<Rightarrow> int \<Rightarrow> byte list option \<Rightarrow> gostring \<Rightarrow> header" where
  "load_headers req key ts body contentType =
     (let w = (case body of None \<Rightarrow> [] | Some _ \<Rightarrow> Header_Set [] ''Content-Type'' contentType);
          w1 = Header_Set w ''X-Tunna-Date'' (FormatInt ts)
      in Header_Set w1 ''Authorization'' (Authorization req key ts))"

text \<open>\<open>do\<close>: \<open>url_ok\<close> is whether \<open>http.NewRequest\<close> accepts the URL; a failing transport counts as status 0.\<close>

definition load_do ::
  "'e client \<Rightarrow> (gostring \<Rightarrow> bool) \<Rightarrow> int \<Rightarrow> sig_key \<Rightarrow> gostring \<Rightarrow> gostring \<Rightarrow> gostring list \<Rightarrow> byte list option \<Rightarrow>
     gostring \<Rightarrow> 'e \<Rightarrow> (int \<times> int) \<times> 'e" where
  "load_do client url_ok ts key base meth path body contentType e =
     (let req = \<lparr>sr_Method = meth, sr_Path = path, sr_Query = [], sr_Headers = [], sr_SignedHeaders = []\<rparr>;
          url = base @ EncodePath path; bytes = (case body of None \<Rightarrow> [] | Some b \<Rightarrow> b) in
      if \<not> url_ok url then ((0, 0), e)
      else (case client \<lparr>wr_Method = meth, wr_URL = url, wr_ContentLength = int (length bytes),
          wr_Header = load_headers req key ts body contentType, wr_Body = bytes\<rparr> e of
        (None, e1) \<Rightarrow> ((0, 0), e1)
      | (Some (status, n), e1) \<Rightarrow> ((status, n), e1)))"

section \<open>The workers\<close>

record load_flags =
  lf_base :: gostring
  lf_key :: gostring
  lf_secret :: gostring
  lf_bucket :: gostring
  lf_profile :: gostring
  lf_payload :: "byte list"

record load_result =
  lr_latency :: int
  lr_bytes :: int
  lr_err :: bool

text \<open>What a turn draws: \<open>rng.Intn(10)\<close>, the clock when it signs, and the time that passed.\<close>

record load_turn =
  lt_draw :: nat
  lt_unix :: int
  lt_latency :: int

definition load_key :: "load_flags \<Rightarrow> sig_key" where
  "load_key fl = \<lparr>sk_ID = lf_key fl, sk_Secret = lf_secret fl\<rparr>"

definition octet_stream :: gostring where "octet_stream = ''application/octet-stream''"

definition doPut :: "load_flags \<Rightarrow> load_turn \<Rightarrow> bool" where
  "doPut fl t \<longleftrightarrow> lf_profile fl = ''put'' \<or> lf_profile fl = ''mixed'' \<and> lt_draw t = 0"

text \<open>\<open>results\<close> holds at most \<open>1 << 16\<close> values; a send that would block drops the result.\<close>

definition results_cap :: nat where "results_cap = 2 ^ 16"

definition offer :: "load_result \<Rightarrow> load_result list \<Rightarrow> load_result list" where
  "offer x results = (if length results < results_cap then results @ [x] else results)"

definition load_step ::
  "'e client \<Rightarrow> (gostring \<Rightarrow> bool) \<Rightarrow> load_flags \<Rightarrow> load_turn \<Rightarrow> int \<times> load_result list \<times> 'e \<Rightarrow>
     int \<times> load_result list \<times> 'e" where
  "load_step client url_ok fl t c =
     (case c of (seqno, results, e) \<Rightarrow>
      let put = doPut fl t;
          seqno1 = (if put then int64 (seqno + 1) else seqno);
          meth = (if put then ''PUT'' else ''GET'');
          body = (if put then Some (lf_payload fl) else None);
          path = (if put then [lf_bucket fl, ''obj-'' @ FormatInt seqno1] else [lf_bucket fl, ''warm.bin'']) in
      (case load_do client url_ok (lt_unix t) (load_key fl) (lf_base fl) meth path body octet_stream e of
         ((status, n), e1) \<Rightarrow>
           (seqno1,
            offer \<lparr>lr_latency = lt_latency t, lr_bytes = (if put then int (length (lf_payload fl)) else n),
                   lr_err = (status div 100 \<noteq> 2)\<rparr> results, e1)))"

section \<open>The report\<close>

text \<open>
  \<open>int(float64(n)*p)\<close>: the product of two doubles is the exact product rounded to 53 bits, to the
  even neighbour when it lies halfway; \<open>p\<close> is given as a multiple of \<open>2\<^sup>-\<^sup>5\<^sup>3\<close>.
\<close>

fun bit_len :: "nat \<Rightarrow> nat" where
  "bit_len n = (if n = 0 then 0 else Suc (bit_len (n div 2)))"

declare bit_len.simps [simp del]

definition round53 :: "nat \<Rightarrow> nat" where
  "round53 x =
     (let k = bit_len x - 53; q = x div 2 ^ k; r = x mod 2 ^ k in
      if 2 * r > 2 ^ k \<or> (2 * r = 2 ^ k \<and> odd q) then (q + 1) * 2 ^ k else q * 2 ^ k)"

definition float_index :: "nat \<Rightarrow> nat \<Rightarrow> nat" where
  "float_index n p = round53 (n * p) div 2 ^ 53"

definition p50 :: nat where "p50 = 2 ^ 52"
definition p95 :: nat where "p95 = 8556839292003942"
definition p99 :: nat where "p99 = 8917127262193582"
definition p100 :: nat where "p100 = 2 ^ 53"

definition pct :: "int list \<Rightarrow> nat \<Rightarrow> int" where
  "pct lat p = (if lat = [] then 0 else lat ! float_index (length lat - 1) p)"

record load_report =
  rp_requests :: nat
  rp_errors :: nat
  rp_bytes :: int
  rp_p50 :: int
  rp_p95 :: int
  rp_p99 :: int
  rp_max :: int

definition tally :: "load_result \<Rightarrow> nat \<times> nat \<times> int list \<times> int \<Rightarrow> nat \<times> nat \<times> int list \<times> int" where
  "tally r c =
     (case c of (requests, errs, lat, nbytes) \<Rightarrow>
      if lr_err r then (requests + 1, errs + 1, lat, nbytes)
      else (requests + 1, errs, lat @ [lr_latency r], int64 (nbytes + lr_bytes r)))"

definition collect :: "load_result list \<Rightarrow> load_report" where
  "collect results =
     (case fold tally results (0, 0, [], 0) of (requests, errs, lat, nbytes) \<Rightarrow>
      let sorted = sort lat in
      \<lparr>rp_requests = requests, rp_errors = errs, rp_bytes = nbytes, rp_p50 = pct sorted p50, rp_p95 = pct sorted p95,
       rp_p99 = pct sorted p99, rp_max = pct sorted p100\<rparr>)"

text \<open>The workers, then the collector.\<close>

definition load_run ::
  "'e client \<Rightarrow> (gostring \<Rightarrow> bool) \<Rightarrow> load_flags \<Rightarrow> load_turn list \<Rightarrow> 'e \<Rightarrow> load_report" where
  "load_run client url_ok fl turns e = collect (fst (snd (fold (load_step client url_ok fl) turns (0, [], e))))"

text \<open>\<open>main\<close>: the exit code with which it gives up, or the report it prints.\<close>

definition load_main ::
  "'e client \<Rightarrow> (gostring \<Rightarrow> bool) \<Rightarrow> load_flags \<Rightarrow> int \<Rightarrow> int \<Rightarrow> load_turn list \<Rightarrow> 'e \<Rightarrow> nat + load_report" where
  "load_main client url_ok fl ts1 ts2 turns e =
     (if lf_secret fl = [] then Inl 2
      else (case load_do client url_ok ts1 (load_key fl) (lf_base fl) ''PUT'' [''-'', ''buckets'', lf_bucket fl] None [] e of
        ((st, _), e1) \<Rightarrow>
          if st \<noteq> 201 \<and> st \<noteq> 409 then Inl 1
          else if lf_profile fl \<noteq> ''put'' then
            (case load_do client url_ok ts2 (load_key fl) (lf_base fl) ''PUT'' [lf_bucket fl, ''warm.bin'']
                (Some (lf_payload fl)) octet_stream e1 of
               ((st2, _), e2) \<Rightarrow>
                 if st2 \<noteq> 201 then Inl 1
                 else Inr (load_run client url_ok fl turns e2))
          else Inr (load_run client url_ok fl turns e1)))"

section \<open>Rounding\<close>

lemma bit_len_le: "bit_len n \<le> k \<longleftrightarrow> n < 2 ^ k"
proof (induction k arbitrary: n)
  case 0
  then show ?case by (simp add: bit_len.simps [of n])
next
  case (Suc k)
  show ?case
  proof (cases "n = 0")
    case False
    then have "bit_len n \<le> Suc k \<longleftrightarrow> bit_len (n div 2) \<le> k" by (simp add: bit_len.simps [of n])
    also have "\<dots> \<longleftrightarrow> n < 2 ^ Suc k" using Suc [of "n div 2"] by (simp add: div_less_iff_less_mult mult.commute)
    finally show ?thesis .
  qed (simp add: bit_len.simps)
qed

text \<open>Rounding a number below \<open>2\<^sup>5\<^sup>3\<^sup>+\<^sup>j\<close> moves it by at most \<open>2\<^sup>j\<close>, and a multiple of \<open>2\<^sup>5\<^sup>3\<close> not at all.\<close>

lemma round53_near:
  assumes "x < 2 ^ (53 + j)"
  shows "x < round53 x + 2 ^ j" "round53 x \<le> x + 2 ^ j"
proof -
  let ?k = "bit_len x - 53"
  have k: "?k \<le> j" using assms bit_len_le [of x "53 + j"] by simp
  have split: "x = x div 2 ^ ?k * 2 ^ ?k + x mod 2 ^ ?k" by (rule div_mult_mod_eq [symmetric])
  have r: "x mod 2 ^ ?k < 2 ^ ?k" by simp
  have pow: "(2 :: nat) ^ ?k \<le> 2 ^ j" using k by (simp add: power_increasing)
  have "round53 x = x div 2 ^ ?k * 2 ^ ?k \<or> round53 x = x div 2 ^ ?k * 2 ^ ?k + 2 ^ ?k"
    by (simp add: round53_def Let_def)
  then show "x < round53 x + 2 ^ j" "round53 x \<le> x + 2 ^ j"
    using split r pow by linarith+
qed

lemma round53_multiple:
  assumes "2 ^ (bit_len x - 53) dvd x"
  shows "round53 x = x"
  using assms by (auto simp: round53_def Let_def dvd_div_mult_self)

lemma round53_exact:
  assumes "n < 2 ^ 53"
  shows "round53 (n * 2 ^ 53) = n * 2 ^ 53"
proof -
  have "n * 2 ^ 53 < 2 ^ 53 * (2 :: nat) ^ 53" using assms by (rule mult_strict_right_mono) simp
  then have "n * 2 ^ 53 < 2 ^ (53 + 53)" by (simp only: power_add)
  then have "bit_len (n * 2 ^ 53) \<le> 53 + 53" by (simp only: bit_len_le)
  then have "(2 :: nat) ^ (bit_len (n * 2 ^ 53) - 53) dvd 2 ^ 53" by (intro le_imp_power_dvd) simp
  then show ?thesis by (intro round53_multiple dvd_mult)
qed

text \<open>A fraction \<open>p\<close> below one of a list as long as the channel is names one of its elements.\<close>

lemma round53_mono_gap:
  assumes "x + 2 * 2 ^ j \<le> y" and "y < 2 ^ (53 + j)"
  shows "round53 x \<le> round53 y"
proof -
  have "x < 2 ^ (53 + j)" using assms by simp
  then have "round53 x \<le> x + 2 ^ j" by (rule round53_near)
  moreover have "y < round53 y + 2 ^ j" using assms(2) by (rule round53_near)
  ultimately show ?thesis using assms(1) by simp
qed

lemmas shares = p50_def p95_def p99_def p100_def

lemma float_index_mono:
  assumes "n < 2 ^ 16" and "p + 2 ^ 40 \<le> q" and "q \<le> 2 ^ 53"
  shows "float_index n p \<le> float_index n q"
proof (cases "n = 0")
  case False
  have "n * q \<le> n * 2 ^ 53" using assms(3) by (rule mult_le_mono2)
  also have "\<dots> < 2 ^ 16 * 2 ^ 53" using assms(1) by (rule mult_strict_right_mono) simp
  finally have below: "n * q < 2 ^ (53 + 16)" by (simp add: power_add)
  have "n * p + n * 2 ^ 40 \<le> n * q" using assms(2) by (metis distrib_left mult_le_mono2)
  moreover have "2 * 2 ^ 16 \<le> n * (2 :: nat) ^ 40" using False by (simp add: Suc_le_eq)
  ultimately have "n * p + 2 * 2 ^ 16 \<le> n * q" by linarith
  from round53_mono_gap [OF this below] show ?thesis
    unfolding float_index_def by (rule div_le_mono)
qed (simp add: float_index_def)

lemma float_index_whole: "n < 2 ^ 53 \<Longrightarrow> float_index n p100 = n"
  unfolding float_index_def p100_def by (simp only: round53_exact) simp

lemma percentile_order:
  assumes "n < 2 ^ 16"
  shows "float_index n p50 \<le> float_index n p95" "float_index n p95 \<le> float_index n p99"
    "float_index n p99 \<le> n"
proof -
  have whole: "float_index n p100 = n" using assms by (intro float_index_whole) simp
  have "float_index n p99 \<le> float_index n p100" using assms by (intro float_index_mono) (simp_all add: shares)
  then show "float_index n p99 \<le> n" by (simp only: whole)
qed (use assms in \<open>(intro float_index_mono; simp add: shares)+\<close>)

section \<open>What the report can say\<close>

lemma offer_length [simp]: "length (offer x results) \<le> results_cap \<longleftrightarrow> length results \<le> results_cap"
  by (auto simp: offer_def)

lemma load_step_length:
  "length (fst (snd (load_step client url_ok fl t c))) = min (Suc (length (fst (snd c)))) results_cap
   \<or> results_cap < length (fst (snd c))"
  by (auto simp: load_step_def Let_def offer_def split: prod.splits)

lemma load_steps_length:
  "length (fst (snd c)) \<le> results_cap \<Longrightarrow>
   length (fst (snd (fold (load_step client url_ok fl) turns c)))
     = min (length (fst (snd c)) + length turns) results_cap"
proof (induction turns arbitrary: c)
  case (Cons t turns)
  have here: "length (fst (snd (load_step client url_ok fl t c))) = min (Suc (length (fst (snd c)))) results_cap"
    using load_step_length [of client url_ok fl t c] Cons.prems by simp
  show ?case using Cons.IH [of "load_step client url_ok fl t c"] here by simp
qed simp

lemma tallied:
  "fold tally rs (n, k, lat, b) =
     (n + length rs, k + length (filter lr_err rs), lat @ map lr_latency (filter (\<lambda>r. \<not> lr_err r) rs),
      snd (snd (snd (fold tally rs (n, k, lat, b)))))"
proof (induction rs arbitrary: n k lat b)
  case (Cons r rs)
  show ?case
  proof (cases "lr_err r")
    case True
    then show ?thesis using Cons [of "Suc n" "Suc k" lat b] by (simp add: tally_def)
  next
    case False
    then show ?thesis
      using Cons [of "Suc n" k "lat @ [lr_latency r]" "int64 (b + lr_bytes r)"] by (simp add: tally_def)
  qed
qed simp

lemma pct_sorted:
  assumes "sorted lat" and "float_index (length lat - 1) p \<le> float_index (length lat - 1) q"
    and "float_index (length lat - 1) q \<le> length lat - 1"
  shows "pct lat p \<le> pct lat q"
proof (cases "lat = []")
  case False
  then have "float_index (length lat - 1) q < length lat" using assms(3) by (cases lat) auto
  then show ?thesis using False assms by (simp add: pct_def sorted_nth_mono)
qed (simp add: pct_def)

lemma load_step_full:
  "length (fst (snd c)) = results_cap \<Longrightarrow> fst (snd (load_step client url_ok fl t c)) = fst (snd c)"
  by (auto simp: load_step_def Let_def offer_def split: prod.splits)

lemma load_steps_full:
  "length (fst (snd c)) = results_cap \<Longrightarrow> fst (snd (fold (load_step client url_ok fl) turns c)) = fst (snd c)"
proof (induction turns arbitrary: c)
  case (Cons t turns)
  then show ?case using load_step_full [of c client url_ok fl t] by simp
qed simp

lemma load_steps_capped:
  "load_run client url_ok fl (take results_cap turns) = load_run client url_ok fl turns"
proof (rule ext, cases "length turns \<le> results_cap")
  fix e
  case False
  let ?go = "fold (load_step client url_ok fl)"
  let ?c = "?go (take results_cap turns) (0, [], e)"
  have "length (fst (snd ?c)) = results_cap"
    using False load_steps_length [of "(0, [], e)" client url_ok fl "take results_cap turns"] by simp
  then have "fst (snd (?go (drop results_cap turns) ?c)) = fst (snd ?c)" by (rule load_steps_full)
  moreover have "?go turns (0, [], e) = ?go (drop results_cap turns) ?c"
    by (metis append_take_drop_id fold_append comp_apply)
  ultimately show "load_run client url_ok fl (take results_cap turns) e = load_run client url_ok fl turns e"
    by (simp add: load_run_def)
qed simp

definition ordered_report :: "nat \<Rightarrow> load_report \<Rightarrow> bool" where
  "ordered_report n rp \<longleftrightarrow>
     rp_requests rp = n \<and> rp_errors rp \<le> n \<and>
     rp_p50 rp \<le> rp_p95 rp \<and> rp_p95 rp \<le> rp_p99 rp \<and> rp_p99 rp \<le> rp_max rp"

lemma collect_ordered:
  assumes "length results \<le> results_cap"
  shows "ordered_report (length results) (collect results)"
proof -
  let ?lat = "sort (map lr_latency (filter (\<lambda>r. \<not> lr_err r) results))"
  let ?n = "length ?lat - 1"
  have "length ?lat \<le> results_cap" using assms by simp (meson le_trans length_filter_le)
  then have small: "?n < 2 ^ 16" unfolding results_cap_def by simp
  note ord = percentile_order [OF small]
  have whole: "float_index ?n p100 = ?n" using small by (intro float_index_whole) simp
  have sorted: "sorted ?lat" by simp
  have "pct ?lat p50 \<le> pct ?lat p95" "pct ?lat p95 \<le> pct ?lat p99" "pct ?lat p99 \<le> pct ?lat p100"
    using ord whole by (intro pct_sorted [OF sorted]; linarith)+
  moreover obtain b where "fold tally results (0, 0, [], 0) =
      (length results, length (filter lr_err results), map lr_latency (filter (\<lambda>r. \<not> lr_err r) results), b)"
    using tallied [of results 0 0 "[]" 0] by simp
  ultimately show ?thesis by (simp add: ordered_report_def collect_def Let_def)
qed

definition load_outcome :: "load_turn list \<Rightarrow> nat + load_report \<Rightarrow> bool" where
  "load_outcome turns r =
     (case r of Inl code \<Rightarrow> code \<in> {1, 2} | Inr rp \<Rightarrow> ordered_report (min (length turns) results_cap) rp)"

lemma run_ordered:
  "ordered_report (min (length turns) results_cap) (load_run client url_ok fl turns e)"
  unfolding load_run_def using load_steps_length [of "(0, [], e)" client url_ok fl turns]
    collect_ordered [of "fst (snd (fold (load_step client url_ok fl) turns (0, [], e)))"]
  by simp

text \<open>
  C35. Whatever the server answers, the load generator either gives up with exit code 1 or 2 or
  prints a report on exactly \<open>min(turns, 65536)\<close> requests, with no more errors than requests and
  \<open>p50 <= p95 <= p99 <= max\<close> (the percentile index, computed in floating point, is never out of
  range); and the report is the one of the first 65536 turns: what the workers did afterwards,
  errors included, leaves no trace in it.
\<close>

theorem load_report_is_capped:
  "load_outcome turns (load_main client url_ok fl ts1 ts2 turns e)
   \<and> load_main client url_ok fl ts1 ts2 turns e = load_main client url_ok fl ts1 ts2 (take 65536 turns) e"
proof
  show "load_outcome turns (load_main client url_ok fl ts1 ts2 turns e)"
    by (auto simp: load_main_def load_outcome_def run_ordered split: prod.splits)
  have cap: "results_cap = 65536" by (simp add: results_cap_def)
  show "load_main client url_ok fl ts1 ts2 turns e = load_main client url_ok fl ts1 ts2 (take 65536 turns) e"
    unfolding load_main_def by (simp only: load_steps_capped [of client url_ok fl turns, unfolded cap])
qed

text \<open>A run of three turns: a \<open>PUT\<close> profile against a server that creates everything.\<close>

definition three_turns :: "load_turn list" where
  "three_turns = map (\<lambda>l. \<lparr>lt_draw = 0, lt_unix = 1700000000, lt_latency = l\<rparr>) [5, 3, 4]"

lemma load_sample:
  "load_main (\<lambda>_ e. (Some (201, 0), e)) (\<lambda>_. True)
     \<lparr>lf_base = ''http://localhost:8000'', lf_key = ''tk_admin'', lf_secret = ''s'', lf_bucket = ''load'',
      lf_profile = ''put'', lf_payload = [1, 2]\<rparr> 1700000000 1700000000 three_turns ()
   = Inr \<lparr>rp_requests = 3, rp_errors = 0, rp_bytes = 6, rp_p50 = 4, rp_p95 = 4, rp_p99 = 4, rp_max = 5\<rparr>"
  by (simp add: load_main_def load_run_def load_do_def load_step_def collect_def tally_def offer_def results_cap_def doPut_def
    three_turns_def pct_def float_index_def round53_def bit_len.simps shares Let_def int64_def)

end
