(* ===== verification/Http_Integrity.thy ===== *)
theory Http_Integrity
  imports Http_System
begin

text \<open>
  Whether the bytes are what the rows say.  In every history of requests the size and the checksum
  of each object are those of the bytes of its blob, and the parts that a session records are the
  bytes at their places, as long as no refused request has overwritten a part that was recorded
  before; \<open>Http_Spoils\<close> shows that such a request exists and what it does.
\<close>

section \<open>Rows that tell the truth about their blobs\<close>

definition describes :: "object \<Rightarrow> byte list option \<Rightarrow> bool" where
  "describes ob blob \<longleftrightarrow>
     (case blob of
        None \<Rightarrow> False
      | Some bytes \<Rightarrow> 0 \<le> o_Size ob \<and> o_Size ob \<le> int (length bytes) \<and>
          o_Checksum ob = EncodeCRC32C (crc32c (take (nat (o_Size ob)) bytes)))"

definition tracks :: "upload_session \<Rightarrow> byte list option \<Rightarrow> bool" where
  "tracks se blob \<longleftrightarrow> 1 \<le> u_PartSize se \<and> u_PartSize se \<le> max_part_size \<and>
     (case blob of
        None \<Rightarrow> False
      | Some bytes \<Rightarrow> recorded se bytes \<and> int (length bytes) \<le> max_part_number * u_PartSize se)"

definition faithful :: "view \<Rightarrow> bool" where
  "faithful v \<longleftrightarrow>
     (\<forall>p ob. v_objects v p = Some ob \<longrightarrow> describes ob (v_blobs v (o_BlobID ob))) \<and>
     (\<forall>i se. v_uploads v i = Some se \<longrightarrow> tracks se (v_blobs v (u_BlobID se)))"

text \<open>The bytes of a recorded part are other bytes afterwards.\<close>

definition spoils :: "view \<Rightarrow> view \<Rightarrow> bool" where
  "spoils v v' \<longleftrightarrow>
     (\<exists>i se n p old new. v_uploads v i = Some se \<and> map_of (u_Parts se) n = Some p \<and>
        v_blobs v (u_BlobID se) = Some old \<and> v_blobs v' (u_BlobID se) = Some new \<and>
        part_slice se new n (p_Size p) \<noteq> part_slice se old n (p_Size p))"

lemma faithfulD:
  assumes "faithful v"
  shows "v_objects v p = Some ob \<Longrightarrow> describes ob (v_blobs v (o_BlobID ob))"
    "v_uploads v i = Some se \<Longrightarrow> tracks se (v_blobs v (u_BlobID se))"
  using assms unfolding faithful_def by blast+

lemma faithful_others:
  assumes "faithful v" "keeps_blobs v B X"
  shows "v_objects v (b, k) = Some ob \<Longrightarrow> ObjectAt b k \<notin> X \<Longrightarrow> describes ob (B (o_BlobID ob))"
    "v_uploads v i = Some se \<Longrightarrow> SessionOf i \<notin> X \<Longrightarrow> tracks se (B (u_BlobID se))"
  using faithfulD [OF assms(1)] keeps_object [OF assms(2)] keeps_session [OF assms(2)] by fastforce+

lemma intact_describes: "intact v ob \<Longrightarrow> describes ob (v_blobs v (o_BlobID ob))"
  by (auto simp: intact_def describes_def split: option.splits)

section \<open>Every transition keeps it\<close>

lemma tracks_offset:
  assumes "tracks se blob" "places_part v B se n bytes"
  shows "part_offset se n = (n - 1) * u_PartSize se" "0 \<le> (n - 1) * u_PartSize se"
    "(n - 1) * u_PartSize se + int (length bytes) \<le> max_part_number * u_PartSize se"
proof -
  have n: "1 \<le> n" "n \<le> max_part_number" "1 \<le> u_PartSize se" "u_PartSize se \<le> max_part_size"
    "int (length bytes) \<le> u_PartSize se"
    using assms by (auto simp: tracks_def places_part_def)
  then show pos: "0 \<le> (n - 1) * u_PartSize se" by simp
  have "n * u_PartSize se \<le> max_part_number * u_PartSize se" using n by (intro mult_right_mono) auto
  with n(5) show le: "(n - 1) * u_PartSize se + int (length bytes) \<le> max_part_number * u_PartSize se"
    by (simp add: algebra_simps)
  have "max_part_number * u_PartSize se \<le> max_part_number * max_part_size"
    using n(4) by (intro mult_left_mono) (simp_all add: part_limit_defs)
  then have "max_part_number * u_PartSize se \<le> 2 ^ 60" by (simp add: part_limit_defs)
  with le pos have "(n - 1) * u_PartSize se < 2 ^ 63" by simp
  moreover have "n \<le> 2 ^ 20" using n(2) by (simp add: part_limit_defs)
  ultimately show "part_offset se n = (n - 1) * u_PartSize se"
    unfolding part_offset_def using n(1) pos by (simp add: int64_small)
qed

lemma tracks_length: "tracks se (Some bytes) \<Longrightarrow> int (length bytes) < 2 ^ 63"
  using mult_mono [of max_part_number max_part_number "u_PartSize se" max_part_size]
  by (auto simp: tracks_def part_limit_defs)

lemma tracks_write:
  assumes "tracks se (Some old)" "places_part v B se n bytes" "v_blobs v (u_BlobID se) = Some old" "bytes \<noteq> []"
  shows "tracks (with_part se n bytes) (B (u_BlobID se))"
proof -
  note off = tracks_offset [OF assms(1,2)]
  have new: "B (u_BlobID se) = Some (write_at old (nat ((n - 1) * u_PartSize se)) bytes)" "1 \<le> n"
    "int (length bytes) \<le> u_PartSize se"
    using assms(2,3) off(1) by (auto simp: places_part_def)
  have se: "recorded se old" "int (length old) \<le> max_part_number * u_PartSize se" "1 \<le> u_PartSize se"
    "u_PartSize se \<le> max_part_size"
    using assms(1) by (simp_all add: tracks_def)
  have "int (length (write_at old (nat ((n - 1) * u_PartSize se)) bytes)) \<le> max_part_number * u_PartSize se"
    using se(2,3) off(3) length_part_written [OF assms(4) new(2), of se old] by simp
  with recorded_write [OF se(1) new(2) assms(4) new(3)] se new(1) show ?thesis by (simp add: tracks_def)
qed

lemma tracks_unspoiled:
  assumes "tracks se (Some old)" "places_part v B se n bytes" "v_blobs v (u_BlobID se) = Some old"
    "\<And>m p new. map_of (u_Parts se) m = Some p \<Longrightarrow> B (u_BlobID se) = Some new \<Longrightarrow>
      part_slice se new m (p_Size p) = part_slice se old m (p_Size p)"
  shows "tracks se (B (u_BlobID se))"
proof -
  note off = tracks_offset [OF assms(1,2)]
  let ?new = "write_at old (nat (part_offset se n)) bytes"
  have new: "B (u_BlobID se) = Some ?new" using assms(2,3) by (auto simp: places_part_def)
  have "int (length ?new) \<le> max_part_number * u_PartSize se" "length old \<le> length ?new"
    using assms(1) off by (auto simp: tracks_def length_write_at)
  with assms(1,4) new show ?thesis by (fastforce simp: tracks_def recorded_def)
qed

lemma assembled_describes:
  assumes "tracks se (Some bytes)" "assembled v se n ob" "v_blobs v (u_BlobID se) = Some bytes"
  shows "describes ob (Some bytes)"
proof -
  have n: "map_of (u_Parts se) n \<noteq> None" "recorded se bytes"
    using assms(1,2) by (auto simp: assembled_def whole_def tracks_def)
  note at = recorded_at [OF n(2,1)]
  have "0 \<le> (n - 1) * u_PartSize se" using at(1) assms(1) by (simp add: tracks_def)
  then have "0 \<le> part_end se n" using at(2) by (simp add: part_end_def)
  with assms(2,3) n(2) at(4) tracks_length [OF assms(1)] show ?thesis
    by (simp add: assembled_def describes_def)
qed

lemma tracks_blob:
  assumes "faithful v" "v_uploads v i = Some se"
  obtains old where "v_blobs v (u_BlobID se) = Some old" "tracks se (Some old)"
  using faithfulD(2) [OF assms] by (cases "v_blobs v (u_BlobID se)") (auto simp: tracks_def)

lemma transition_faithful:
  assumes "transition c ok v v'" "faithful v" "ok \<or> \<not> spoils v v'"
  shows "faithful v'"
  using assms(1)
proof cases
  case (Quiet B)
  then show ?thesis using faithful_others [OF assms(2)] by (auto simp: faithful_def)
next
  case (StoreObject a ob B)
  then show ?thesis
    using faithful_others [OF assms(2)] intact_describes [of "v\<lparr>v_blobs := B\<rparr>" ob] by (auto simp: faithful_def)
next
  case (DropObject a b k ob B)
  then show ?thesis using faithful_others [OF assms(2)] by (auto simp: faithful_def)
next
  case (NewSession a se B)
  then have "tracks se (B (u_BlobID se))" by (simp add: tracks_def recorded_def part_limit_defs)
  with NewSession show ?thesis using faithful_others [OF assms(2)] by (auto simp: faithful_def)
next
  case (WritePart a se i B n bytes)
  obtain old where old: "v_blobs v (u_BlobID se) = Some old" "tracks se (Some old)"
    by (rule tracks_blob [OF assms(2) WritePart(5)])
  have "tracks se (B (u_BlobID se))"
  proof (rule tracks_unspoiled [OF old(2) WritePart(6) old(1)])
    fix m p new assume "map_of (u_Parts se) m = Some p" "B (u_BlobID se) = Some new"
    with assms(3) WritePart(2,3,5) old(1) show "part_slice se new m (p_Size p) = part_slice se old m (p_Size p)"
      unfolding spoils_def by auto
  qed
  with WritePart show ?thesis using faithful_others [OF assms(2)] unfolding faithful_def
    by simp (metis option.inject owner.distinct(1) owner.inject(2) singletonD)
next
  case (RecordPart a se i B n bytes)
  obtain old where old: "v_blobs v (u_BlobID se) = Some old" "tracks se (Some old)"
    by (rule tracks_blob [OF assms(2) RecordPart(5)])
  have "tracks (with_part se n bytes) (B (u_BlobID se))"
    by (rule tracks_write [OF old(2) RecordPart(6) old(1) RecordPart(7)])
  with RecordPart show ?thesis using faithful_others [OF assms(2)] by (auto simp: faithful_def)
next
  case (FinishSession a se i ob n B)
  obtain old where old: "v_blobs v (u_BlobID se) = Some old" "tracks se (Some old)"
    by (rule tracks_blob [OF assms(2) FinishSession(5)])
  have "describes ob (B (o_BlobID ob))"
    using assembled_describes [OF old(2) _ old(1)] FinishSession keeps_session [of v B _ i se] old(1) by simp
  with FinishSession show ?thesis using faithful_others [OF assms(2)] by (auto simp: faithful_def)
next
  case (DropSession a se i B)
  then show ?thesis using faithful_others [OF assms(2)] by (auto simp: faithful_def)
qed (use faithfulD [OF assms(2)] in \<open>auto simp: faithful_def\<close>)

section \<open>The server\<close>

lemma start_faithful: "faithful (sq_view (snd (start cfg now ((sq_empty db)\<lparr>dk_faults := io\<rparr>))))"
proof -
  let ?s = "(sq_empty db)\<lparr>dk_faults := io\<rparr>"
  have "sq_objects (snd (start cfg now ?s)) = []" "sq_uploads (snd (start cfg now ?s)) = []"
    by (auto simp: start_def sq_PutKey_def db_call_def sq_empty_def db_pop_def)
  then show ?thesis by (auto simp: faithful_def sq_view_def)
qed

text \<open>The requests of a history, each with the state it met, that were refused and yet spoiled a part.\<close>

fun spoilers :: "config \<Rightarrow> (env \<times> request) list \<Rightarrow> sq_world \<Rightarrow> (env \<times> request) list" where
  "spoilers cfg [] s = []"
| "spoilers cfg (er # ers) s =
     (case respond cfg er s of (rs, s1) \<Rightarrow>
        (if \<not> accepted rs \<and> spoils (sq_view s) (sq_view s1) then [er] else []) @ spoilers cfg ers s1)"

lemma unspoiled_faithful:
  assumes "sq_inv s" "consistent (sq_view s)" "faithful (sq_view s)" "spoilers cfg ers s = []"
  shows "faithful (sq_view (fold (\<lambda>er s. snd (respond cfg er s)) ers s))"
  using assms
proof (induction ers arbitrary: s)
  case (Cons er ers)
  obtain rs s1 where r: "respond cfg er s = (rs, s1)" by (cases "respond cfg er s")
  from respond_step [OF Cons.prems(1,2), of cfg er] r obtain c where
    "transition c (accepted rs) (sq_view s) (sq_view s1)" by (auto simp: sat_def post_def)
  moreover have "accepted rs \<or> \<not> spoils (sq_view s) (sq_view s1)" "spoilers cfg ers s1 = []"
    using Cons.prems(4) r by (auto split: if_splits)
  ultimately have "faithful (sq_view s1)" using transition_faithful Cons.prems(3) by blast
  with Cons.IH [of s1] respond_keeps [OF Cons.prems(1,2), of cfg er] r \<open>spoilers cfg ers s1 = []\<close> show ?case by simp
qed simp


end
