(* ===== verification/Http_Spoils.thy ===== *)
theory Http_Spoils
  imports Http_Races Http_Integrity
begin

text \<open>
  How an upload goes wrong: the ways a request leaves stored data that is not what was recorded, on
  the small server with one session whose first part, one byte, has been received.
\<close>

lemma late_world_simps [simp]:
  "sq_faults late_world = []" "dk_faults late_world = []" "sq_objects late_world = []"
  "sq_buckets late_world = [(''photos'', \<lparr>br_public = True, br_created = 0\<rparr>)]"
  "sq_uploads late_world = [(''up'', late_row)]" "dk_files late_world = [(up_path, [104])]"
  by (simp_all add: late_world_def upload_world_def plain_world_def sq_empty_def)

lemma late_row_simps [simp]: "ur_bucket late_row = ''photos''" "ur_expires late_row = 2000"
  by (simp_all add: late_row_def)

lemma late_view:
  "v_uploads (sq_view late_world) i = (if i = ''up'' then Some late_se else None)"
  "v_objects (sq_view late_world) p = None" "v_blobs (sq_view late_world) up_blob = Some [104]"
  by (cases p; auto simp: sq_view_def late_se_def blobs_of_def upload_facts)+

lemma late_faithful: "faithful (sq_view late_world)"
proof -
  have "recorded late_se [104]" by (simp add: recorded_def record_of_def part_slice_def)
  then have "tracks late_se (Some [104])"
    unfolding tracks_def late_se_simps option.case part_limit_defs by simp
  then show ?thesis
    unfolding faithful_def late_view(1,2) using late_view(3) by (auto split: if_splits)
qed

lemma other_checksum: "EncodeCRC32C (crc32c [104]) \<noteq> EncodeCRC32C (crc32c [33])"
proof -
  have "crc32c [104] \<noteq> crc32c [33]" unfolding crc32c_def table_update_run by code_simp
  then show ?thesis by (metis ParseChecksum_EncodeCRC32C option.inject)
qed

definition late_ob :: object where
  "late_ob = scan_object ''photos'' ''cat'' (object_values late_object)"

text \<open>The completion of that session, as long as it is there: its object is made of the record.\<close>

lemma late_completion:
  assumes "sq_faults s = []" "sq_uploads s = [(''up'', late_row)]"
  shows "completeUpload (server plain_config) plain_env [] (upload_request [] [] (count_parts 1)) s =
    finishUpload (server plain_config) [] (upload_request [] [] (count_parts 1)) late_se late_object s"
proof -
  have "activeSession (server plain_config) plain_env [] (upload_request [] [] (count_parts 1)) s = (Inr late_se, s)"
    using assms upload_facts(3) quiet_activeSession [of s "upload_request [] [] (count_parts 1)" late_row plain_env plain_config "[]"]
    by (simp add: late_se_def plain_env_def time_Unix_def Second_def)
  moreover have "complete_error [] late_se \<lparr>cm_Parts = 1, cm_Checksums = None\<rparr> = None" "fold_upload late_se 1 = Some (crc32c [104], 1)"
    by (simp_all add: complete_error_def missing_parts_def short_part_def fold_upload_def upto_facts record_of_def part_at_def)
  ultimately show ?thesis
    using completion_counts(1) [of "[]" "[]"] by (simp add: completeUpload_def completion_def late_object_def)
qed

section \<open>A history without spoilers\<close>

text \<open>
  Only a recorded part can be spoiled: the first request finds no session, and the second one at
  most a session that has just been opened.
\<close>

lemma no_parts_no_spoils:
  "(\<And>i se. v_uploads v i = Some se \<Longrightarrow> u_Parts se = []) \<Longrightarrow> \<not> spoils v v'"
  unfolding spoils_def by fastforce

lemma first_sessions_are_empty:
  assumes "transition c ok v v'" "\<And>i. v_uploads v i = None" "v_uploads v' i = Some se"
  shows "u_Parts se = []"
  using assms by cases (auto split: if_splits)


section \<open>A part cut off on its second way\<close>

text \<open>The first part again, a retry say: of the two bytes it announces one arrives.\<close>

definition cut_part :: request where
  "cut_part = (upload_request ''1'' [33] JsonEOF)\<lparr>rq_ContentLength := 2, rq_Body := \<lparr>rd_bytes = [33], rd_end = BodyUnexpectedEOF\<rparr>\<rparr>"

text \<open>
  A refused part can destroy an accepted one: when a part that has been received is sent again
  and the connection breaks, the request is refused with 422, the record of the part stays, and the
  bytes that arrived have replaced the recorded ones; the completion is then answered 201, with the
  size and checksum of bytes that the object does not have.
\<close>

lemma interrupted_resend_spoils_object:
  "case putUploadPart (server plain_config) plain_env [] cut_part late_world of
     (rs1, s1) \<Rightarrow> (case completeUpload (server plain_config) plain_env [] (upload_request [] [] (count_parts 1)) s1 of
       (rs2, s2) \<Rightarrow> framed cut_part \<and> faithful (sq_view late_world) \<and>
         rs_status rs1 = 422 \<and> spoils (sq_view late_world) (sq_view s1) \<and> rs_status rs2 = 201 \<and>
         (\<exists>ob. stored (sq_view s2) ''photos'' ''cat'' ob [33] \<and> o_Size ob = 1 \<and> o_Checksum ob = EncodeCRC32C (crc32c [104]) \<and>
            \<not> describes ob (Some [33])))"
proof -
  let ?s1 = "late_world\<lparr>dk_files := [(up_path, [33])]\<rparr>"
    and ?s2 = "late_done\<lparr>dk_files := [(up_path, [33])]\<rparr>"
  have "activeSession (server plain_config) plain_env [] cut_part late_world = (Inr late_se, late_world)"
    using upload_facts(3) quiet_activeSession [of late_world cut_part late_row plain_env plain_config "[]"]
    by (simp add: late_se_def plain_env_def time_Unix_def Second_def cut_part_def upload_request_def PathValue_def caller_key_def)
  moreover have "wantChecksum [] cut_part = Inr None" "PathValue cut_part ''n'' = ''1''" "rq_ContentLength cut_part = 2"
    "rq_Body cut_part = \<lparr>rd_bytes = [33], rd_end = BodyUnexpectedEOF\<rparr>"
    by (simp_all add: cut_part_def upload_request_def PathValue_def wantChecksum_def bodyChecksum_def rawQuery_def
      Header_Get_def Values_Get_def Values_Has_def)
  ultimately have put: "putUploadPart (server plain_config) plain_env [] cut_part late_world =
      (writeError [] codeBodyLengthMismatch ''body ended before Content-Length bytes arrived'' [], ?s1)"
    using upload_facts by (simp add: putUploadPart_def plain_limits storePart_def Let_def int64_small disk_Write_def
      end_error_def write_at_def map_put_def)
  have fin: "finishUpload (server plain_config) [] (upload_request [] [] (count_parts 1)) late_se late_object ?s1 =
      (writeJSON (Header_Add (Header_Add [] ''ETag'' (quoted (o_Checksum late_object))) ''X-Tunna-Checksum'' (o_Checksum late_object))
         201 (toObjectRecord late_object), ?s2)"
    by (simp add: finishUpload_def sq_CompleteUpload_def db_tx_def putObjectTx_def db_commit_def db_pop_def late_done_def
      map_put_def map_del_def late_object_def upload_object_def Let_def)
  have ob: "stored (sq_view ?s2) ''photos'' ''cat'' late_ob [33]"
    by (simp add: late_ob_def stored_def sq_view_def late_done_def blobs_of_def upload_facts scan_object_def object_values_def
      late_object_def upload_object_def)
  have "part_slice late_se [33] 1 1 \<noteq> part_slice late_se [104] 1 1" by (simp add: part_slice_def)
  then have "spoils (sq_view late_world) (sq_view ?s1)"
    unfolding spoils_def
    by (intro exI [of _ "''up''"] exI [of _ late_se] exI [of _ 1] exI [of _ "record_of [104]"] exI [of _ "[104]"] exI [of _ "[33]"])
      (simp add: late_view, simp add: record_of_def sq_view_def blobs_of_def upload_facts)
  moreover have "framed cut_part" by (simp add: framed_def cut_part_def)
  moreover have "\<not> describes late_ob (Some [33])" "o_Size late_ob = 1" "o_Checksum late_ob = EncodeCRC32C (crc32c [104])"
    using other_checksum
    by (simp_all add: late_ob_def describes_def scan_object_def object_values_def late_object_def upload_object_def)
  moreover have "completeUpload (server plain_config) plain_env [] (upload_request [] [] (count_parts 1)) ?s1 =
      (writeJSON (Header_Add (Header_Add [] ''ETag'' (quoted (o_Checksum late_object))) ''X-Tunna-Checksum'' (o_Checksum late_object))
         201 (toObjectRecord late_object), ?s2)"
    using late_completion [of ?s1] fin by simp
  ultimately show ?thesis
    unfolding put using ob late_faithful by (auto simp: writeError_status statusOf_def writeJSON_def)
qed

text \<open>
  C10. Sending a part again can spoil the object, though the protocol says that it replaces the part.
  A shorter body leaves the end of the longer one in the blob: all three requests are accepted, and
  the object has size 1 and the checksum of one byte, while its blob, which a GET serves, has two.
  A retry that breaks off is refused with 422, the record of the part stays, and the bytes that
  arrived have replaced the recorded ones: the completion is then answered 201, with the size and
  checksum of bytes that the object does not have.
\<close>

theorem resent_part_spoils_object:
  "(case send_parts (server plain_config) shorter_resend upload_world of None \<Rightarrow> False
     | Some s1 \<Rightarrow> (case completeUpload (server plain_config) plain_env [] (upload_request [] [] (count_parts 1)) s1 of
         (rs, s2) \<Rightarrow> accepted rs \<and> (\<exists>ob. stored (sq_view s2) ''photos'' ''cat'' ob [33, 105] \<and>
           o_Size ob = 1 \<and> o_Checksum ob = EncodeCRC32C (crc32c [33]) \<and> \<not> intact (sq_view s2) ob))) \<and>
   (case putUploadPart (server plain_config) plain_env [] cut_part late_world of
       (rs1, s1) \<Rightarrow> (case completeUpload (server plain_config) plain_env [] (upload_request [] [] (count_parts 1)) s1 of
         (rs2, s2) \<Rightarrow> framed cut_part \<and> faithful (sq_view late_world) \<and>
           rs_status rs1 = 422 \<and> spoils (sq_view late_world) (sq_view s1) \<and> rs_status rs2 = 201 \<and>
           (\<exists>ob. stored (sq_view s2) ''photos'' ''cat'' ob [33] \<and> o_Size ob = 1 \<and> o_Checksum ob = EncodeCRC32C (crc32c [104]) \<and>
              \<not> describes ob (Some [33]))))"
  using shorter_resend_keeps_tail interrupted_resend_spoils_object by (rule conjI)

section \<open>A part sent twice at the same time\<close>

definition crossed_parts :: "program list" where
  "crossed_parts = map (\<lambda>b. putUploadPart (replaying (server plain_config)) plain_env [] (upload_request ''1'' [b] JsonEOF)) [104, 33]"

lemma crossed_calls:
  assumes "i < 2" "b = [104, 33] ! i"
  shows "next_call (crossed_parts ! i) [] = Some (US_GetUpload ''up'')"
    "next_call (crossed_parts ! i) [SessionAnswer (Inr late_se)] = Some (BL_Write up_blob 0 \<lparr>rd_bytes = [b], rd_end = BodyEOF\<rparr>)"
    "next_call (crossed_parts ! i) [SessionAnswer (Inr late_se), WriteAnswer (1, None)] = Some (BL_Sync up_blob)"
    "next_call (crossed_parts ! i) [SessionAnswer (Inr late_se), WriteAnswer (1, None), DoneAnswer (Inr ())] =
       Some (US_PutPart ''up'' 1 (record_of [b]))"
    "map_option rs_status (response_of (crossed_parts ! i) [SessionAnswer (Inr late_se), WriteAnswer (1, None), DoneAnswer (Inr ()),
       DoneAnswer (Inr ())]) = Some 200"
proof -
  have f: "crossed_parts ! i = putUploadPart (replaying (server plain_config)) plain_env [] (upload_request ''1'' [b] JsonEOF)"
    using assms by (cases "i = 0") (simp_all add: crossed_parts_def less_2_cases_iff)
  note run = f response_of_def next_call_def putUploadPart_def plain_limits late_session storePart_def Let_def record_of_def
    int64_small writeJSON_def
  show "next_call (crossed_parts ! i) [] = Some (US_GetUpload ''up'')"
    "next_call (crossed_parts ! i) [SessionAnswer (Inr late_se)] = Some (BL_Write up_blob 0 \<lparr>rd_bytes = [b], rd_end = BodyEOF\<rparr>)"
    "next_call (crossed_parts ! i) [SessionAnswer (Inr late_se), WriteAnswer (1, None)] = Some (BL_Sync up_blob)"
    "next_call (crossed_parts ! i) [SessionAnswer (Inr late_se), WriteAnswer (1, None), DoneAnswer (Inr ())] =
       Some (US_PutPart ''up'' 1 (record_of [b]))"
    "map_option rs_status (response_of (crossed_parts ! i) [SessionAnswer (Inr late_se), WriteAnswer (1, None), DoneAnswer (Inr ()),
       DoneAnswer (Inr ())]) = Some 200"
    using upload_facts by (simp_all add: run)
qed

text \<open>
  C11. Two parts of the same number that are sent at the same time are both answered 200, and the
  session then records the checksum of one over the bytes of the other: the stored data is no
  longer what was recorded, although nothing failed and the protocol lets parts arrive
  concurrently.
\<close>

theorem crossed_parts_disagree:
  "case interleave (server plain_config) crossed_parts [0, 1, 0, 1, 0, 1, 1, 0] late_world of
     (ass, s) \<Rightarrow> map2 (\<lambda>f as. map_option rs_status (response_of f as)) crossed_parts ass = [Some 200, Some 200] \<and>
       (\<exists>se. v_uploads (sq_view s) ''up'' = Some se \<and> map_of (u_Parts se) 1 = Some (record_of [104]) \<and>
          v_blobs (sq_view s) (u_BlobID se) = Some [33]) \<and>
       faithful (sq_view late_world) \<and> \<not> faithful (sq_view s)"
proof -
  let ?A = "[SessionAnswer (Inr late_se), WriteAnswer (1, None), DoneAnswer (Inr ()), DoneAnswer (Inr ())]"
  define blob_is where "blob_is b = late_world\<lparr>dk_files := [(up_path, [b])]\<rparr>" for b
  define noted where "noted b = (blob_is 33)\<lparr>sq_uploads := [(''up'', late_row\<lparr>ur_parts := [(1, record_of [b])]\<rparr>)]\<rparr>" for b
  have start: "blob_is 104 = late_world" by (simp add: blob_is_def)
  have runs: "sq_GetUpload ''up'' late_world = (Inr late_se, late_world)"
    "disk_Write up_blob 0 \<lparr>rd_bytes = [b], rd_end = BodyEOF\<rparr> (blob_is c) = ((1, None), blob_is b)"
    "disk_Sync up_blob (blob_is b) = (Inr (), blob_is b)"
    "sq_PutPart ''up'' 1 (record_of [33]) (blob_is 33) = (Inr (), noted 33)"
    "sq_PutPart ''up'' 1 (record_of [104]) (noted 33) = (Inr (), noted 104)" for b c
    using upload_facts
    by (simp_all add: sq_GetUpload_def late_se_def disk_Write_def disk_Sync_def sq_PutPart_def blob_is_def noted_def Let_def end_error_def
      write_at_def map_put_def late_row_def)
  have "length crossed_parts = 2" by (simp add: crossed_parts_def)
  then have run: "interleave (server plain_config) crossed_parts [0, 1, 0, 1, 0, 1, 1, 0] late_world = ([?A, ?A], noted 104)"
    using crossed_calls [of 0 104] crossed_calls [of 1 33] runs(2) [of 104 104, unfolded start] runs(2) [of 33 104, unfolded start]
    by (simp add: interleave_def numeral_2_eq_2 tick_def runs)
  have two: "crossed_parts = [crossed_parts ! 0, crossed_parts ! 1]" by (simp add: crossed_parts_def)
  have "map2 (\<lambda>f as. map_option rs_status (response_of f as)) crossed_parts [?A, ?A] = [Some 200, Some 200]"
    by (subst two) (use crossed_calls(5) [of 0 104] crossed_calls(5) [of 1 33] in simp)
  moreover have se: "v_uploads (sq_view (noted 104)) ''up'' = Some late_se" "v_blobs (sq_view (noted 104)) up_blob = Some [33]"
    by (simp_all add: noted_def blob_is_def sq_view_def late_se_def late_row_def scan_upload_def blobs_of_def upload_facts)
  moreover have "\<not> recorded late_se [33]" using other_checksum by (simp add: recorded_def record_of_def part_slice_def)
  then have "\<not> faithful (sq_view (noted 104))" using se faithfulD(2) [of "sq_view (noted 104)" "''up''" late_se] by (auto simp: tracks_def)
  ultimately show ?thesis unfolding run using late_faithful by simp
qed

section \<open>A completion that counts more parts than there can be\<close>



end
