(* ===== verification/Fixture_Load.thy ===== *)
theory Fixture_Load
  imports Tunna_Fixtures Http_Json
begin

text \<open>
  \<open>Load\<close> of \<open>internal/fixtures\<close>: reading the fixtures file and decoding it into the structs of
  \<open>Tunna_Fixtures\<close>, and that a file written from a \<open>File\<close> loads as that \<open>File\<close>.  The content of the
  file is what the JSON scanner makes of it, as for the request bodies of \<open>Http_Json\<close>.
\<close>

section \<open>Decoders for nested values\<close>

text \<open>A struct in a field, a slice of structs, a map of structs, a slice of strings whose nil is empty.\<close>

definition dec_struct :: "'r fields \<Rightarrow> json \<Rightarrow> 'r \<Rightarrow> 'r \<times> bool" where
  "dec_struct fs j old =
     (case j of
        JObj es \<Rightarrow> (case dec_members fs es old None of (r, bad) \<Rightarrow> (r, bad = None))
      | JNull \<Rightarrow> (old, True)
      | _ \<Rightarrow> (old, False))"

fun dec_each :: "'a \<Rightarrow> (json \<Rightarrow> 'a \<Rightarrow> 'a \<times> bool) \<Rightarrow> json list \<Rightarrow> 'a list \<Rightarrow> 'a list \<times> bool" where
  "dec_each zero dec [] old = ([], True)"
| "dec_each zero dec (j # js) old =
     (case dec j (case old of [] \<Rightarrow> zero | x # _ \<Rightarrow> x) of (x, ok) \<Rightarrow>
        (case dec_each zero dec js (drop 1 old) of (xs, ok') \<Rightarrow> (x # xs, ok \<and> ok')))"

definition dec_list :: "'a \<Rightarrow> (json \<Rightarrow> 'a \<Rightarrow> 'a \<times> bool) \<Rightarrow> json \<Rightarrow> 'a list \<Rightarrow> 'a list \<times> bool" where
  "dec_list zero dec j old =
     (case j of JArr js \<Rightarrow> dec_each zero dec js old | JNull \<Rightarrow> ([], True) | _ \<Rightarrow> (old, False))"

fun dec_table :: "'a \<Rightarrow> (json \<Rightarrow> 'a \<Rightarrow> 'a \<times> bool) \<Rightarrow> (gostring \<times> json) list \<Rightarrow> (gostring, 'a) gomap \<Rightarrow> (gostring, 'a) gomap \<times> bool" where
  "dec_table zero dec [] m = (m, True)"
| "dec_table zero dec ((k, j) # es) m =
     (case dec j zero of (x, ok) \<Rightarrow>
        (case dec_table zero dec es (map_put m k x) of (m', ok') \<Rightarrow> (m', ok \<and> ok')))"

definition dec_mapping :: "'a \<Rightarrow> (json \<Rightarrow> 'a \<Rightarrow> 'a \<times> bool) \<Rightarrow> json \<Rightarrow> (gostring, 'a) gomap \<Rightarrow> (gostring, 'a) gomap \<times> bool" where
  "dec_mapping zero dec j old =
     (case j of JObj es \<Rightarrow> dec_table zero dec es old | JNull \<Rightarrow> ([], True) | _ \<Rightarrow> (old, False))"

section \<open>The structs\<close>

definition blank_bytes :: fx_bytes where "blank_bytes = \<lparr>fb_Seed = 0, fb_Length = 0\<rparr>"

definition bytes_fields :: "fx_bytes fields" where
  "bytes_fields =
     [(''seed'', field dec_int fb_Seed fb_Seed_update), (''length'', field dec_int fb_Length fb_Length_update)]"

definition blank_object :: fx_object where
  "blank_object = \<lparr>fo_Key = [], fo_ContentType = [], fo_Text = None, fo_Bytes = None\<rparr>"

definition object_fields :: "fx_object fields" where
  "object_fields =
     [(''key'', field dec_string fo_Key fo_Key_update),
      (''content_type'', field dec_string fo_ContentType fo_ContentType_update),
      (''text'', field (dec_ptr [] dec_string) fo_Text fo_Text_update),
      (''bytes'', field (dec_ptr blank_bytes (dec_struct bytes_fields)) fo_Bytes fo_Bytes_update)]"

definition blank_bucket :: fx_bucket where
  "blank_bucket = \<lparr>fbk_Name = [], fbk_Public = False, fbk_Objects = []\<rparr>"

definition bucket_fields :: "fx_bucket fields" where
  "bucket_fields =
     [(''name'', field dec_string fbk_Name fbk_Name_update),
      (''public'', field dec_bool fbk_Public fbk_Public_update),
      (''objects'', field (dec_list blank_object (dec_struct object_fields)) fbk_Objects fbk_Objects_update)]"

definition blank_key :: fx_key where
  "blank_key = \<lparr>fk_ID = [], fk_Secret = [], fk_Name = [], fk_Admin = False, fk_Scopes = [], fk_Disabled = False\<rparr>"

definition key_fields :: "fx_key fields" where
  "key_fields =
     [(''id'', field dec_string fk_ID fk_ID_update), (''secret'', field dec_string fk_Secret fk_Secret_update),
      (''name'', field dec_string fk_Name fk_Name_update), (''admin'', field dec_bool fk_Admin fk_Admin_update),
      (''scopes'', field dec_map fk_Scopes fk_Scopes_update), (''disabled'', field dec_bool fk_Disabled fk_Disabled_update)]"

definition blank_file :: fx_file where
  "blank_file = \<lparr>ff_Spec = [], ff_CORSOrigins = [], ff_Keys = [], ff_Buckets = []\<rparr>"

text \<open>The anonymous struct of \<open>server\<close> has one field, kept in the file's record.\<close>

definition server_fields :: "fx_file fields" where
  "server_fields = [(''cors_origins'', field (dec_list [] dec_string) ff_CORSOrigins ff_CORSOrigins_update)]"

definition file_fields :: "fx_file fields" where
  "file_fields =
     [(''spec'', field dec_string ff_Spec ff_Spec_update), (''server'', dec_struct server_fields),
      (''keys'', field (dec_mapping blank_key (dec_struct key_fields)) ff_Keys ff_Keys_update),
      (''buckets'', field (dec_mapping blank_bucket (dec_struct bucket_fields)) ff_Buckets ff_Buckets_update)]"

text \<open>\<open>raw\<close> is what \<open>os.ReadFile\<close> answers: nothing when it fails.  An empty file is not JSON to \<open>json.Unmarshal\<close>.\<close>

definition fx_Load :: "json_body option \<Rightarrow> fx_file option" where
  "fx_Load raw =
     (case raw of
        Some (JsonValue j) \<Rightarrow> (case dec_struct file_fields j blank_file of (f, ok) \<Rightarrow> if ok then Some f else None)
      | _ \<Rightarrow> None)"

section \<open>Writing a file\<close>

definition bytes_json :: "fx_bytes \<Rightarrow> json" where
  "bytes_json b = JObj [(''seed'', jint (fb_Seed b)), (''length'', jint (fb_Length b))]"

definition opt_json :: "('a \<Rightarrow> json) \<Rightarrow> 'a option \<Rightarrow> json" where
  "opt_json f x = (case x of None \<Rightarrow> JNull | Some y \<Rightarrow> f y)"

definition object_json :: "fx_object \<Rightarrow> json" where
  "object_json ob = JObj [(''key'', JStr (fo_Key ob)), (''content_type'', JStr (fo_ContentType ob)),
     (''text'', opt_json JStr (fo_Text ob)), (''bytes'', opt_json bytes_json (fo_Bytes ob))]"

definition bucket_json :: "fx_bucket \<Rightarrow> json" where
  "bucket_json b = JObj [(''name'', JStr (fbk_Name b)), (''public'', JBool (fbk_Public b)),
     (''objects'', JArr (map object_json (fbk_Objects b)))]"

definition key_json :: "fx_key \<Rightarrow> json" where
  "key_json k = JObj [(''id'', JStr (fk_ID k)), (''secret'', JStr (fk_Secret k)), (''name'', JStr (fk_Name k)),
     (''admin'', JBool (fk_Admin k)), (''scopes'', JObj (map (\<lambda>(b, a). (b, JStr a)) (fk_Scopes k))),
     (''disabled'', JBool (fk_Disabled k))]"

definition table_json :: "('a \<Rightarrow> json) \<Rightarrow> (gostring, 'a) gomap \<Rightarrow> json" where
  "table_json f m = JObj (map (\<lambda>(k, x). (k, f x)) m)"

definition file_json :: "fx_file \<Rightarrow> json" where
  "file_json f = JObj [(''spec'', JStr (ff_Spec f)), (''server'', JObj [(''cors_origins'', JArr (map JStr (ff_CORSOrigins f)))]),
     (''keys'', table_json key_json (ff_Keys f)), (''buckets'', table_json bucket_json (ff_Buckets f))]"

text \<open>What fits the structs: keys that differ, seeds and lengths of 64 bits.\<close>

definition fits_bytes :: "fx_bytes \<Rightarrow> bool" where
  "fits_bytes b \<longleftrightarrow> int64_range (fb_Seed b) \<and> int64_range (fb_Length b)"

definition fits_object :: "fx_object \<Rightarrow> bool" where
  "fits_object ob \<longleftrightarrow> (case fo_Bytes ob of None \<Rightarrow> True | Some b \<Rightarrow> fits_bytes b)"

definition fits_file :: "fx_file \<Rightarrow> bool" where
  "fits_file f \<longleftrightarrow> distinct (map fst (ff_Keys f)) \<and> distinct (map fst (ff_Buckets f)) \<and>
     list_all (\<lambda>(n, k). distinct (map fst (fk_Scopes k))) (ff_Keys f) \<and>
     list_all (\<lambda>(n, b). list_all fits_object (fbk_Objects b)) (ff_Buckets f)"

section \<open>A written file loads as it was\<close>

lemma dec_members_here:
  "dec_members fs ((n, j) # es) r None =
     (case find_field fs n of
        None \<Rightarrow> dec_members fs es r None
      | Some (n', d) \<Rightarrow> (case d j r of (r', ok) \<Rightarrow> dec_members fs es r' (if ok then None else Some n')))"
  by (simp split: option.split prod.split)

lemmas decoding = dec_struct_def dec_members_here find_field_def field_def

lemma map_put_new: "k \<notin> fst ` set m \<Longrightarrow> map_put m k v = m @ [(k, v)]"
  by (induction m) (auto simp: map_put_def)

lemma dec_each_map:
  "(\<And>x. x \<in> set xs \<Longrightarrow> dec (enc x) zero = (x, True)) \<Longrightarrow> dec_each zero dec (map enc xs) [] = (xs, True)"
  by (induction xs) simp_all

lemma dec_table_map:
  "distinct (map fst (m0 @ m)) \<Longrightarrow> \<forall>x \<in> snd ` set m. dec (enc x) zero = (x, True) \<Longrightarrow>
     dec_table zero dec (map (\<lambda>(k, x). (k, enc x)) m) m0 = (m0 @ m, True)"
proof (induction m arbitrary: m0)
  case (Cons p m)
  obtain k x where p: "p = (k, x)" by (cases p)
  then have "map_put m0 k x = m0 @ [(k, x)]" using Cons.prems(1) by (intro map_put_new) auto
  with Cons.IH [of "m0 @ [(k, x)]"] Cons.prems p show ?case by simp
qed simp

lemma dec_entries_map: "distinct (map fst (m0 @ m)) \<Longrightarrow> dec_entries (map (\<lambda>(k, s). (k, JStr s)) m) m0 = (m0 @ m, True)"
proof (induction m arbitrary: m0)
  case (Cons p m)
  obtain k s where p: "p = (k, s)" by (cases p)
  then have "map_put m0 k s = m0 @ [(k, s)]" using Cons.prems by (intro map_put_new) auto
  with Cons.IH [of "m0 @ [(k, s)]"] Cons.prems p show ?case by simp
qed simp

lemma dec_bytes: "fits_bytes b \<Longrightarrow> dec_struct bytes_fields (bytes_json b) old = (b, True)"
  by (simp add: decoding bytes_fields_def bytes_json_def jint_def fits_bytes_def ParseInt_FormatInt)

lemma dec_object:
  assumes "fits_object ob"
  shows "dec_struct object_fields (object_json ob) blank_object = (ob, True)"
proof -
  have bytes: "dec_ptr blank_bytes (dec_struct bytes_fields) (opt_json bytes_json (fo_Bytes ob)) None = (fo_Bytes ob, True)"
    using assms dec_bytes by (cases "fo_Bytes ob") (simp_all add: dec_ptr_def opt_json_def fits_object_def bytes_json_def)
  have lit: "dec_ptr [] dec_string (opt_json JStr (fo_Text ob)) None = (fo_Text ob, True)"
    by (cases "fo_Text ob") (simp_all add: dec_ptr_def opt_json_def)
  show ?thesis
    by (simp add: decoding object_fields_def object_json_def blank_object_def bytes lit)
qed

lemma dec_bucket:
  assumes "list_all fits_object (fbk_Objects b)"
  shows "dec_struct bucket_fields (bucket_json b) blank_bucket = (b, True)"
proof -
  have "dec_each blank_object (dec_struct object_fields) (map object_json (fbk_Objects b)) [] = (fbk_Objects b, True)"
    using assms dec_object by (intro dec_each_map) (auto simp: list_all_iff)
  then show ?thesis by (simp add: decoding bucket_fields_def bucket_json_def blank_bucket_def dec_list_def)
qed

lemma dec_key:
  assumes "distinct (map fst (fk_Scopes k))"
  shows "dec_struct key_fields (key_json k) blank_key = (k, True)"
  using dec_entries_map [of "[]" "fk_Scopes k"] assms
  by (simp add: decoding key_fields_def key_json_def blank_key_def)

lemma fixture_file_roundtrip:
  assumes "fits_file f"
  shows "fx_Load (Some (JsonValue (file_json f))) = Some f"
proof -
  have keys: "dec_mapping blank_key (dec_struct key_fields) (table_json key_json (ff_Keys f)) [] = (ff_Keys f, True)"
    using assms dec_table_map [of "[]" "ff_Keys f" "dec_struct key_fields" key_json blank_key] dec_key
    by (force simp: dec_mapping_def table_json_def fits_file_def list_all_iff)
  have buckets: "dec_mapping blank_bucket (dec_struct bucket_fields) (table_json bucket_json (ff_Buckets f)) [] = (ff_Buckets f, True)"
    using assms dec_table_map [of "[]" "ff_Buckets f" "dec_struct bucket_fields" bucket_json blank_bucket] dec_bucket
    by (force simp: dec_mapping_def table_json_def fits_file_def list_all_iff)
  have server: "dec_struct server_fields (JObj [(''cors_origins'', JArr (map JStr (ff_CORSOrigins f)))]) r = (r\<lparr>ff_CORSOrigins := ff_CORSOrigins f\<rparr>, True)"
    if "ff_CORSOrigins r = []" for r
    using that dec_each_map [of "ff_CORSOrigins f" dec_string JStr "[]"]
    by (simp add: decoding server_fields_def dec_list_def)
  have find: "find_field file_fields ''spec'' = Some (''spec'', field dec_string ff_Spec ff_Spec_update)"
    "find_field file_fields ''server'' = Some (''server'', dec_struct server_fields)"
    "find_field file_fields ''keys'' = Some (''keys'', field (dec_mapping blank_key (dec_struct key_fields)) ff_Keys ff_Keys_update)"
    "find_field file_fields ''buckets'' =
       Some (''buckets'', field (dec_mapping blank_bucket (dec_struct bucket_fields)) ff_Buckets ff_Buckets_update)"
    by (simp_all add: find_field_def file_fields_def)
  have "dec_members file_fields [(''spec'', JStr (ff_Spec f)), (''server'', JObj [(''cors_origins'', JArr (map JStr (ff_CORSOrigins f)))]),
      (''keys'', table_json key_json (ff_Keys f)), (''buckets'', table_json bucket_json (ff_Buckets f))] blank_file None = (f, None)"
    by (simp add: find field_def blank_file_def server keys buckets)
  then show ?thesis by (simp add: fx_Load_def file_json_def dec_struct_def [of file_fields])
qed

end
